theory Spec2Isabelle
  imports Complex_Main "HOL-Library.Multiset"
    "HOL-Library.Char_ord" "HOL-Library.List_Lexorder"
begin

chapter \<open>The embedding\<close>

section \<open>Go library functions used by the modelled code\<close>

text \<open>
  Go strings are byte sequences; they are modelled as \<open>string\<close> (a list of 8-bit
  characters).  An \<open>error\<close> is modelled by its message; a Go result \<open>(v, err)\<close> is a sum
  with the error on the left, and a result that is only an \<open>error\<close> is an option
  (\<open>None\<close> for \<open>nil\<close>).
\<close>

type_synonym error = string

definition strings_HasPrefix :: "string \<Rightarrow> string \<Rightarrow> bool" where
  "strings_HasPrefix s p = (take (length p) s = p)"

fun strings_Contains :: "string \<Rightarrow> string \<Rightarrow> bool" where
  "strings_Contains [] sub = (sub = [])"
| "strings_Contains (c # cs) sub = (strings_HasPrefix (c # cs) sub \<or> strings_Contains cs sub)"

text \<open>\<open>strings.Split(s, sep)\<close> for a separator of one byte (the only use is \<open>"/"\<close>).\<close>

fun strings_Split :: "string \<Rightarrow> char \<Rightarrow> string list" where
  "strings_Split [] sep = [[]]"
| "strings_Split (c # cs) sep =
     (if c = sep then [] # strings_Split cs sep
      else (case strings_Split cs sep of
              [] \<Rightarrow> [[c]]
            | seg # segs \<Rightarrow> (c # seg) # segs))"

text \<open>\<open>fmt.Sprintf("%d", n)\<close>: the decimal digits of an integer.\<close>

definition digitChar :: "nat \<Rightarrow> char" where
  "digitChar d = char_of (48 + d)"

fun digitsOf :: "nat \<Rightarrow> string" where
  "digitsOf n = (if n < 10 then [digitChar n] else digitsOf (n div 10) @ [digitChar (n mod 10)])"

declare digitsOf.simps [simp del]

definition fmt_d :: "int \<Rightarrow> string" where
  "fmt_d n = (if n < 0 then CHR ''-'' # digitsOf (nat (- n)) else digitsOf (nat n))"

text \<open>
  \<open>filepath.Join\<close>: the non-empty elements joined by a slash.  The lexical cleaning that
  \<open>filepath.Join\<close> applies to the result is not modelled; it is the identity on the
  paths built below from an absolute base directory and an instance identifier.
\<close>

fun joinSlash :: "string list \<Rightarrow> string" where
  "joinSlash [] = []"
| "joinSlash [p] = p"
| "joinSlash (p # q # ps) = p @ ''/'' @ joinSlash (q # ps)"

definition filepath_Join :: "string list \<Rightarrow> string" where
  "filepath_Join elems = joinSlash (filter (\<lambda>e. e \<noteq> []) elems)"

text \<open>A 64-bit signed integer holds the value of an arithmetic result modulo \<open>2^64\<close>.\<close>

definition int64 :: "int \<Rightarrow> int" where
  "int64 x = (x + 2 ^ 63) mod 2 ^ 64 - 2 ^ 63"

section \<open>Floating point\<close>

text \<open>
  A finite \<open>float64\<close> is the rational number it denotes.  \<open>roundFloat64\<close> is the
  rounding of IEEE 754 binary64 (53 significant bits, exponents down to the subnormal
  quantum \<open>2^-1074\<close>, ties to even): the nearest \<open>float64\<close> to a rational, or \<open>None\<close>
  when the rounded magnitude reaches \<open>2^1024\<close> (the result is an infinity).
\<close>

type_synonym float64 = rat

definition pow2 :: "int \<Rightarrow> rat" where
  "pow2 e = (if 0 \<le> e then 2 ^ nat e else 1 / 2 ^ nat (- e))"

fun bitLength :: "nat \<Rightarrow> nat" where
  "bitLength n = (if n = 0 then 0 else Suc (bitLength (n div 2)))"

declare bitLength.simps [simp del]

text \<open>\<open>binaryExponent x\<close> is the integer \<open>e\<close> with \<open>2^e \<le> x < 2^(e+1)\<close>, for \<open>x > 0\<close>.\<close>

definition binaryExponent :: "rat \<Rightarrow> int" where
  "binaryExponent x =
     (case quotient_of x of
        (a, b) \<Rightarrow>
          let e = int (bitLength (nat a)) - int (bitLength (nat b))
          in if pow2 e \<le> x then e else e - 1)"

definition roundHalfEven :: "rat \<Rightarrow> int" where
  "roundHalfEven x =
     (let f = \<lfloor>x\<rfloor>; d = x - of_int f
      in if d < 1 / 2 then f
         else if 1 / 2 < d then f + 1
         else if even f then f else f + 1)"

definition roundFloat64 :: "rat \<Rightarrow> float64 option" where
  "roundFloat64 x =
     (if x = 0 then Some 0
      else let quantum = pow2 (max (binaryExponent \<bar>x\<bar> - 52) (- 1074));
               r = of_int (roundHalfEven (\<bar>x\<bar> / quantum)) * quantum
           in if pow2 1024 \<le> r then None else Some (sgn x * r))"

text \<open>The product of two \<open>float64\<close> values; \<open>None\<close> is an infinity.\<close>

definition float64_mul :: "float64 \<Rightarrow> float64 \<Rightarrow> float64 option" where
  "float64_mul x y = roundFloat64 (x * y)"

text \<open>
  The conversion \<open>int64(f)\<close> truncates towards zero.  When the value does not fit (or is
  an infinity) the Go specification leaves the result to the implementation;
  \<open>outOfRange\<close> is the value the platform gives (\<open>-2^63\<close> on amd64).
\<close>

definition float64_trunc :: "rat \<Rightarrow> int" where
  "float64_trunc x = (if 0 \<le> x then \<lfloor>x\<rfloor> else - \<lfloor>- x\<rfloor>)"

definition int64_of_float64 :: "int \<Rightarrow> float64 option \<Rightarrow> int" where
  "int64_of_float64 outOfRange f =
     (case f of
        None \<Rightarrow> outOfRange
      | Some x \<Rightarrow> if - (2 ^ 63) \<le> float64_trunc x \<and> float64_trunc x < 2 ^ 63 then float64_trunc x
                  else outOfRange)"

definition amd64OutOfRange :: int where
  "amd64OutOfRange = - (2 ^ 63)"

text \<open>
  \<open>strconv.ParseFloat(s, 64)\<close> on the strings the code passes to it, which consist of
  decimal digits and dots: the string must have at most one dot and at least one digit;
  its value is rounded to the nearest \<open>float64\<close>; a value that rounds to an infinity is
  an error.  \<open>None\<close> is the error.
\<close>

definition isDigit :: "char \<Rightarrow> bool" where
  "isDigit c = (CHR ''0'' \<le> c \<and> c \<le> CHR ''9'')"

definition digitsValue :: "string \<Rightarrow> nat" where
  "digitsValue ds = foldl (\<lambda>acc c. 10 * acc + (of_char c - 48)) 0 ds"

definition decimalValue :: "string \<Rightarrow> rat option" where
  "decimalValue s =
     (let intDigits = takeWhile isDigit s; rest = dropWhile isDigit s
      in case rest of
           [] \<Rightarrow> if intDigits = [] then None else Some (of_nat (digitsValue intDigits))
         | c # fracDigits \<Rightarrow>
             if c = CHR ''.'' \<and> list_all isDigit fracDigits \<and> (intDigits \<noteq> [] \<or> fracDigits \<noteq> [])
             then Some (of_nat (digitsValue (intDigits @ fracDigits)) / 10 ^ length fracDigits)
             else None)"

definition strconv_ParseFloat :: "string \<Rightarrow> float64 option" where
  "strconv_ParseFloat s = (case decimalValue s of None \<Rightarrow> None | Some q \<Rightarrow> roundFloat64 q)"

text \<open>
  \<open>fmt.Sprintf("%.2f", x)\<close>: the exact value rounded to two decimals; a value half-way
  between two of them (such as \<open>0.125\<close>) goes to the one with the even last digit.
\<close>

definition fmt_2f :: "float64 \<Rightarrow> string" where
  "fmt_2f x =
     (let h = roundHalfEven (\<bar>x\<bar> * 100)
      in (if x < 0 then ''-'' else []) @ fmt_d (h div 100) @ ''.''
         @ [digitChar (nat (h mod 100 div 10)), digitChar (nat (h mod 10))])"

section \<open>White space and letters\<close>

text \<open>
  \<open>strings.TrimSpace\<close> removes the leading and trailing white-space runes of Unicode.  On
  the UTF-8 bytes of the string these are the six ASCII characters below and the
  encodings of U+0085, U+00A0, U+1680, U+2000 to U+200A, U+2028, U+2029, U+202F, U+205F
  and U+3000.  \<open>spaceWidth s\<close> is the number of bytes of the white-space rune at the head
  of \<open>s\<close>, or 0.
\<close>

definition asciiSpace :: "char \<Rightarrow> bool" where
  "asciiSpace c = (c = CHR 0x09 \<or> c = CHR 0x0A \<or> c = CHR 0x0B \<or> c = CHR 0x0C \<or> c = CHR 0x0D
                   \<or> c = CHR '' '')"

definition unicodeSpaces :: "string list" where
  "unicodeSpaces =
     [[CHR 0xC2, CHR 0x85], [CHR 0xC2, CHR 0xA0], [CHR 0xE1, CHR 0x9A, CHR 0x80],
      [CHR 0xE2, CHR 0x80, CHR 0x80], [CHR 0xE2, CHR 0x80, CHR 0x81], [CHR 0xE2, CHR 0x80, CHR 0x82],
      [CHR 0xE2, CHR 0x80, CHR 0x83], [CHR 0xE2, CHR 0x80, CHR 0x84], [CHR 0xE2, CHR 0x80, CHR 0x85],
      [CHR 0xE2, CHR 0x80, CHR 0x86], [CHR 0xE2, CHR 0x80, CHR 0x87], [CHR 0xE2, CHR 0x80, CHR 0x88],
      [CHR 0xE2, CHR 0x80, CHR 0x89], [CHR 0xE2, CHR 0x80, CHR 0x8A], [CHR 0xE2, CHR 0x80, CHR 0xA8],
      [CHR 0xE2, CHR 0x80, CHR 0xA9], [CHR 0xE2, CHR 0x80, CHR 0xAF], [CHR 0xE2, CHR 0x81, CHR 0x9F],
      [CHR 0xE3, CHR 0x80, CHR 0x80]]"

definition spaceWidth :: "string \<Rightarrow> nat" where
  "spaceWidth s =
     (case s of
        [] \<Rightarrow> 0
      | c # cs \<Rightarrow>
          if asciiSpace c then 1
          else (case filter (\<lambda>u. strings_HasPrefix s u) unicodeSpaces of
                  [] \<Rightarrow> 0
                | u # us \<Rightarrow> length u))"

text \<open>The same at the end of the string: the bytes of the last rune, when it is white space.\<close>

definition spaceWidthRight :: "string \<Rightarrow> nat" where
  "spaceWidthRight s =
     (case rev s of
        [] \<Rightarrow> 0
      | c # cs \<Rightarrow>
          if asciiSpace c then 1
          else (case filter (\<lambda>u. strings_HasPrefix (rev s) (rev u)) unicodeSpaces of
                  [] \<Rightarrow> 0
                | u # us \<Rightarrow> length u))"

function trimLeft :: "string \<Rightarrow> string" where
  "trimLeft s = (if spaceWidth s = 0 then s else trimLeft (drop (spaceWidth s) s))"
  by pat_completeness auto
termination
  by (relation "measure length") (auto simp: spaceWidth_def split: list.splits)

declare trimLeft.simps [simp del]

function trimRight :: "string \<Rightarrow> string" where
  "trimRight s =
     (if spaceWidthRight s = 0 then s else trimRight (take (length s - spaceWidthRight s) s))"
  by pat_completeness auto
termination
  by (relation "measure length") (auto simp: spaceWidthRight_def split: list.splits)

declare trimRight.simps [simp del]

definition strings_TrimSpace :: "string \<Rightarrow> string" where
  "strings_TrimSpace s = trimRight (trimLeft s)"

text \<open>\<open>strings.ToLower\<close>, on the ASCII letters the code applies it to.\<close>

definition isUpper :: "char \<Rightarrow> bool" where
  "isUpper c = (CHR ''A'' \<le> c \<and> c \<le> CHR ''Z'')"

definition isLower :: "char \<Rightarrow> bool" where
  "isLower c = (CHR ''a'' \<le> c \<and> c \<le> CHR ''z'')"

definition strings_ToLower :: "string \<Rightarrow> string" where
  "strings_ToLower s = map (\<lambda>c. if isUpper c then char_of (of_char c + (32::nat)) else c) s"

section \<open>Data model (package storage, package runtime/types)\<close>

text \<open>
  \<open>storage.DatabaseInstance\<close>.  Isabelle record fields are global names, so this record
  keeps the Go field names and the fields of the other structs carry a prefix.  An
  \<open>int64\<close> or \<open>int\<close> field is an \<open>int\<close>, a \<open>float64\<close> field holds a finite value and is
  a \<open>rat\<close>, a \<open>time.Time\<close> is the instant in nanoseconds.
\<close>

record DatabaseInstance =
  ID :: string
  Name :: string
  Engine :: string
  Version :: string
  Status :: string
  Host :: string
  Port :: int
  Username :: string
  Password :: string
  Database :: string
  ContainerID :: string
  CreatedAt :: int
  StorageUsed :: int
  StorageLimit :: int
  MemoryLimit :: int
  CPULimit :: rat
  Connections :: int
  MaxConnections :: int
  ErrorMessage :: string
  ExposePort :: bool
  Network :: string
  BackupEnabled :: bool
  BackupSchedule :: string
  BackupRetentionCount :: int
  LastBackupAt :: "int option"

text \<open>\<open>storage.Backup\<close>.\<close>

record Backup =
  backupID :: string
  backupDatabaseID :: string
  backupDatabaseName :: string
  backupCreatedAt :: int
  backupSize :: int
  backupStatus :: string
  backupFilePath :: string

text \<open>
  \<open>types.ContainerConfig\<close>.  Its three Go maps are finite maps.  A \<open>range\<close> statement
  over a Go map visits every entry once, in an order that the language leaves
  unspecified and that differs from one execution to the next: \<open>rangeOf m xs\<close> says that
  \<open>xs\<close> is such a sequence of visits of the map \<open>m\<close>.
\<close>

record ContainerConfig =
  cfgName :: string
  cfgImage :: string
  cfgCmd :: "string list"
  cfgEnv :: "string list"
  cfgPortBindings :: "string \<rightharpoonup> string"
  cfgVolumes :: "string \<rightharpoonup> string"
  cfgMemoryLimit :: int
  cfgCPULimit :: rat
  cfgLabels :: "string \<rightharpoonup> string"
  cfgNetwork :: string
  cfgExposePort :: bool

definition rangeOf :: "('k \<rightharpoonup> 'v) \<Rightarrow> ('k \<times> 'v) list \<Rightarrow> bool" where
  "rangeOf m xs = (distinct (map fst xs) \<and> map_of xs = m)"

text \<open>\<open>database.CreateRequest\<close>; \<open>ExposePort\<close> is a \<open>*bool\<close>.\<close>

record CreateRequest =
  reqName :: string
  reqEngine :: string
  reqVersion :: string
  reqUsername :: string
  reqPassword :: string
  reqDatabase :: string
  reqPort :: int
  reqStorageLimit :: int
  reqMemoryLimit :: int
  reqNetwork :: string
  reqExposePort :: "bool option"
  reqRestoreFromBackupID :: string
  reqSeedSource :: string
  reqSeedContent :: string

section \<open>Persistence (package storage, the BoltDB store)\<close>

text \<open>
  A bucket maps keys to values and is iterated in the byte order of its keys; it is a
  list of pairs kept in that order.  Serialisation and the failures of the disk are not
  modelled: \<open>Put\<close> always succeeds, and an update or a delete fails exactly when the key
  is absent, as the code tests.
\<close>

type_synonym 'v bucket = "(string \<times> 'v) list"

fun bucket_Put :: "string \<Rightarrow> 'v \<Rightarrow> 'v bucket \<Rightarrow> 'v bucket" where
  "bucket_Put k v [] = [(k, v)]"
| "bucket_Put k v ((k', v') # kvs) =
     (if k = k' then (k, v) # kvs
      else if k < k' then (k, v) # (k', v') # kvs
      else (k', v') # bucket_Put k v kvs)"

definition bucket_Get :: "'v bucket \<Rightarrow> string \<Rightarrow> 'v option" where
  "bucket_Get b k = map_of b k"

definition bucket_Delete :: "string \<Rightarrow> 'v bucket \<Rightarrow> 'v bucket" where
  "bucket_Delete k b = filter (\<lambda>kv. fst kv \<noteq> k) b"

record Storage =
  databasesBucket :: "DatabaseInstance bucket"
  backupsBucket :: "Backup bucket"
  storeDataDir :: string

definition DataDir :: "Storage \<Rightarrow> string" where
  "DataDir s = storeDataDir s"

definition CreateDatabase :: "Storage \<Rightarrow> DatabaseInstance \<Rightarrow> error option \<times> Storage" where
  "CreateDatabase s db = (None, s\<lparr>databasesBucket := bucket_Put (ID db) db (databasesBucket s)\<rparr>)"

definition GetDatabase :: "Storage \<Rightarrow> string \<Rightarrow> error + DatabaseInstance" where
  "GetDatabase s id' =
     (case bucket_Get (databasesBucket s) id' of
        None \<Rightarrow> Inl (''database not found: '' @ id')
      | Some db \<Rightarrow> Inr db)"

definition ListDatabases :: "Storage \<Rightarrow> DatabaseInstance list" where
  "ListDatabases s = map snd (databasesBucket s)"

definition UpdateDatabase :: "Storage \<Rightarrow> DatabaseInstance \<Rightarrow> error option \<times> Storage" where
  "UpdateDatabase s db =
     (if bucket_Get (databasesBucket s) (ID db) = None
      then (Some (''database not found: '' @ ID db), s)
      else (None, s\<lparr>databasesBucket := bucket_Put (ID db) db (databasesBucket s)\<rparr>))"

definition DeleteDatabase :: "Storage \<Rightarrow> string \<Rightarrow> error option \<times> Storage" where
  "DeleteDatabase s id' =
     (if bucket_Get (databasesBucket s) id' = None
      then (Some (''database not found: '' @ id'), s)
      else (None, s\<lparr>databasesBucket := bucket_Delete id' (databasesBucket s)\<rparr>))"

definition CreateBackup :: "Storage \<Rightarrow> Backup \<Rightarrow> error option \<times> Storage" where
  "CreateBackup s b = (None, s\<lparr>backupsBucket := bucket_Put (backupID b) b (backupsBucket s)\<rparr>)"

definition ListBackups :: "Storage \<Rightarrow> string \<Rightarrow> Backup list" where
  "ListBackups s databaseID =
     map snd (filter (\<lambda>kv. databaseID = [] \<or> backupDatabaseID (snd kv) = databaseID)
       (backupsBucket s))"

definition DeleteBackup :: "Storage \<Rightarrow> string \<Rightarrow> error option \<times> Storage" where
  "DeleteBackup s id' =
     (if bucket_Get (backupsBucket s) id' = None
      then (Some (''backup not found: '' @ id'), s)
      else (None, s\<lparr>backupsBucket := bucket_Delete id' (backupsBucket s)\<rparr>))"

text \<open>
  The records of a store are well formed when every bucket is in key order without a
  repeated key and every record is stored under its own identifier.
\<close>

definition wfBucket :: "('v \<Rightarrow> string) \<Rightarrow> 'v bucket \<Rightarrow> bool" where
  "wfBucket key b = (sorted (map fst b) \<and> distinct (map fst b) \<and> list_all (\<lambda>kv. key (snd kv) = fst kv) b)"

definition wfStorage :: "Storage \<Rightarrow> bool" where
  "wfStorage s = (wfBucket ID (databasesBucket s) \<and> wfBucket backupID (backupsBucket s))"

section \<open>Runtime backends: the status query\<close>

text \<open>
  The daemon-based backend (package docker) reads the \<open>State\<close> of the inspected
  container: the flags below are the fields of the Docker SDK's \<open>ContainerState\<close> that
  \<open>GetContainerStatus\<close> tests.  \<open>ContainerInspect\<close> either returns the container or
  fails; \<open>InspectFailed nf err\<close> is a failure with \<open>client.IsErrNotFound(err) = nf\<close>.
\<close>

record ContainerState =
  stStatus :: string
  stRunning :: bool
  stPaused :: bool
  stRestarting :: bool
  stOOMKilled :: bool
  stDead :: bool

datatype InspectResult = Inspected ContainerState | InspectFailed bool error

definition docker_GetContainerStatus :: "(string \<Rightarrow> InspectResult) \<Rightarrow> string \<Rightarrow> error + string" where
  "docker_GetContainerStatus ContainerInspect containerID =
     (case ContainerInspect containerID of
        InspectFailed notFound err \<Rightarrow> (if notFound then Inr ''error'' else Inl err)
      | Inspected st \<Rightarrow>
          if stRunning st then Inr ''running''
          else if stPaused st then Inr ''stopped''
          else if stRestarting st then Inr ''creating''
          else if stDead st \<or> stOOMKilled st then Inr ''error''
          else Inr ''stopped'')"

text \<open>
  The daemonless backend (package containerd) loads the container, then its task, then
  the task's status; \<open>TaskView\<close> says which of the three calls failed first, or the
  \<open>ProcessStatus\<close> read.  \<open>ProcessStatus\<close> is a string type with the constants below.
\<close>

datatype TaskView =
  LoadContainerFailed error
| TaskFailed error
| StatusFailed error
| TaskStatus string

definition containerd_Running :: string where "containerd_Running = ''running''"
definition containerd_Created :: string where "containerd_Created = ''created''"
definition containerd_Stopped :: string where "containerd_Stopped = ''stopped''"
definition containerd_Paused :: string where "containerd_Paused = ''paused''"
definition containerd_Pausing :: string where "containerd_Pausing = ''pausing''"
definition containerd_Unknown :: string where "containerd_Unknown = ''unknown''"

definition containerd_GetContainerStatus :: "(string \<Rightarrow> TaskView) \<Rightarrow> string \<Rightarrow> error + string" where
  "containerd_GetContainerStatus view containerID =
     (case view containerID of
        LoadContainerFailed err \<Rightarrow> Inr ''error''
      | TaskFailed err \<Rightarrow> Inr ''stopped''
      | StatusFailed err \<Rightarrow> Inr ''error''
      | TaskStatus status \<Rightarrow>
          if status = containerd_Running then Inr ''running''
          else if status = containerd_Created \<or> status = containerd_Pausing then Inr ''creating''
          else if status = containerd_Stopped \<or> status = containerd_Paused then Inr ''stopped''
          else Inr ''error'')"

text \<open>
  The CLI backend runs \<open>inspect --format {{.State.Status}}\<close>; \<open>runCommand\<close> is the
  subprocess: the trimmed standard output, or the error with its message.
\<close>

definition cli_GetContainerStatus :: "(string list \<Rightarrow> error + string) \<Rightarrow> string \<Rightarrow> error + string" where
  "cli_GetContainerStatus runCommand containerID =
     (case runCommand [''inspect'', ''--format'', ''{{.State.Status}}'', containerID] of
        Inl err \<Rightarrow> (if strings_Contains err ''No such'' then Inr ''error'' else Inl err)
      | Inr output \<Rightarrow>
          if output = ''running'' then Inr ''running''
          else if output = ''paused'' \<or> output = ''exited'' \<or> output = ''dead'' then Inr ''stopped''
          else if output = ''restarting'' \<or> output = ''created'' then Inr ''creating''
          else Inr ''error'')"

text \<open>The canonical statuses of the specification.\<close>

definition canonicalStatuses :: "string set" where
  "canonicalStatuses = {''running'', ''stopped'', ''creating'', ''error''}"

text \<open>A dead container as the Docker daemon reports it: only the flag \<open>Dead\<close> is set.\<close>

definition deadState :: ContainerState where
  "deadState = \<lparr>stStatus = ''dead'', stRunning = False, stPaused = False,
     stRestarting = False, stOOMKilled = False, stDead = True\<rparr>"

definition inspectDead :: "string \<Rightarrow> InspectResult" where
  "inspectDead containerID = Inspected deadState"

section \<open>The runtime client interface and the engines\<close>

text \<open>
  \<open>types.Client\<close>: the manager calls the runtime only through this interface.  A client
  is the record of the answers of its methods, and every manager operation returns the
  list of the calls it made, in order.  The operating system is used through the
  functions of \<open>OS\<close>: \<open>filepath.Abs\<close>, \<open>os.MkdirAll\<close>, \<open>os.RemoveAll\<close> and
  \<open>net.Listen("tcp", addr)\<close>.
\<close>

record Client =
  PullImage :: "string \<Rightarrow> error option"
  CreateContainer :: "ContainerConfig \<Rightarrow> error + string"
  StartContainer :: "string \<Rightarrow> error option"
  StopContainer :: "string \<Rightarrow> error option"
  RemoveContainer :: "string \<Rightarrow> bool \<Rightarrow> error option"
  GetContainerStatus :: "string \<Rightarrow> error + string"
  UpdateContainerResources :: "string \<Rightarrow> int \<Rightarrow> rat \<Rightarrow> error option"
  DeleteVolume :: "string \<Rightarrow> error option"

datatype call =
  CallPullImage string
| CallCreateContainer ContainerConfig
| CallStartContainer string
| CallStopContainer string
| CallRemoveContainer string bool
| CallGetContainerStatus string
| CallUpdateContainerResources string int rat
| CallDeleteVolume string
| CallMkdirAll string
| CallRemoveAll string

record OS =
  filepath_Abs :: "string \<Rightarrow> error + string"
  os_MkdirAll :: "string \<Rightarrow> error option"
  os_RemoveAll :: "string \<Rightarrow> error option"
  net_Listen :: "string \<Rightarrow> error option"

text \<open>The four engines registered by the \<open>init\<close> functions of package database.\<close>

datatype Engine = MariaDBEngine | PostgreSQLEngine | MySQLEngine | RedisEngine

fun Type :: "Engine \<Rightarrow> string" where
  "Type MariaDBEngine = ''mariadb''"
| "Type PostgreSQLEngine = ''postgresql''"
| "Type MySQLEngine = ''mysql''"
| "Type RedisEngine = ''redis''"

fun Image :: "Engine \<Rightarrow> string" where
  "Image MariaDBEngine = ''mariadb''"
| "Image PostgreSQLEngine = ''postgres''"
| "Image MySQLEngine = ''mysql''"
| "Image RedisEngine = ''redis''"

fun DefaultPort :: "Engine \<Rightarrow> int" where
  "DefaultPort MariaDBEngine = 3306"
| "DefaultPort PostgreSQLEngine = 5432"
| "DefaultPort MySQLEngine = 3306"
| "DefaultPort RedisEngine = 6379"

fun DataPath :: "Engine \<Rightarrow> string" where
  "DataPath MariaDBEngine = ''/var/lib/mysql''"
| "DataPath PostgreSQLEngine = ''/var/lib/postgresql/data''"
| "DataPath MySQLEngine = ''/var/lib/mysql''"
| "DataPath RedisEngine = ''/data''"

fun EnvVars :: "Engine \<Rightarrow> string \<Rightarrow> string \<Rightarrow> string \<Rightarrow> string list" where
  "EnvVars MariaDBEngine username password database =
     [''MARIADB_ROOT_PASSWORD='' @ password, ''MARIADB_DATABASE='' @ database,
      ''MARIADB_USER='' @ username, ''MARIADB_PASSWORD='' @ password]"
| "EnvVars PostgreSQLEngine username password database =
     [''POSTGRES_USER='' @ username, ''POSTGRES_PASSWORD='' @ password,
      ''POSTGRES_DB='' @ database]"
| "EnvVars MySQLEngine username password database =
     [''MYSQL_ROOT_PASSWORD='' @ password, ''MYSQL_DATABASE='' @ database,
      ''MYSQL_USER='' @ username, ''MYSQL_PASSWORD='' @ password]"
| "EnvVars RedisEngine username password database = []"

fun ContainerCmd :: "Engine \<Rightarrow> string \<Rightarrow> string list" where
  "ContainerCmd RedisEngine password =
     (if password \<noteq> [] then [''redis-server'', ''--requirepass'', password] else [])"
| "ContainerCmd e password = []"

definition engines :: "(string \<times> Engine) list" where
  "engines = map (\<lambda>e. (Type e, e)) [MariaDBEngine, PostgreSQLEngine, MySQLEngine, RedisEngine]"

definition GetEngine :: "string \<Rightarrow> error + Engine" where
  "GetEngine engineType =
     (case map_of engines engineType of
        None \<Rightarrow> Inl (''unknown engine type: '' @ engineType)
      | Some engine \<Rightarrow> Inr engine)"

section \<open>The manager (package database)\<close>

subsection \<open>Port allocation\<close>

text \<open>
  \<open>usedPorts\<close> is the \<open>map[int]bool\<close> that \<open>findAvailablePortLocked\<close> fills from the
  store; reading a missing key gives \<open>false\<close>.
\<close>

definition usedPorts :: "Storage \<Rightarrow> int \<Rightarrow> bool" where
  "usedPorts s = foldl (\<lambda>m db. m(Port db := True)) (\<lambda>port. False) (ListDatabases s)"

definition isPortAvailable :: "OS \<Rightarrow> int \<Rightarrow> bool" where
  "isPortAvailable os port = (net_Listen os ('':'' @ fmt_d port) = None)"

text \<open>
  The loop of \<open>findAvailablePortLocked\<close>.  The argument \<open>n\<close> is the number of
  iterations left (\<open>maxAttempts - i\<close>), \<open>port\<close> the candidate at the head of the loop.
\<close>

fun portLoop :: "(int \<Rightarrow> bool) \<Rightarrow> OS \<Rightarrow> int \<Rightarrow> nat \<Rightarrow> int \<Rightarrow> int" where
  "portLoop used os startPort 0 port = port"
| "portLoop used os startPort (Suc n) port =
     (if used port then portLoop used os startPort n (port + 1)
      else if isPortAvailable os port then port
      else portLoop used os startPort n (if port + 1 > 65535 then startPort else port + 1))"

definition maxAttempts :: nat where
  "maxAttempts = 1000"

definition findAvailablePortLocked :: "Storage \<Rightarrow> OS \<Rightarrow> int \<Rightarrow> int" where
  "findAvailablePortLocked s os startPort = portLoop (usedPorts s) os startPort maxAttempts startPort"

text \<open>
  The ports the loop examines, in order: the value of \<open>port\<close> at the head of every
  iteration that runs.  This function observes the loop; the code does not compute it.
\<close>

fun probedPorts :: "(int \<Rightarrow> bool) \<Rightarrow> OS \<Rightarrow> int \<Rightarrow> nat \<Rightarrow> int \<Rightarrow> int list" where
  "probedPorts used os startPort 0 port = []"
| "probedPorts used os startPort (Suc n) port =
     port #
     (if used port then probedPorts used os startPort n (port + 1)
      else if isPortAvailable os port then []
      else probedPorts used os startPort n (if port + 1 > 65535 then startPort else port + 1))"

text \<open>An operating system on which no port can be bound.\<close>

definition noPortOS :: OS where
  "noPortOS = \<lparr>filepath_Abs = (\<lambda>p. Inr p), os_MkdirAll = (\<lambda>p. None),
     os_RemoveAll = (\<lambda>p. None), net_Listen = (\<lambda>addr. Some ''address already in use'')\<rparr>"

subsection \<open>Create and the provisioning goroutine\<close>

text \<open>
  \<open>createDedicatedDatabase\<close> allocates the record (\<open>db := &storage.DatabaseInstance{...}\<close>)
  and gives the same pointer to its caller and to the goroutine it starts.  The objects
  live in a heap; a pointer is the index of its object, and reading through a pointer
  that the heap does not hold is the nil dereference.  The store keeps serialised
  copies, not pointers.
\<close>

type_synonym ref = nat

type_synonym heap = "DatabaseInstance list"

definition new :: "heap \<Rightarrow> DatabaseInstance \<Rightarrow> ref \<times> heap" where
  "new h db = (length h, h @ [db])"

definition deref :: "heap \<Rightarrow> ref \<Rightarrow> DatabaseInstance option" where
  "deref h r = (if r < length h then Some (h ! r) else None)"

definition assign :: "heap \<Rightarrow> ref \<Rightarrow> DatabaseInstance \<Rightarrow> heap" where
  "assign h r db = h[r := db]"

text \<open>The arguments of the goroutine that \<open>createDedicatedDatabase\<close> starts.\<close>

record Provision =
  provDb :: ref
  provImageName :: string
  provDataDir :: string
  provPort :: int
  provEngine :: Engine
  provSeedSource :: string
  provSeedContent :: string

text \<open>
  \<open>createDedicatedDatabase\<close>.  \<open>uuid\<close> is the string of the fresh UUID and \<open>now\<close> the
  clock.  The result is the error, or the pointer returned to the caller with the
  arguments of the goroutine started (which hold the same pointer); then the heap, the
  store and the calls made.  The port lock is not modelled (one call runs at a time).
\<close>

definition createDedicatedDatabase ::
  "OS \<Rightarrow> heap \<Rightarrow> Storage \<Rightarrow> string \<Rightarrow> int \<Rightarrow> CreateRequest
    \<Rightarrow> (error + ref \<times> Provision) \<times> heap \<times> Storage \<times> call list" where
  "createDedicatedDatabase os h s uuid now req =
     (case GetEngine (reqEngine req) of
        Inl err \<Rightarrow> (Inl (''unsupported engine: '' @ reqEngine req), h, s, [])
      | Inr engine \<Rightarrow>
         (let id' = ''db-'' @ take 8 uuid;
              port = (if reqPort req = 0 then findAvailablePortLocked s os (DefaultPort engine)
                      else reqPort req)
          in (case filepath_Abs os (DataDir s) of
                Inl err \<Rightarrow> (Inl (''failed to resolve data directory: '' @ err), h, s, [])
              | Inr baseDataDir \<Rightarrow>
                 (let dataDir = filepath_Join [baseDataDir, ''databases'', id']
                  in (case os_MkdirAll os dataDir of
                        Some err \<Rightarrow>
                          (Inl (''failed to create data directory: '' @ err), h, s,
                           [CallMkdirAll dataDir])
                      | None \<Rightarrow>
                         (let imageName = (if reqVersion req \<noteq> []
                                           then Image engine @ '':'' @ reqVersion req
                                           else Image engine);
                              fresh =
                                   \<lparr>ID = id', Name = reqName req, Engine = reqEngine req,
                                    Version = reqVersion req, Status = ''creating'',
                                    Host = ''localhost'', Port = port,
                                    Username = reqUsername req, Password = reqPassword req,
                                    Database = reqDatabase req, ContainerID = [],
                                    CreatedAt = now, StorageUsed = 0,
                                    StorageLimit = int64 (int64 (reqStorageLimit req * 1024) * 1024),
                                    MemoryLimit = int64 (int64 (reqMemoryLimit req * 1024) * 1024),
                                    CPULimit = 1, Connections = 0, MaxConnections = 100,
                                    ErrorMessage = [],
                                    ExposePort = (case reqExposePort req of None \<Rightarrow> True | Some b \<Rightarrow> b),
                                    Network = reqNetwork req, BackupEnabled = False,
                                    BackupSchedule = [], BackupRetentionCount = 0,
                                    LastBackupAt = None\<rparr>;
                              (db, h') = new h fresh
                          in (case CreateDatabase s fresh of
                                (Some err, s') \<Rightarrow>
                                  (Inl (''failed to save database: '' @ err), h', s',
                                   [CallMkdirAll dataDir])
                              | (None, s') \<Rightarrow>
                                  (Inr (db, \<lparr>provDb = db, provImageName = imageName,
                                             provDataDir = dataDir, provPort = port,
                                             provEngine = engine,
                                             provSeedSource = reqSeedSource req,
                                             provSeedContent = reqSeedContent req\<rparr>),
                                   h', s', [CallMkdirAll dataDir]))))))))"

text \<open>\<open>Create\<close>: a missing password is the first 16 bytes of a second UUID.\<close>

definition Create ::
  "OS \<Rightarrow> heap \<Rightarrow> Storage \<Rightarrow> string \<Rightarrow> string \<Rightarrow> int \<Rightarrow> CreateRequest
    \<Rightarrow> (error + ref \<times> Provision) \<times> heap \<times> Storage \<times> call list" where
  "Create os h s uuidPassword uuid now req =
     createDedicatedDatabase os h s uuid now
       (if reqPassword req = [] then req\<lparr>reqPassword := take 16 uuidPassword\<rparr> else req)"

text \<open>
  \<open>provisionDedicatedDatabase\<close>, the goroutine.  It writes the fields of the object
  through the pointer it was given, and passes the object to \<open>UpdateDatabase\<close>, which
  stores a copy.  It ends by returning, by returning after it has started the seeding
  goroutine, or by a run-time panic: of the slice expression \<open>containerID[:12]\<close> in the
  log statement when the identifier has fewer than 12 bytes, or of the first read
  through a nil pointer.  The result holds the heap, the store and the calls made.  The
  results of \<open>UpdateDatabase\<close> are dropped, as in the code.
\<close>

datatype goroutineEnd = Returned | ReturnedSeeding | Panicked

record ProvisionResult =
  prEnd :: goroutineEnd
  prHeap :: heap
  prStore :: Storage
  prCalls :: "call list"

definition containerConfigFor :: "DatabaseInstance \<Rightarrow> string \<Rightarrow> int \<Rightarrow> Engine \<Rightarrow> ContainerConfig" where
  "containerConfigFor db imageName port engine =
     \<lparr>cfgName = ''dbnest-'' @ ID db,
      cfgImage = imageName,
      cfgCmd = ContainerCmd engine (Password db),
      cfgEnv = EnvVars engine (Username db) (Password db) (Database db),
      cfgPortBindings = [fmt_d (DefaultPort engine) @ ''/tcp'' \<mapsto> fmt_d port],
      cfgVolumes = [''dbnest-vol-'' @ ID db \<mapsto> DataPath engine],
      cfgMemoryLimit = MemoryLimit db,
      cfgCPULimit = CPULimit db,
      cfgLabels = [''dbnest.managed'' \<mapsto> ''true'', ''dbnest.id'' \<mapsto> ID db],
      cfgNetwork = Network db,
      cfgExposePort = ExposePort db\<rparr>"

definition provisionDedicatedDatabase :: "Client \<Rightarrow> heap \<Rightarrow> Storage \<Rightarrow> Provision \<Rightarrow> ProvisionResult" where
  "provisionDedicatedDatabase c h s p =
     (case deref h (provDb p) of
        None \<Rightarrow> \<lparr>prEnd = Panicked, prHeap = h, prStore = s, prCalls = []\<rparr>
      | Some db \<Rightarrow>
     (let imageName = provImageName p
      in (case PullImage c imageName of
            Some err \<Rightarrow>
              (let db1 = db\<lparr>Status := ''error'', ErrorMessage := ''Failed to pull image: '' @ err\<rparr>
               in \<lparr>prEnd = Returned, prHeap = assign h (provDb p) db1,
                   prStore = snd (UpdateDatabase s db1),
                   prCalls = [CallPullImage imageName]\<rparr>)
          | None \<Rightarrow>
             (let containerCfg = containerConfigFor db imageName (provPort p) (provEngine p)
              in (case CreateContainer c containerCfg of
                    Inl err \<Rightarrow>
                      (let db1 = db\<lparr>Status := ''error'',
                                     ErrorMessage := ''Failed to create container: '' @ err\<rparr>
                       in \<lparr>prEnd = Returned, prHeap = assign h (provDb p) db1,
                           prStore = snd (UpdateDatabase s db1),
                           prCalls = [CallPullImage imageName, CallCreateContainer containerCfg]\<rparr>)
                  | Inr containerID \<Rightarrow>
                     (let db1 = db\<lparr>ContainerID := containerID\<rparr>
                      in if length containerID < 12
                         then \<lparr>prEnd = Panicked, prHeap = assign h (provDb p) db1, prStore = s,
                               prCalls = [CallPullImage imageName, CallCreateContainer containerCfg]\<rparr>
                         else (case StartContainer c containerID of
                                 Some err \<Rightarrow>
                                   (let db2 = db1\<lparr>Status := ''error'',
                                        ErrorMessage := ''Failed to start container: '' @ err\<rparr>
                                    in \<lparr>prEnd = Returned, prHeap = assign h (provDb p) db2,
                                        prStore = snd (UpdateDatabase s db2),
                                        prCalls = [CallPullImage imageName,
                                                   CallCreateContainer containerCfg,
                                                   CallStartContainer containerID]\<rparr>)
                               | None \<Rightarrow>
                                   (let db2 = db1\<lparr>Status := ''running'', ErrorMessage := []\<rparr>
                                    in \<lparr>prEnd = (if provSeedSource p \<noteq> [] \<and> provSeedSource p \<noteq> ''none''
                                                 then ReturnedSeeding else Returned),
                                        prHeap = assign h (provDb p) db2,
                                        prStore = snd (UpdateDatabase s db2),
                                        prCalls = [CallPullImage imageName,
                                                   CallCreateContainer containerCfg,
                                                   CallStartContainer containerID]\<rparr>))))))))"

subsection \<open>Status reconciliation\<close>

text \<open>
  \<open>syncStatus\<close> returns the record as it leaves it, the store and the calls made.
  \<open>SyncAllStatuses\<close> runs it on every record listed when the pass starts.
\<close>

definition syncStatus :: "Client \<Rightarrow> Storage \<Rightarrow> DatabaseInstance \<Rightarrow> DatabaseInstance \<times> Storage \<times> call list" where
  "syncStatus c s db =
     (if ContainerID db = [] \<or> Status db = ''creating'' then (db, s, [])
      else case GetContainerStatus c (ContainerID db) of
             Inl err \<Rightarrow>
               (if Status db = ''running''
                then (let db1 = db\<lparr>Status := ''error'', ErrorMessage := ''Container not accessible''\<rparr>
                      in (db1, snd (UpdateDatabase s db1), [CallGetContainerStatus (ContainerID db)]))
                else (db, s, [CallGetContainerStatus (ContainerID db)]))
           | Inr actualStatus \<Rightarrow>
               (if actualStatus \<noteq> Status db
                then (let db1 = db\<lparr>Status := actualStatus\<rparr>;
                          db2 = (if actualStatus = ''running'' then db1\<lparr>ErrorMessage := []\<rparr> else db1)
                      in (db2, snd (UpdateDatabase s db2), [CallGetContainerStatus (ContainerID db)]))
                else (db, s, [CallGetContainerStatus (ContainerID db)])))"

fun syncEach :: "Client \<Rightarrow> DatabaseInstance list \<Rightarrow> Storage \<Rightarrow> Storage \<times> call list" where
  "syncEach c [] s = (s, [])"
| "syncEach c (db # dbs) s =
     (case syncStatus c s db of
        (db', s', calls) \<Rightarrow> (case syncEach c dbs s' of (s'', calls') \<Rightarrow> (s'', calls @ calls')))"

definition SyncAllStatuses :: "Client \<Rightarrow> Storage \<Rightarrow> Storage \<times> call list" where
  "SyncAllStatuses c s = syncEach c (ListDatabases s) s"

subsection \<open>Delete and UpdateResources\<close>

text \<open>
  \<open>Delete\<close> returns the error of the record deletion (or of the lookup), the store, the
  calls made and the warnings printed.
\<close>

definition Delete :: "Client \<Rightarrow> OS \<Rightarrow> Storage \<Rightarrow> string \<Rightarrow> error option \<times> Storage \<times> call list \<times> string list" where
  "Delete c os s id' =
     (case GetDatabase s id' of
        Inl err \<Rightarrow> (Some err, s, [], [])
      | Inr db \<Rightarrow>
          let (calls1, warn1) =
                (if ContainerID db \<noteq> []
                 then ([CallRemoveContainer (ContainerID db) True],
                       (case RemoveContainer c (ContainerID db) True of
                          Some err \<Rightarrow> [''Warning: failed to remove container: '' @ err @ [CHR 0x0A]]
                        | None \<Rightarrow> []))
                 else ([], []));
              volumeName = ''dbnest-vol-'' @ id';
              warn2 = (case DeleteVolume c volumeName of
                         Some err \<Rightarrow> [''Warning: failed to remove volume '' @ volumeName @ '': ''
                                       @ err @ [CHR 0x0A]]
                       | None \<Rightarrow> []);
              baseDataDir = (case filepath_Abs os (DataDir s) of Inl err \<Rightarrow> [] | Inr p \<Rightarrow> p);
              dataDir = filepath_Join [baseDataDir, ''databases'', id'];
              warn3 = (case os_RemoveAll os dataDir of
                         Some err \<Rightarrow> [''Warning: failed to remove data directory '' @ dataDir
                                       @ '': '' @ err @ [CHR 0x0A]]
                       | None \<Rightarrow> []);
              (res, s') = DeleteDatabase s id'
          in (res, s', calls1 @ [CallDeleteVolume volumeName, CallRemoveAll dataDir],
              warn1 @ warn2 @ warn3))"

definition UpdateResources ::
  "Client \<Rightarrow> Storage \<Rightarrow> string \<Rightarrow> int \<Rightarrow> rat \<Rightarrow> (error + DatabaseInstance) \<times> Storage \<times> call list" where
  "UpdateResources c s id' memoryLimit cpuLimit =
     (case GetDatabase s id' of
        Inl err \<Rightarrow> (Inl err, s, [])
      | Inr db \<Rightarrow>
         (let db1 = (if memoryLimit > 0 then db\<lparr>MemoryLimit := memoryLimit\<rparr> else db);
              db2 = (if cpuLimit > 0 then db1\<lparr>CPULimit := cpuLimit\<rparr> else db1)
          in (case UpdateDatabase s db2 of
                (Some err, s') \<Rightarrow> (Inl err, s', [])
              | (None, s') \<Rightarrow> (Inr db2, s', []))))"

subsection \<open>Observations used in the statements\<close>

text \<open>The store after one \<open>syncStatus\<close>, and the data directory that \<open>Delete\<close> removes.\<close>

definition syncedStore :: "Client \<Rightarrow> Storage \<Rightarrow> DatabaseInstance \<Rightarrow> Storage" where
  "syncedStore c s db = fst (snd (syncStatus c s db))"

definition deletedDataDir :: "OS \<Rightarrow> Storage \<Rightarrow> string \<Rightarrow> string" where
  "deletedDataDir os s id' =
     filepath_Join [case filepath_Abs os (DataDir s) of Inl err \<Rightarrow> [] | Inr p \<Rightarrow> p,
                    ''databases'', id']"

text \<open>
  A port that \<open>findAvailablePortLocked\<close> accepts: no stored instance has it and the
  operating system lets it be bound.
\<close>

definition portFree :: "Storage \<Rightarrow> OS \<Rightarrow> int \<Rightarrow> bool" where
  "portFree s os port = (port \<notin> Port ` set (ListDatabases s) \<and> isPortAvailable os port)"

section \<open>The scheduler: backup retention\<close>

text \<open>
  \<open>time.Time.After\<close> on instants.  \<open>sort.Slice\<close> is not stable and is a parameter of
  the model; \<open>sortedBy lessFn xs ys\<close> is what the library guarantees of its result \<open>ys\<close>
  for the slice \<open>xs\<close>: the same elements, and no element is below (by \<open>lessFn\<close>) one before
  it.
\<close>

definition After :: "int \<Rightarrow> int \<Rightarrow> bool" where
  "After t u = (u < t)"

definition newerFirst :: "Backup \<Rightarrow> Backup \<Rightarrow> bool" where
  "newerFirst a b = After (backupCreatedAt a) (backupCreatedAt b)"

definition sortedBy :: "('a \<Rightarrow> 'a \<Rightarrow> bool) \<Rightarrow> 'a list \<Rightarrow> 'a list \<Rightarrow> bool" where
  "sortedBy lessFn xs ys = (mset ys = mset xs \<and> sorted_wrt (\<lambda>a b. \<not> lessFn b a) ys)"

text \<open>
  The loop of \<open>applyRetention\<close> over the backups beyond the retention count; every
  iteration logs the failure or the deletion and goes on.
\<close>

datatype retentionLog = LogDeleteFailed string error | LogDeleted string

fun deleteOldBackups :: "Storage \<Rightarrow> Backup list \<Rightarrow> Storage \<times> retentionLog list" where
  "deleteOldBackups s [] = (s, [])"
| "deleteOldBackups s (backup # rest) =
     (case DeleteBackup s (backupID backup) of
        (Some err, s') \<Rightarrow>
          (case deleteOldBackups s' rest of
             (s'', logs) \<Rightarrow> (s'', LogDeleteFailed (backupID backup) err # logs))
      | (None, s') \<Rightarrow>
          (case deleteOldBackups s' rest of
             (s'', logs) \<Rightarrow> (s'', LogDeleted (backupID backup) # logs)))"

definition applyRetention ::
  "((Backup \<Rightarrow> Backup \<Rightarrow> bool) \<Rightarrow> Backup list \<Rightarrow> Backup list) \<Rightarrow> Storage \<Rightarrow> string
    \<Rightarrow> Storage \<times> retentionLog list" where
  "applyRetention sortSlice s databaseID =
     (case GetDatabase s databaseID of
        Inl err \<Rightarrow> (s, [])
      | Inr db \<Rightarrow>
          if BackupRetentionCount db \<le> 0 then (s, [])
          else (let backups = ListBackups s databaseID
                in if int (length backups) \<le> BackupRetentionCount db then (s, [])
                   else (let ordered = sortSlice newerFirst backups
                         in deleteOldBackups s (drop (nat (BackupRetentionCount db)) ordered))))"

text \<open>A sort that meets the guarantee, for the examples: insertion from the right.\<close>

fun placeBy :: "('a \<Rightarrow> 'a \<Rightarrow> bool) \<Rightarrow> 'a \<Rightarrow> 'a list \<Rightarrow> 'a list" where
  "placeBy lessFn x [] = [x]"
| "placeBy lessFn x (y # ys) = (if lessFn y x then y # placeBy lessFn x ys else x # y # ys)"

definition insertionSort :: "('a \<Rightarrow> 'a \<Rightarrow> bool) \<Rightarrow> 'a list \<Rightarrow> 'a list" where
  "insertionSort lessFn xs = foldr (placeBy lessFn) xs []"

section \<open>The CLI backend (package cli)\<close>

text \<open>
  The regular expression \<open>^([\d.]+)\s*([A-Za-z]+)$\<close> of \<open>parseBytes\<close>.  Its three
  character classes are disjoint, so a string matches in one way only: the longest
  prefix of digits and dots, then the white space of the class \<open>\s\<close> (tab, line feed,
  form feed, carriage return, space), then letters up to the end.  The result is the
  two groups, or \<open>None\<close> when \<open>FindStringSubmatch\<close> returns no match.
\<close>

definition isNumberChar :: "char \<Rightarrow> bool" where
  "isNumberChar c = (isDigit c \<or> c = CHR ''.'')"

definition isRegexpSpace :: "char \<Rightarrow> bool" where
  "isRegexpSpace c = (c = CHR 0x09 \<or> c = CHR 0x0A \<or> c = CHR 0x0C \<or> c = CHR 0x0D \<or> c = CHR '' '')"

definition isLetter :: "char \<Rightarrow> bool" where
  "isLetter c = (isUpper c \<or> isLower c)"

definition matchNumberUnit :: "string \<Rightarrow> (string \<times> string) option" where
  "matchNumberUnit s =
     (let number = takeWhile isNumberChar s;
          unit = dropWhile isRegexpSpace (dropWhile isNumberChar s)
      in if number \<noteq> [] \<and> unit \<noteq> [] \<and> list_all isLetter unit then Some (number, unit)
         else None)"

text \<open>The \<open>switch\<close> of \<open>parseBytes\<close>; \<open>multiplier\<close> starts as 1 and there is no default case.\<close>

definition unitMultiplier :: "string \<Rightarrow> float64" where
  "unitMultiplier unit =
     (if unit = ''b'' then 1
      else if unit = ''kb'' \<or> unit = ''kib'' then 1024
      else if unit = ''mb'' \<or> unit = ''mib'' then 1024 * 1024
      else if unit = ''gb'' \<or> unit = ''gib'' then 1024 * 1024 * 1024
      else if unit = ''tb'' \<or> unit = ''tib'' then 1024 * 1024 * 1024 * 1024
      else 1)"

definition parseBytes :: "int \<Rightarrow> string \<Rightarrow> int" where
  "parseBytes outOfRange s0 =
     (let s = strings_TrimSpace s0
      in if s = [] \<or> s = ''--'' then 0
         else (case matchNumberUnit s of
                 None \<Rightarrow> 0
               | Some (number, unitText) \<Rightarrow>
                   (case strconv_ParseFloat number of
                      None \<Rightarrow> 0
                    | Some v \<Rightarrow>
                        int64_of_float64 outOfRange
                          (float64_mul v (unitMultiplier (strings_ToLower unitText))))))"

text \<open>
  The unit table of the specification: the multiplier of a recognised unit, \<open>None\<close> for
  a unit that is not in the table.
\<close>

definition specMultiplier :: "string \<Rightarrow> rat option" where
  "specMultiplier unit =
     (if unit = ''b'' then Some 1
      else if unit = ''kb'' \<or> unit = ''kib'' then Some (1024 ^ 1)
      else if unit = ''mb'' \<or> unit = ''mib'' then Some (1024 ^ 2)
      else if unit = ''gb'' \<or> unit = ''gib'' then Some (1024 ^ 3)
      else if unit = ''tb'' \<or> unit = ''tib'' then Some (1024 ^ 4)
      else None)"

text \<open>
  The grammar of the specification, for the comparison with the code: a number is digits
  with an optional decimal point (\<open>ip\<close> the digits before the point, \<open>fp\<close> those after
  it, \<open>point\<close> the point or nothing), then optional white space, then a unit of letters.
  \<open>specValue\<close> is the number that the digits denote.
\<close>

definition specGrammar :: "string \<Rightarrow> string \<Rightarrow> string \<Rightarrow> string \<Rightarrow> string \<Rightarrow> bool" where
  "specGrammar ip point fp ws unit =
     (list_all isDigit ip \<and> list_all isDigit fp \<and> (ip \<noteq> [] \<or> fp \<noteq> [])
      \<and> (point = ''.'' \<or> point = [] \<and> fp = [])
      \<and> list_all isRegexpSpace ws \<and> list_all isLetter unit \<and> unit \<noteq> [])"

definition specValue :: "string \<Rightarrow> string \<Rightarrow> rat" where
  "specValue ip fp = of_nat (digitsValue (ip @ fp)) / 10 ^ length fp"

text \<open>
  The order in which the Go runtime visits the entries of a map, at each of the \<open>range\<close>
  statements of the two \<open>CreateContainer\<close> functions: given the map, the sequence of
  visits.  It is an input of the model, like the answers of the runtime binary; the
  statements about an execution assume \<open>validOrder\<close>, that each sequence is a visit of
  the map it is asked for.
\<close>

record RangeOrder =
  rangePortBindings :: "(string \<rightharpoonup> string) \<Rightarrow> (string \<times> string) list"
  rangeVolumes :: "(string \<rightharpoonup> string) \<Rightarrow> (string \<times> string) list"
  rangeLabels :: "(string \<rightharpoonup> string) \<Rightarrow> (string \<times> string) list"

definition validOrder :: "RangeOrder \<Rightarrow> ContainerConfig \<Rightarrow> bool" where
  "validOrder ro cfg =
     (rangeOf (cfgPortBindings cfg) (rangePortBindings ro (cfgPortBindings cfg))
      \<and> rangeOf (cfgVolumes cfg) (rangeVolumes ro (cfgVolumes cfg))
      \<and> rangeOf (cfgLabels cfg) (rangeLabels ro (cfgLabels cfg)))"

text \<open>
  \<open>cli.Client\<close> and its \<open>CreateContainer\<close>: the argument vector it builds, and the call
  of \<open>runCommand\<close> with it.  \<open>runCommand\<close> is the subprocess, given the binary and its
  arguments; the result of \<open>CreateContainer\<close> comes with the list of the subprocesses
  it ran.
\<close>

record cliClient =
  cliBinary :: string
  cliNetwork :: string

definition cli_createArgs :: "RangeOrder \<Rightarrow> cliClient \<Rightarrow> ContainerConfig \<Rightarrow> string list" where
  "cli_createArgs ro c cfg =
     [''create'', ''--name'', cfgName cfg]
     @ [''--network'', cliNetwork c]
     @ concat (map (\<lambda>env. [''-e'', env]) (cfgEnv cfg))
     @ concat (map (\<lambda>(containerPort, hostPort). [''-p'', hostPort @ '':'' @ containerPort])
         (rangePortBindings ro (cfgPortBindings cfg)))
     @ concat (map (\<lambda>(hostPath, containerPath). [''-v'', hostPath @ '':'' @ containerPath])
         (rangeVolumes ro (cfgVolumes cfg)))
     @ (if cfgMemoryLimit cfg > 0 then [''--memory'', fmt_d (cfgMemoryLimit cfg)] else [])
     @ (if cfgCPULimit cfg > 0 then [''--cpus'', fmt_2f (cfgCPULimit cfg)] else [])
     @ concat (map (\<lambda>(k, v). [''--label'', k @ ''='' @ v]) (rangeLabels ro (cfgLabels cfg)))
     @ [''--restart'', ''unless-stopped'']
     @ [cfgImage cfg]
     @ (if length (cfgCmd cfg) > 0 then cfgCmd cfg else [])"

definition cli_CreateContainer ::
  "(string \<Rightarrow> string list \<Rightarrow> error + string) \<Rightarrow> RangeOrder \<Rightarrow> cliClient \<Rightarrow> ContainerConfig
    \<Rightarrow> (error + string) \<times> (string \<times> string list) list" where
  "cli_CreateContainer runCommand ro c cfg =
     (let args = cli_createArgs ro c cfg
      in (case runCommand (cliBinary c) args of
            Inl err \<Rightarrow> (Inl err, [(cliBinary c, args)])
          | Inr containerID \<Rightarrow> (Inr containerID, [(cliBinary c, args)])))"

section \<open>The daemon-based backend (package docker)\<close>

text \<open>
  \<open>docker.Client\<close> and its \<open>CreateContainer\<close>: the request it passes to
  \<open>ContainerCreate\<close> of the Docker SDK (the fields it sets of \<open>container.Config\<close> and
  \<open>container.HostConfig\<close>, and the container name), and the call.  The maps that the
  first loop fills (\<open>nat.PortSet\<close>, \<open>nat.PortMap\<close>) are a set and a map; the second loop
  appends to the slice of mounts.  The result of \<open>CreateContainer\<close> comes with the list
  of the requests it sent.
\<close>

record dockerClient =
  dockerNetwork :: string

record PortBinding =
  HostIP :: string
  HostPort :: string

datatype MountType = TypeBind | TypeVolume

record Mount =
  mountType :: MountType
  mountSource :: string
  mountTarget :: string

record ContainerCreate =
  configImage :: string
  configCmd :: "string list"
  configEnv :: "string list"
  configExposedPorts :: "string set"
  configLabels :: "string \<rightharpoonup> string"
  hostPortBindings :: "string \<rightharpoonup> PortBinding list"
  hostMounts :: "Mount list"
  hostNetworkMode :: string
  hostRestartPolicy :: string
  hostMemory :: int
  hostNanoCPUs :: int
  containerName :: string

definition docker_createRequest :: "int \<Rightarrow> RangeOrder \<Rightarrow> dockerClient \<Rightarrow> ContainerConfig \<Rightarrow> ContainerCreate" where
  "docker_createRequest outOfRange ro c cfg =
     \<lparr>configImage = cfgImage cfg,
      configCmd = cfgCmd cfg,
      configEnv = cfgEnv cfg,
      configExposedPorts = foldl (\<lambda>ports (containerPort, hostPort). insert containerPort ports) {}
        (rangePortBindings ro (cfgPortBindings cfg)),
      configLabels = cfgLabels cfg,
      hostPortBindings = foldl (\<lambda>bindings (containerPort, hostPort).
          bindings(containerPort \<mapsto> [\<lparr>HostIP = ''0.0.0.0'', HostPort = hostPort\<rparr>]))
        Map.empty (rangePortBindings ro (cfgPortBindings cfg)),
      hostMounts = map (\<lambda>(source, containerPath).
          \<lparr>mountType = (if \<not> strings_HasPrefix source ''/'' \<and> \<not> strings_HasPrefix source ''.''
                         then TypeVolume else TypeBind),
           mountSource = source, mountTarget = containerPath\<rparr>) (rangeVolumes ro (cfgVolumes cfg)),
      hostNetworkMode = dockerNetwork c,
      hostRestartPolicy = ''unless-stopped'',
      hostMemory = (if cfgMemoryLimit cfg > 0 then cfgMemoryLimit cfg else 0),
      hostNanoCPUs = (if cfgCPULimit cfg > 0
                      then int64_of_float64 outOfRange (float64_mul (cfgCPULimit cfg) 1000000000)
                      else 0),
      containerName = cfgName cfg\<rparr>"

definition docker_CreateContainer ::
  "(ContainerCreate \<Rightarrow> error + string) \<Rightarrow> int \<Rightarrow> RangeOrder \<Rightarrow> dockerClient \<Rightarrow> ContainerConfig
    \<Rightarrow> (error + string) \<times> ContainerCreate list" where
  "docker_CreateContainer ContainerCreate outOfRange ro c cfg =
     (let request = docker_createRequest outOfRange ro c cfg
      in (case ContainerCreate request of
            Inl err \<Rightarrow> (Inl (''failed to create container: '' @ err), [request])
          | Inr respID \<Rightarrow> (Inr respID, [request])))"

section \<open>Daemonless backend: image-name normalisation\<close>

text \<open>
  \<open>normalizeImageName\<close> of the containerd client.  \<open>strings.Split(name, "/")[0]\<close> is
  the first element of a list that is never empty (lemma \<open>strings_Split_nonempty\<close>).
\<close>

definition normalizeImageName :: "string \<Rightarrow> string" where
  "normalizeImageName name =
     (if strings_Contains name ''/''
         \<and> strings_Contains (strings_Split name (CHR ''/'') ! 0) ''.''
      then name
      else if \<not> strings_Contains name ''/''
      then ''docker.io/library/'' @ name
      else ''docker.io/'' @ name)"

text \<open>The first path segment of a reference, and what the specification calls a fully
  qualified reference: there is a registry segment, and it contains a dot.\<close>

definition firstSegment :: "string \<Rightarrow> string" where
  "firstSegment name = takeWhile (\<lambda>c. c \<noteq> CHR ''/'') name"

definition fullyQualified :: "string \<Rightarrow> bool" where
  "fullyQualified name = (CHR ''/'' \<in> set name \<and> CHR ''.'' \<in> set (firstSegment name))"

section \<open>Example values\<close>

text \<open>
  A stored instance, a store that holds it, a runtime on which every call succeeds and
  one on which every call fails.  The witnesses below evaluate the code on them.
\<close>

definition exampleInstance :: DatabaseInstance where
  "exampleInstance =
     \<lparr>ID = ''db-1a2b3c4d'', Name = ''orders'', Engine = ''postgresql'', Version = ''16'',
      Status = ''running'', Host = ''localhost'', Port = 5432, Username = ''admin'',
      Password = ''s3cret'', Database = ''orders'', ContainerID = ''0123456789abcdef'',
      CreatedAt = 1000, StorageUsed = 0, StorageLimit = 1073741824,
      MemoryLimit = 536870912, CPULimit = 1, Connections = 3, MaxConnections = 100,
      ErrorMessage = ''old failure'', ExposePort = True, Network = [],
      BackupEnabled = True, BackupSchedule = ''0 2 * * *'', BackupRetentionCount = 3,
      LastBackupAt = None\<rparr>"

definition exampleBackup :: "string \<Rightarrow> int \<Rightarrow> Backup" where
  "exampleBackup name created =
     \<lparr>backupID = name, backupDatabaseID = ''db-1a2b3c4d'', backupDatabaseName = ''orders'',
      backupCreatedAt = created, backupSize = 10, backupStatus = ''completed'',
      backupFilePath = ''/var/lib/dbnest/backups/'' @ name\<rparr>"

definition exampleStorage :: Storage where
  "exampleStorage =
     \<lparr>databasesBucket = [(''db-1a2b3c4d'', exampleInstance)],
      backupsBucket = [(''backup-a'', exampleBackup ''backup-a'' 30),
                       (''backup-b'', exampleBackup ''backup-b'' 10),
                       (''backup-c'', exampleBackup ''backup-c'' 50),
                       (''backup-d'', exampleBackup ''backup-d'' 20),
                       (''backup-e'', exampleBackup ''backup-e'' 40)],
      storeDataDir = ''/var/lib/dbnest''\<rparr>"

definition emptyStorage :: Storage where
  "emptyStorage = \<lparr>databasesBucket = [], backupsBucket = [], storeDataDir = ''/var/lib/dbnest''\<rparr>"

definition exampleClient :: "string \<Rightarrow> Client" where
  "exampleClient status =
     \<lparr>PullImage = (\<lambda>image. None),
      CreateContainer = (\<lambda>cfg. Inr ''f00dfeed0123456789ab''),
      StartContainer = (\<lambda>cid. None),
      StopContainer = (\<lambda>cid. None),
      RemoveContainer = (\<lambda>cid force. None),
      GetContainerStatus = (\<lambda>cid. Inr status),
      UpdateContainerResources = (\<lambda>cid memory cpu. None),
      DeleteVolume = (\<lambda>name. None)\<rparr>"

definition failingClient :: Client where
  "failingClient =
     \<lparr>PullImage = (\<lambda>image. Some ''pull: connection refused''),
      CreateContainer = (\<lambda>cfg. Inl ''create: connection refused''),
      StartContainer = (\<lambda>cid. Some ''start: connection refused''),
      StopContainer = (\<lambda>cid. Some ''stop: connection refused''),
      RemoveContainer = (\<lambda>cid force. Some ''rm: connection refused''),
      GetContainerStatus = (\<lambda>cid. Inl ''inspect: connection refused''),
      UpdateContainerResources = (\<lambda>cid memory cpu. Some ''update: connection refused''),
      DeleteVolume = (\<lambda>name. Some ''volume rm: connection refused'')\<rparr>"

definition exampleOS :: OS where
  "exampleOS = \<lparr>filepath_Abs = (\<lambda>p. Inr p), os_MkdirAll = (\<lambda>p. None),
     os_RemoveAll = (\<lambda>p. None), net_Listen = (\<lambda>addr. None)\<rparr>"

definition failingOS :: OS where
  "failingOS = \<lparr>filepath_Abs = (\<lambda>p. Inl ''getwd: no such directory''),
     os_MkdirAll = (\<lambda>p. Some ''mkdir: permission denied''),
     os_RemoveAll = (\<lambda>p. Some ''unlinkat: permission denied''),
     net_Listen = (\<lambda>addr. Some ''address already in use'')\<rparr>"

definition exampleRequest :: CreateRequest where
  "exampleRequest =
     \<lparr>reqName = ''orders'', reqEngine = ''postgresql'', reqVersion = ''16'',
      reqUsername = ''admin'', reqPassword = [], reqDatabase = ''orders'', reqPort = 0,
      reqStorageLimit = 1024, reqMemoryLimit = 512, reqNetwork = [], reqExposePort = None,
      reqRestoreFromBackupID = [], reqSeedSource = [], reqSeedContent = []\<rparr>"

text \<open>
  The object that \<open>Create\<close> allocates for \<open>exampleRequest\<close> on \<open>exampleStorage\<close> and an
  empty heap, and the arguments of the goroutine it starts.
\<close>

definition exampleCreated :: DatabaseInstance where
  "exampleCreated =
     \<lparr>ID = ''db-9f8e7d6c'', Name = ''orders'', Engine = ''postgresql'', Version = ''16'',
      Status = ''creating'', Host = ''localhost'', Port = 5433, Username = ''admin'',
      Password = ''1b4e28ba-2fa1-11'', Database = ''orders'', ContainerID = [],
      CreatedAt = 2000, StorageUsed = 0, StorageLimit = 1073741824,
      MemoryLimit = 536870912, CPULimit = 1, Connections = 0, MaxConnections = 100,
      ErrorMessage = [], ExposePort = True, Network = [],
      BackupEnabled = False, BackupSchedule = [], BackupRetentionCount = 0,
      LastBackupAt = None\<rparr>"

definition exampleProvision :: Provision where
  "exampleProvision =
     \<lparr>provDb = 0, provImageName = ''postgres:16'',
      provDataDir = ''/var/lib/dbnest/databases/db-9f8e7d6c'', provPort = 5433,
      provEngine = PostgreSQLEngine, provSeedSource = [], provSeedContent = []\<rparr>"

definition exampleCreate :: "(error + ref \<times> Provision) \<times> heap \<times> Storage \<times> call list" where
  "exampleCreate =
     Create exampleOS [] exampleStorage ''1b4e28ba-2fa1-11d2-883f-0016d3cca427''
       ''9f8e7d6c-5b4a-4392-8170-6f5e4d3c2b1a'' 2000 exampleRequest"

text \<open>
  The heap and the store after that \<open>Create\<close>, and a runtime that answers
  \<open>CreateContainer\<close> with an identifier of three bytes.
\<close>

definition exampleHeap :: heap where
  "exampleHeap = fst (snd exampleCreate)"

definition exampleStore :: Storage where
  "exampleStore = fst (snd (snd exampleCreate))"

definition shortIdClient :: Client where
  "shortIdClient = (exampleClient ''running'')\<lparr>CreateContainer := (\<lambda>cfg. Inr ''abc'')\<rparr>"

text \<open>
  The configuration that \<open>provisionDedicatedDatabase\<close> builds for the example instance,
  and the clients of the two backends on the network \<open>dbnest\<close>.
\<close>

definition exampleConfig :: ContainerConfig where
  "exampleConfig = containerConfigFor exampleCreated ''postgres:16'' 5433 PostgreSQLEngine"

definition exampleCli :: cliClient where
  "exampleCli = \<lparr>cliBinary = ''docker'', cliNetwork = ''dbnest''\<rparr>"

definition exampleDocker :: dockerClient where
  "exampleDocker = \<lparr>dockerNetwork = ''dbnest''\<rparr>"

text \<open>
  Two orders in which the runtime may visit the maps of \<open>exampleConfig\<close>; they differ in
  the order of the two labels.
\<close>

definition exampleOrder :: RangeOrder where
  "exampleOrder =
     \<lparr>rangePortBindings = (\<lambda>m. [(''5432/tcp'', ''5433'')]),
      rangeVolumes = (\<lambda>m. [(''dbnest-vol-db-9f8e7d6c'', ''/var/lib/postgresql/data'')]),
      rangeLabels = (\<lambda>m. [(''dbnest.managed'', ''true''), (''dbnest.id'', ''db-9f8e7d6c'')])\<rparr>"

definition otherOrder :: RangeOrder where
  "otherOrder =
     exampleOrder\<lparr>rangeLabels :=
       (\<lambda>m. [(''dbnest.id'', ''db-9f8e7d6c''), (''dbnest.managed'', ''true'')])\<rparr>"

text \<open>A number of 401 digits, \<open>10^400\<close>: it is above the largest \<open>float64\<close>.\<close>

definition hugeNumber :: string where
  "hugeNumber = CHR ''1'' # replicate 400 (CHR ''0'')"

chapter \<open>Properties\<close>

section \<open>The library functions\<close>

lemma strings_Contains_char: "strings_Contains s [c] = (c \<in> set s)"
  by (induction s) (auto simp: strings_HasPrefix_def)

lemma strings_Split_nonempty: "strings_Split s sep \<noteq> []"
  by (induction s) (auto split: list.splits)

lemma strings_Split_first: "strings_Split s sep ! 0 = takeWhile (\<lambda>c. c \<noteq> sep) s"
  by (induction s) (auto split: list.splits simp: strings_Split_nonempty)

section \<open>The store\<close>

lemma map_of_bucket_Put: "map_of (bucket_Put k v b) = (map_of b)(k \<mapsto> v)"
  by (induction b) (auto simp: fun_eq_iff)

lemma bucket_Get_Put:
  "bucket_Get (bucket_Put k v b) k' = (if k' = k then Some v else bucket_Get b k')"
  by (simp add: bucket_Get_def map_of_bucket_Put)

lemma bucket_Get_Delete:
  "bucket_Get (bucket_Delete k b) k' = (if k' = k then None else bucket_Get b k')"
  unfolding bucket_Get_def bucket_Delete_def by (induction b) auto

lemma GetDatabase_Inr_iff:
  "GetDatabase s i = Inr db \<longleftrightarrow> bucket_Get (databasesBucket s) i = Some db"
  by (simp add: GetDatabase_def split: option.splits)

lemma GetDatabase_Inl_iff:
  "GetDatabase s i = Inl e \<longleftrightarrow>
     bucket_Get (databasesBucket s) i = None \<and> e = ''database not found: '' @ i"
  by (auto simp add: GetDatabase_def split: option.splits)

lemma wfBucket_key: "wfBucket key b \<Longrightarrow> bucket_Get b k = Some v \<Longrightarrow> key v = k"
  by (auto simp: wfBucket_def bucket_Get_def list_all_iff dest!: map_of_SomeD)

lemma UpdateDatabase_present:
  "bucket_Get (databasesBucket s) (ID db) = Some old \<Longrightarrow>
   UpdateDatabase s db = (None, s\<lparr>databasesBucket := bucket_Put (ID db) db (databasesBucket s)\<rparr>)"
  by (simp add: UpdateDatabase_def)

lemma GetDatabase_after_Update:
  "bucket_Get (databasesBucket s) (ID db) = Some old \<Longrightarrow>
   GetDatabase (snd (UpdateDatabase s db)) k = (if k = ID db then Inr db else GetDatabase s k)"
  by (simp add: UpdateDatabase_present GetDatabase_def bucket_Get_Put)

lemma backupsBucket_after_Update: "backupsBucket (snd (UpdateDatabase s db)) = backupsBucket s"
  by (simp add: UpdateDatabase_def)

text \<open>The example store.\<close>

lemma exampleStorage_wf: "wfStorage exampleStorage"
  by code_simp

lemma emptyStorage_lookup: "GetDatabase emptyStorage i = Inl (''database not found: '' @ i)"
  by (simp add: GetDatabase_def emptyStorage_def bucket_Get_def)

section \<open>The status query of the backends\<close>

text \<open>
  What the three backends return.  The daemon-based backend tests the flags of the
  inspected state in the order of the code; the daemonless backend and the CLI backend
  compare the native status.
\<close>

lemma docker_GetContainerStatus_cases:
  "docker_GetContainerStatus ContainerInspect containerID =
     (case ContainerInspect containerID of
        InspectFailed notFound err \<Rightarrow> (if notFound then Inr ''error'' else Inl err)
      | Inspected st \<Rightarrow>
          Inr (if stRunning st then ''running''
               else if stPaused st then ''stopped''
               else if stRestarting st then ''creating''
               else if stDead st \<or> stOOMKilled st then ''error''
               else ''stopped''))"
  by (simp add: docker_GetContainerStatus_def split: InspectResult.splits)

lemma containerd_GetContainerStatus_canonical:
  "containerd_GetContainerStatus view containerID \<in> Inr ` canonicalStatuses"
  by (simp add: containerd_GetContainerStatus_def canonicalStatuses_def split: TaskView.splits)

lemma cli_dead_stopped:
  "cli_GetContainerStatus (\<lambda>args. Inr ''dead'') containerID = Inr ''stopped''"
  by (simp add: cli_GetContainerStatus_def)

text \<open>
  C1.  The claim maps the native state dead to \<open>stopped\<close> on the daemon-based backend.
  For a container whose inspected state has only the flag \<open>Dead\<close> set, the code of that
  backend returns \<open>error\<close>; for the same container the CLI backend of the repository,
  which reads the native status \<open>dead\<close>, returns \<open>stopped\<close>, as the claim says.
\<close>

theorem docker_dead_status:
  "docker_GetContainerStatus inspectDead ''c1'' = Inr ''error''
   \<and> cli_GetContainerStatus (\<lambda>args. Inr (stStatus deadState)) ''c1'' = Inr ''stopped''"
  by (simp add: docker_GetContainerStatus_def cli_GetContainerStatus_def inspectDead_def
      deadState_def)

section \<open>Port allocation\<close>

lemma usedPorts_iff: "usedPorts s port = (port \<in> Port ` set (ListDatabases s))"
proof -
  have fold: "foldl (\<lambda>m db. m(Port db := True)) m0 dbs port = (m0 port \<or> port \<in> Port ` set dbs)"
    for m0 dbs
    by (induction dbs arbitrary: m0) auto
  show ?thesis by (simp add: usedPorts_def fold)
qed

text \<open>
  While the candidates stay below the upper bound, the loop returns the first candidate
  that is neither used nor unavailable, or the candidate after the last one it examined.
\<close>

lemma portLoop_range:
  "port + int n \<le> 65535 \<Longrightarrow>
   port \<le> portLoop used os startPort n port
   \<and> portLoop used os startPort n port \<le> port + int n
   \<and> (\<forall>q. port \<le> q \<and> q < portLoop used os startPort n port \<longrightarrow> used q \<or> \<not> isPortAvailable os q)
   \<and> (portLoop used os startPort n port < port + int n
        \<longrightarrow> \<not> used (portLoop used os startPort n port)
            \<and> isPortAvailable os (portLoop used os startPort n port))"
proof (induction n arbitrary: port)
  case 0
  then show ?case by auto
next
  case (Suc n)
  from Suc.prems have le: "(port + 1) + int n \<le> 65535" by simp
  note IH = Suc.IH [OF le]
  show ?case
  proof (cases "used port \<or> \<not> isPortAvailable os port")
    case True
    with Suc.prems have step:
      "portLoop used os startPort (Suc n) port = portLoop used os startPort n (port + 1)"
      by auto
    have "used q \<or> \<not> isPortAvailable os q"
      if "port \<le> q" "q < portLoop used os startPort n (port + 1)" for q
      using that IH True by (cases "q = port") auto
    with IH show ?thesis unfolding step by auto
  next
    case False
    then show ?thesis by auto
  qed
qed

lemma probedPorts_exhausted:
  "port + int n \<le> 65535
   \<Longrightarrow> (\<forall>q. port \<le> q \<and> q < port + int n \<longrightarrow> used q \<or> \<not> isPortAvailable os q)
   \<Longrightarrow> probedPorts used os startPort n port = map (\<lambda>k. port + int k) [0..<n]"
proof (induction n arbitrary: port)
  case 0
  then show ?case by simp
next
  case (Suc n)
  from Suc.prems have le: "(port + 1) + int n \<le> 65535" by simp
  have rest: "\<forall>q. port + 1 \<le> q \<and> q < port + 1 + int n \<longrightarrow> used q \<or> \<not> isPortAvailable os q"
    using Suc.prems(2) by auto
  have here: "used port \<or> \<not> isPortAvailable os port"
    using Suc.prems(2) by auto
  have "probedPorts used os startPort (Suc n) port = port # probedPorts used os startPort n (port + 1)"
    using here Suc.prems(1) by auto
  also have "\<dots> = port # map (\<lambda>k. port + 1 + int k) [0..<n]"
    using Suc.IH [OF le rest] by simp
  also have "\<dots> = map (\<lambda>k. port + int k) [0..<Suc n]"
    by (simp add: upt_rec [of 0] map_Suc_upt [symmetric] del: upt_Suc)
  finally show ?case .
qed

text \<open>
  The wrap-around: after the port 65535, when it is not used by an instance and cannot be
  bound, the next candidate is the start port.  (After a port that an instance uses the
  candidate is incremented without the test.)
\<close>

lemma portLoop_wrap:
  "\<not> used 65535 \<Longrightarrow> \<not> isPortAvailable os 65535
   \<Longrightarrow> portLoop used os startPort (Suc n) 65535 = portLoop used os startPort n startPort"
  "used 65535 \<Longrightarrow> portLoop used os startPort (Suc n) 65535 = portLoop used os startPort n 65536"
  by simp_all

lemma DefaultPort_below: "DefaultPort engine + int maxAttempts \<le> 65535"
  by (cases engine) (simp_all add: maxAttempts_def)

lemma new_deref: "new h db = (r, h') \<Longrightarrow> deref h' r = Some db"
  by (auto simp: new_def deref_def)

lemma Create_port:
  assumes "Create os h s uuidPassword uuid now req = (Inr (r, p), h', s', calls)"
  shows "\<exists>engine db. GetEngine (reqEngine req) = Inr engine \<and> deref h' r = Some db
           \<and> Port db = (if reqPort req = 0 then findAvailablePortLocked s os (DefaultPort engine)
                         else reqPort req)"
  using assms
  by (auto simp: Create_def createDedicatedDatabase_def Let_def CreateDatabase_def new_def deref_def
      split: sum.splits option.splits if_splits)

text \<open>
  C2, as the code has it.  When \<open>Create\<close> is called with port 0, the port of the record
  behind the pointer it returns is the result of \<open>findAvailablePortLocked\<close> from the
  engine's default port: the first port from the default port upwards that no stored
  instance has and that the operating system lets be bound, when there is one among the
  1000 ports examined; otherwise the default port plus 1000, which is the candidate after
  the last port examined and has not been examined itself.  No error is returned for the
  port.  (From a registered engine's default port the 1000 candidates stay below 65535,
  so the wrap-around of the loop, lemma \<open>portLoop_wrap\<close>, is not reached.)
\<close>

theorem Create_port_allocation:
  "reqPort req = 0 \<and> Create os h s uuidPassword uuid now req = (Inr (r, p), h', s', calls)
   \<longrightarrow> (\<exists>engine db. GetEngine (reqEngine req) = Inr engine \<and> deref h' r = Some db
          \<and> Port db = findAvailablePortLocked s os (DefaultPort engine)
          \<and> DefaultPort engine \<le> Port db \<and> Port db \<le> DefaultPort engine + 1000
          \<and> (\<forall>q. DefaultPort engine \<le> q \<and> q < Port db \<longrightarrow> \<not> portFree s os q)
          \<and> (Port db < DefaultPort engine + 1000 \<longrightarrow> portFree s os (Port db))
          \<and> (Port db = DefaultPort engine + 1000
               \<longrightarrow> probedPorts (usedPorts s) os (DefaultPort engine) maxAttempts (DefaultPort engine)
                     = map (\<lambda>k. DefaultPort engine + int k) [0..<1000]))"
proof (intro impI, elim conjE)
  assume port0: "reqPort req = 0"
    and create: "Create os h s uuidPassword uuid now req = (Inr (r, p), h', s', calls)"
  from Create_port [OF create] port0 obtain engine db where
    engine: "GetEngine (reqEngine req) = Inr engine"
    and db: "deref h' r = Some db"
    and port: "Port db = findAvailablePortLocked s os (DefaultPort engine)"
    by auto
  let ?start = "DefaultPort engine"
  note range = portLoop_range [OF DefaultPort_below [of engine], of "usedPorts s" os ?start]
  have r: "Port db = portLoop (usedPorts s) os ?start maxAttempts ?start"
    by (simp add: port findAvailablePortLocked_def)
  have m: "int maxAttempts = 1000"
    by (simp add: maxAttempts_def)
  have bounds: "?start \<le> Port db" "Port db \<le> ?start + 1000"
    using range by (simp_all add: r [symmetric] m)
  have before: "\<forall>q. ?start \<le> q \<and> q < Port db \<longrightarrow> \<not> portFree s os q"
    using range by (simp add: r [symmetric] portFree_def usedPorts_iff)
  have found: "Port db < ?start + 1000 \<longrightarrow> portFree s os (Port db)"
    using range by (simp add: r [symmetric] m portFree_def usedPorts_iff)
  have exhausted: "probedPorts (usedPorts s) os ?start maxAttempts ?start
        = map (\<lambda>k. ?start + int k) [0..<1000]"
    if "Port db = ?start + 1000"
  proof -
    have "\<forall>q. ?start \<le> q \<and> q < ?start + int maxAttempts
        \<longrightarrow> usedPorts s q \<or> \<not> isPortAvailable os q"
      using before that by (auto simp: m portFree_def usedPorts_iff)
    from probedPorts_exhausted [OF DefaultPort_below this]
    show ?thesis by (simp add: maxAttempts_def)
  qed
  from engine db port bounds before found exhausted
  show "\<exists>engine db. GetEngine (reqEngine req) = Inr engine \<and> deref h' r = Some db
          \<and> Port db = findAvailablePortLocked s os (DefaultPort engine)
          \<and> DefaultPort engine \<le> Port db \<and> Port db \<le> DefaultPort engine + 1000
          \<and> (\<forall>q. DefaultPort engine \<le> q \<and> q < Port db \<longrightarrow> \<not> portFree s os q)
          \<and> (Port db < DefaultPort engine + 1000 \<longrightarrow> portFree s os (Port db))
          \<and> (Port db = DefaultPort engine + 1000
               \<longrightarrow> probedPorts (usedPorts s) os (DefaultPort engine) maxAttempts (DefaultPort engine)
                     = map (\<lambda>k. DefaultPort engine + int k) [0..<1000])"
    by blast
qed

text \<open>The example: port 5432 is taken by the stored instance, 5433 is free.\<close>

lemma example_ports:
  "usedPorts exampleStorage 5432" "\<not> usedPorts exampleStorage 5433"
  "isPortAvailable exampleOS q"
  by (simp_all add: usedPorts_iff ListDatabases_def exampleStorage_def exampleInstance_def
      isPortAvailable_def exampleOS_def)

lemma example_port: "findAvailablePortLocked exampleStorage exampleOS 5432 = 5433"
proof -
  have m: "maxAttempts = Suc (Suc 998)"
    by (simp add: maxAttempts_def)
  have second: "portLoop used os st (Suc (Suc n)) q = q + 1"
    if "used q" "\<not> used (q + 1)" "isPortAvailable os (q + 1)" for used os st n q
    using that by simp
  show ?thesis
    unfolding findAvailablePortLocked_def m
    using second [of "usedPorts exampleStorage" 5432 exampleOS 5432 998]
    by (simp add: example_ports)
qed

lemma example_os:
  "filepath_Abs exampleOS p = Inr p" "os_MkdirAll exampleOS p = None"
  "DataDir exampleStorage = ''/var/lib/dbnest''"
  by (simp_all add: exampleOS_def exampleStorage_def DataDir_def)

lemma example_engine: "GetEngine ''postgresql'' = Inr PostgreSQLEngine"
  by (simp add: GetEngine_def engines_def)

lemma int64_small: "- (2 ^ 63) \<le> x \<Longrightarrow> x < 2 ^ 63 \<Longrightarrow> int64 x = x"
  by (simp add: int64_def)

lemma exampleCreate_eval:
  "exampleCreate
   = (Inr (0, exampleProvision), [exampleCreated],
      exampleStorage\<lparr>databasesBucket :=
        bucket_Put ''db-9f8e7d6c'' exampleCreated (databasesBucket exampleStorage)\<rparr>,
      [CallMkdirAll ''/var/lib/dbnest/databases/db-9f8e7d6c''])"
  by (simp add: exampleCreate_def Create_def createDedicatedDatabase_def exampleRequest_def
      example_engine example_port int64_small Let_def CreateDatabase_def filepath_Join_def
      exampleCreated_def exampleProvision_def example_os new_def)

theorem Create_port_allocation_witness:
  "reqPort exampleRequest = 0
   \<and> fst exampleCreate = Inr (0, exampleProvision)
   \<and> deref (fst (snd exampleCreate)) 0 = Some exampleCreated
   \<and> GetEngine (reqEngine exampleRequest) = Inr PostgreSQLEngine
   \<and> Port exampleCreated = 5433
   \<and> \<not> portFree exampleStorage exampleOS 5432
   \<and> portFree exampleStorage exampleOS 5433"
proof -
  have e: "Create exampleOS [] exampleStorage ''1b4e28ba-2fa1-11d2-883f-0016d3cca427''
       ''9f8e7d6c-5b4a-4392-8170-6f5e4d3c2b1a'' 2000 exampleRequest
     = (Inr (0, exampleProvision), [exampleCreated],
        exampleStorage\<lparr>databasesBucket :=
          bucket_Put ''db-9f8e7d6c'' exampleCreated (databasesBucket exampleStorage)\<rparr>,
        [CallMkdirAll ''/var/lib/dbnest/databases/db-9f8e7d6c''])"
    using exampleCreate_eval by (simp add: exampleCreate_def)
  have r: "reqPort exampleRequest = 0" "reqEngine exampleRequest = ''postgresql''"
    by (simp_all add: exampleRequest_def)
  have p: "Port exampleCreated = 5433"
    by (simp add: exampleCreated_def)
  have d: "deref [exampleCreated] 0 = Some exampleCreated"
    by (simp add: deref_def)
  from mp [OF Create_port_allocation [where req = exampleRequest and os = exampleOS
      and s = exampleStorage and h = "[]"] conjI [OF r(1) e]]
  have "\<not> portFree exampleStorage exampleOS 5432 \<and> portFree exampleStorage exampleOS 5433"
    by (auto simp: r p d example_engine)
  then show ?thesis
    by (simp add: r p d example_engine exampleCreate_eval)
qed

text \<open>
  The claim as stated fails where it says that the last-tried port is returned: when no
  port can be bound, the loop examines 5432 to 6431 and returns 6432, which it has not
  examined.
\<close>

lemma noPort_not_available: "\<not> isPortAvailable noPortOS q"
  by (simp add: isPortAvailable_def noPortOS_def)

theorem last_tried_port_counterexample:
  "findAvailablePortLocked emptyStorage noPortOS 5432 = 6432
   \<and> last (probedPorts (usedPorts emptyStorage) noPortOS 5432 maxAttempts 5432) = 6431
   \<and> 6432 \<notin> set (probedPorts (usedPorts emptyStorage) noPortOS 5432 maxAttempts 5432)"
proof -
  have below: "5432 + int maxAttempts \<le> 65535"
    by (simp add: maxAttempts_def)
  from portLoop_range [OF below, of "usedPorts emptyStorage" noPortOS 5432]
  have result: "findAvailablePortLocked emptyStorage noPortOS 5432 = 6432"
    by (auto simp: findAvailablePortLocked_def noPort_not_available maxAttempts_def)
  have probed: "probedPorts (usedPorts emptyStorage) noPortOS 5432 maxAttempts 5432
      = map (\<lambda>k. 5432 + int k) [0..<maxAttempts]"
    by (rule probedPorts_exhausted [OF below]) (simp add: noPort_not_available)
  have "last (map (\<lambda>k. 5432 + int k) [0..<maxAttempts]) = 6431"
    by (simp add: maxAttempts_def last_map)
  moreover have "6432 \<notin> set (map (\<lambda>k. 5432 + int k) [0..<maxAttempts])"
    by (auto simp: maxAttempts_def)
  ultimately show ?thesis
    using result probed by simp
qed

section \<open>Status reconciliation\<close>

text \<open>
  C4.  One pass of \<open>syncStatus\<close> over an instance read from the store.  An instance
  without a container identifier or in status \<open>creating\<close> is left untouched and no
  query is made.  When the query fails and the stored status was \<open>running\<close>, the
  stored record becomes \<open>error\<close> with the message \<open>Container not accessible\<close>; when
  it fails and the status was not \<open>running\<close>, the store is unchanged.  When the query
  succeeds with a status different from the stored one, the stored status is overwritten,
  the error message being cleared when the new status is \<open>running\<close>; when it succeeds
  with the stored status, the store is unchanged.  No other record and no backup is
  touched.  A second pass over the record as stored, with the runtime answering as
  before, leaves the record and the store as they are.
\<close>

theorem syncStatus_pass:
  assumes stored: "GetDatabase s (ID db) = Inr db"
  shows
  "(ContainerID db = [] \<or> Status db = ''creating'' \<longrightarrow> syncStatus c s db = (db, s, []))
   \<and> (ContainerID db \<noteq> [] \<and> Status db = ''running''
        \<and> GetContainerStatus c (ContainerID db) = Inl err
      \<longrightarrow> GetDatabase (syncedStore c s db) (ID db)
            = Inr (db\<lparr>Status := ''error'', ErrorMessage := ''Container not accessible''\<rparr>))
   \<and> (ContainerID db \<noteq> [] \<and> Status db \<noteq> ''creating'' \<and> Status db \<noteq> ''running''
        \<and> GetContainerStatus c (ContainerID db) = Inl err
      \<longrightarrow> syncedStore c s db = s)
   \<and> (ContainerID db \<noteq> [] \<and> Status db \<noteq> ''creating''
        \<and> GetContainerStatus c (ContainerID db) = Inr actualStatus \<and> actualStatus \<noteq> Status db
      \<longrightarrow> GetDatabase (syncedStore c s db) (ID db)
            = Inr (db\<lparr>Status := actualStatus,
                       ErrorMessage := (if actualStatus = ''running'' then [] else ErrorMessage db)\<rparr>))
   \<and> (ContainerID db \<noteq> [] \<and> Status db \<noteq> ''creating''
        \<and> GetContainerStatus c (ContainerID db) = Inr (Status db)
      \<longrightarrow> syncedStore c s db = s)
   \<and> (\<forall>k. k \<noteq> ID db \<longrightarrow> GetDatabase (syncedStore c s db) k = GetDatabase s k)
   \<and> backupsBucket (syncedStore c s db) = backupsBucket s
   \<and> (\<forall>db'. GetDatabase (syncedStore c s db) (ID db) = Inr db'
        \<longrightarrow> fst (syncStatus c (syncedStore c s db) db') = db'
            \<and> syncedStore c (syncedStore c s db) db' = syncedStore c s db)"
proof -
  from stored have b: "bucket_Get (databasesBucket s) (ID db) = Some db"
    by (simp add: GetDatabase_Inr_iff)
  have upd: "GetDatabase (snd (UpdateDatabase s (db\<lparr>Status := st, ErrorMessage := m\<rparr>))) k
      = (if k = ID db then Inr (db\<lparr>Status := st, ErrorMessage := m\<rparr>) else GetDatabase s k)" for st m k
    using GetDatabase_after_Update [of s "db\<lparr>Status := st, ErrorMessage := m\<rparr>" db k] b by simp
  have upd1: "GetDatabase (snd (UpdateDatabase s (db\<lparr>Status := st\<rparr>))) k
      = (if k = ID db then Inr (db\<lparr>Status := st\<rparr>) else GetDatabase s k)" for st k
    using GetDatabase_after_Update [of s "db\<lparr>Status := st\<rparr>" db k] b by simp
  show ?thesis
    unfolding syncedStore_def using stored
    by (cases "GetContainerStatus c (ContainerID db)")
       (auto simp: syncStatus_def Let_def upd upd1 backupsBucket_after_Update)
qed

lemma exampleInstance_stored: "GetDatabase exampleStorage (ID exampleInstance) = Inr exampleInstance"
  by (simp add: GetDatabase_def exampleStorage_def exampleInstance_def bucket_Get_def)

lemma exampleFacts:
  "ContainerID exampleInstance = ''0123456789abcdef''"
  "Status exampleInstance = ''running''"
  "ID exampleInstance = ''db-1a2b3c4d''"
  "ErrorMessage exampleInstance = ''old failure''"
  "GetContainerStatus failingClient cid = Inl ''inspect: connection refused''"
  "GetContainerStatus (exampleClient st) cid = Inr st"
  by (simp_all add: exampleInstance_def failingClient_def exampleClient_def)

theorem syncStatus_pass_witness:
  "GetDatabase exampleStorage (ID exampleInstance) = Inr exampleInstance
   \<and> ContainerID exampleInstance \<noteq> [] \<and> Status exampleInstance = ''running''
   \<and> GetContainerStatus failingClient (ContainerID exampleInstance) = Inl ''inspect: connection refused''
   \<and> GetDatabase (syncedStore failingClient exampleStorage exampleInstance) (ID exampleInstance)
       = Inr (exampleInstance\<lparr>Status := ''error'', ErrorMessage := ''Container not accessible''\<rparr>)
   \<and> GetContainerStatus (exampleClient ''stopped'') (ContainerID exampleInstance) = Inr ''stopped''
   \<and> ''stopped'' \<noteq> Status exampleInstance
   \<and> GetDatabase (syncedStore (exampleClient ''stopped'') exampleStorage exampleInstance) (ID exampleInstance)
       = Inr (exampleInstance\<lparr>Status := ''stopped'', ErrorMessage := ''old failure''\<rparr>)
   \<and> syncedStore (exampleClient ''stopped'')
         (syncedStore (exampleClient ''stopped'') exampleStorage exampleInstance)
         (exampleInstance\<lparr>Status := ''stopped'', ErrorMessage := ''old failure''\<rparr>)
       = syncedStore (exampleClient ''stopped'') exampleStorage exampleInstance
   \<and> syncedStore (exampleClient ''running'') exampleStorage exampleInstance = exampleStorage"
  using syncStatus_pass [OF exampleInstance_stored, of failingClient "''inspect: connection refused''" "''stopped''"]
    syncStatus_pass [OF exampleInstance_stored, of "exampleClient ''stopped''" "''e''" "''stopped''"]
    syncStatus_pass [OF exampleInstance_stored, of "exampleClient ''running''" "''e''" "''running''"] exampleInstance_stored
  by (auto simp: exampleFacts)

section \<open>Delete\<close>

text \<open>
  C5.  \<open>Delete\<close> on an existing instance, whatever the runtime and the operating system
  answer: the container removal (when the instance has a container identifier), the
  volume removal and the removal of the data directory are all attempted, in this order;
  one warning is printed for every step that fails; the record is deleted and the call
  returns no error.  A second \<open>Delete\<close> of the same identifier returns the not-found
  error of the lookup, makes no call and leaves the store as it is.
\<close>

theorem Delete_best_effort:
  assumes "GetDatabase s i = Inr db"
  shows
  "(case Delete c os s i of (res, s', calls, warnings) \<Rightarrow>
      res = None
      \<and> s' = s\<lparr>databasesBucket := bucket_Delete i (databasesBucket s)\<rparr>
      \<and> GetDatabase s' i = Inl (''database not found: '' @ i)
      \<and> calls = (if ContainerID db = [] then [] else [CallRemoveContainer (ContainerID db) True])
                 @ [CallDeleteVolume (''dbnest-vol-'' @ i), CallRemoveAll (deletedDataDir os s i)]
      \<and> length warnings
          = (if ContainerID db \<noteq> [] \<and> RemoveContainer c (ContainerID db) True \<noteq> None then 1 else 0)
            + (if DeleteVolume c (''dbnest-vol-'' @ i) \<noteq> None then 1 else 0)
            + (if os_RemoveAll os (deletedDataDir os s i) \<noteq> None then 1 else 0)
      \<and> Delete c2 os2 s' i = (Some (''database not found: '' @ i), s', [], []))"
  using assms
  by (auto simp: Delete_def Let_def DeleteDatabase_def GetDatabase_Inr_iff GetDatabase_Inl_iff
      bucket_Get_Delete deletedDataDir_def split: option.splits sum.splits prod.splits)


lemma exampleInstance_lookup: "GetDatabase exampleStorage ''db-1a2b3c4d'' = Inr exampleInstance"
  by (simp add: GetDatabase_def exampleStorage_def bucket_Get_def)

theorem Delete_best_effort_witness:
  "GetDatabase exampleStorage ''db-1a2b3c4d'' = Inr exampleInstance
   \<and> fst (Delete failingClient failingOS exampleStorage ''db-1a2b3c4d'') = None
   \<and> GetDatabase (fst (snd (Delete failingClient failingOS exampleStorage ''db-1a2b3c4d'')))
         ''db-1a2b3c4d'' = Inl ''database not found: db-1a2b3c4d''
   \<and> fst (snd (snd (Delete failingClient failingOS exampleStorage ''db-1a2b3c4d'')))
       = [CallRemoveContainer ''0123456789abcdef'' True, CallDeleteVolume ''dbnest-vol-db-1a2b3c4d'',
          CallRemoveAll ''databases/db-1a2b3c4d'']
   \<and> length (snd (snd (snd (Delete failingClient failingOS exampleStorage ''db-1a2b3c4d'')))) = 3
   \<and> Delete failingClient failingOS
         (fst (snd (Delete failingClient failingOS exampleStorage ''db-1a2b3c4d''))) ''db-1a2b3c4d''
       = (Some ''database not found: db-1a2b3c4d'',
          fst (snd (Delete failingClient failingOS exampleStorage ''db-1a2b3c4d'')), [], [])"
  using Delete_best_effort [OF exampleInstance_lookup, where c = failingClient and os = failingOS
      and ?c2.0 = failingClient and ?os2.0 = failingOS]
  by (auto simp: exampleInstance_lookup exampleFacts failingClient_def failingOS_def deletedDataDir_def filepath_Join_def
      split: prod.splits)

section \<open>Create and provisioning\<close>

lemma createDedicatedDatabase_Inr:
  assumes "createDedicatedDatabase os h s uuid now req = (Inr (r, p), h', s', calls)"
  shows "\<exists>db. h' = h @ [db] \<and> r = length h \<and> deref h' r = Some db
           \<and> Status db = ''creating'' \<and> ContainerID db = [] \<and> ErrorMessage db = []
           \<and> GetDatabase s' (ID db) = Inr db \<and> provDb p = r
           \<and> calls = [CallMkdirAll (provDataDir p)]"
  using assms
  by (auto simp: createDedicatedDatabase_def Let_def CreateDatabase_def GetDatabase_def bucket_Get_Put
      new_def deref_def split: sum.splits option.splits if_splits)

lemma deref_assign: "deref h r = Some db \<Longrightarrow> deref (assign h r db') r = Some db'"
  by (simp add: deref_def assign_def split: if_splits)

lemma deref_assign_other: "r' \<noteq> r \<Longrightarrow> deref (assign h r db') r' = deref h r'"
  by (simp add: deref_def assign_def)

lemma GetDatabase_provision_update:
  assumes "GetDatabase s (ID db) = Inr stored" and "ID d = ID db"
  shows "GetDatabase (snd (UpdateDatabase s d)) (ID db) = Inr d"
  using assms GetDatabase_after_Update [of s d stored "ID db"]
  by (simp add: GetDatabase_Inr_iff)

text \<open>
  The goroutine, for an object that is on the heap and whose record is in the store.  A
  failing pull or create, and a failing start after an identifier of at least 12 bytes,
  leave status \<open>error\<close> with the message, in the store and in the object; three successes
  with such an identifier leave status \<open>running\<close>.  No call is repeated.
\<close>

lemma provision_outcomes:
  assumes obj: "deref h (provDb q) = Some db" and stored: "GetDatabase s (ID db) = Inr stored"
    and cfg: "cfg = containerConfigFor db (provImageName q) (provPort q) (provEngine q)"
  shows "(PullImage c (provImageName q) = Some err
      \<longrightarrow> GetDatabase (prStore (provisionDedicatedDatabase c h s q)) (ID db)
            = Inr (db\<lparr>Status := ''error'', ErrorMessage := ''Failed to pull image: '' @ err\<rparr>)
          \<and> deref (prHeap (provisionDedicatedDatabase c h s q)) (provDb q)
            = Some (db\<lparr>Status := ''error'', ErrorMessage := ''Failed to pull image: '' @ err\<rparr>)
          \<and> prCalls (provisionDedicatedDatabase c h s q) = [CallPullImage (provImageName q)])
   \<and> (PullImage c (provImageName q) = None \<and> CreateContainer c cfg = Inl err
      \<longrightarrow> GetDatabase (prStore (provisionDedicatedDatabase c h s q)) (ID db)
            = Inr (db\<lparr>Status := ''error'', ErrorMessage := ''Failed to create container: '' @ err\<rparr>)
          \<and> deref (prHeap (provisionDedicatedDatabase c h s q)) (provDb q)
            = Some (db\<lparr>Status := ''error'', ErrorMessage := ''Failed to create container: '' @ err\<rparr>)
          \<and> prCalls (provisionDedicatedDatabase c h s q)
            = [CallPullImage (provImageName q), CallCreateContainer cfg])
   \<and> (PullImage c (provImageName q) = None \<and> CreateContainer c cfg = Inr containerID
        \<and> 12 \<le> length containerID \<and> StartContainer c containerID = Some err
      \<longrightarrow> GetDatabase (prStore (provisionDedicatedDatabase c h s q)) (ID db)
            = Inr (db\<lparr>ContainerID := containerID, Status := ''error'',
                      ErrorMessage := ''Failed to start container: '' @ err\<rparr>)
          \<and> deref (prHeap (provisionDedicatedDatabase c h s q)) (provDb q)
            = Some (db\<lparr>ContainerID := containerID, Status := ''error'',
                      ErrorMessage := ''Failed to start container: '' @ err\<rparr>)
          \<and> prCalls (provisionDedicatedDatabase c h s q)
            = [CallPullImage (provImageName q), CallCreateContainer cfg,
               CallStartContainer containerID])
   \<and> (PullImage c (provImageName q) = None \<and> CreateContainer c cfg = Inr containerID
        \<and> 12 \<le> length containerID \<and> StartContainer c containerID = None
      \<longrightarrow> GetDatabase (prStore (provisionDedicatedDatabase c h s q)) (ID db)
            = Inr (db\<lparr>ContainerID := containerID, Status := ''running'', ErrorMessage := []\<rparr>)
          \<and> deref (prHeap (provisionDedicatedDatabase c h s q)) (provDb q)
            = Some (db\<lparr>ContainerID := containerID, Status := ''running'', ErrorMessage := []\<rparr>)
          \<and> prCalls (provisionDedicatedDatabase c h s q)
            = [CallPullImage (provImageName q), CallCreateContainer cfg,
               CallStartContainer containerID])"
proof -
  have upd: "GetDatabase (snd (UpdateDatabase s d')) (ID db) = Inr d'" if "ID d' = ID db" for d'
    using stored that by (rule GetDatabase_provision_update)
  have da: "deref (assign h (provDb q) d') (provDb q) = Some d'" for d'
    using obj by (rule deref_assign)
  show ?thesis
    by (auto simp: provisionDedicatedDatabase_def Let_def obj cfg upd da)
qed

text \<open>
  When \<open>CreateContainer\<close> succeeds with an identifier of fewer than 12 bytes, the goroutine
  ends in the panic of the slice expression \<open>containerID[:12]\<close> of its log statement:
  \<open>StartContainer\<close> is not called and nothing is persisted, so the stored record keeps
  the status it had; the object has the identifier, which was assigned before.
\<close>

lemma provision_short_identifier:
  assumes "deref h (provDb q) = Some db"
    and "PullImage c (provImageName q) = None"
    and "CreateContainer c (containerConfigFor db (provImageName q) (provPort q) (provEngine q))
          = Inr containerID"
    and "length containerID < 12"
  shows "provisionDedicatedDatabase c h s q
         = \<lparr>prEnd = Panicked, prHeap = assign h (provDb q) (db\<lparr>ContainerID := containerID\<rparr>),
            prStore = s,
            prCalls = [CallPullImage (provImageName q),
                       CallCreateContainer
                         (containerConfigFor db (provImageName q) (provPort q) (provEngine q))]\<rparr>"
  using assms by (simp add: provisionDedicatedDatabase_def Let_def)

lemma example_facts:
  "fst exampleCreate = Inr (0, exampleProvision)"
  "exampleHeap = [exampleCreated]"
  "GetDatabase exampleStore ''db-9f8e7d6c'' = Inr exampleCreated"
  "deref exampleHeap 0 = Some exampleCreated"
  "containerConfigFor exampleCreated ''postgres:16'' 5433 PostgreSQLEngine = exampleConfig"
  "PullImage shortIdClient img = None"
  "CreateContainer shortIdClient cfg = Inr ''abc''"
  by (simp_all add: exampleCreate_eval exampleHeap_def exampleStore_def deref_def exampleConfig_def
      shortIdClient_def exampleClient_def GetDatabase_def bucket_Get_Put exampleCreated_def)

text \<open>
  C3.  The claim has the provisioning persist status \<open>error\<close> on a failure and status
  \<open>running\<close> on success.  For the instance that \<open>Create\<close> has just returned (its record
  stored with status \<open>creating\<close>) and a runtime whose \<open>CreateContainer\<close> succeeds with the
  identifier \<open>abc\<close>, the goroutine ends in the panic of \<open>containerID[:12]\<close>: it has
  called \<open>PullImage\<close> and \<open>CreateContainer\<close> and never calls \<open>StartContainer\<close>, and
  the stored record still has status \<open>creating\<close>: neither \<open>running\<close> nor \<open>error\<close> is
  persisted.
\<close>

theorem provision_short_identifier_panics:
  "fst exampleCreate = Inr (0, exampleProvision)
   \<and> deref exampleHeap 0 = Some exampleCreated
   \<and> Status exampleCreated = ''creating''
   \<and> GetDatabase exampleStore ''db-9f8e7d6c'' = Inr exampleCreated
   \<and> PullImage shortIdClient ''postgres:16'' = None
   \<and> CreateContainer shortIdClient exampleConfig = Inr ''abc''
   \<and> prEnd (provisionDedicatedDatabase shortIdClient exampleHeap exampleStore exampleProvision)
       = Panicked
   \<and> prCalls (provisionDedicatedDatabase shortIdClient exampleHeap exampleStore exampleProvision)
       = [CallPullImage ''postgres:16'', CallCreateContainer exampleConfig]
   \<and> GetDatabase
         (prStore (provisionDedicatedDatabase shortIdClient exampleHeap exampleStore exampleProvision))
         ''db-9f8e7d6c''
       = Inr exampleCreated
   \<and> deref (prHeap (provisionDedicatedDatabase shortIdClient exampleHeap exampleStore exampleProvision)) 0
       = Some (exampleCreated\<lparr>ContainerID := ''abc''\<rparr>)"
proof -
  have p: "provDb exampleProvision = 0" "provImageName exampleProvision = ''postgres:16''"
    "provPort exampleProvision = 5433" "provEngine exampleProvision = PostgreSQLEngine"
    by (simp_all add: exampleProvision_def)
  have "provisionDedicatedDatabase shortIdClient exampleHeap exampleStore exampleProvision
        = \<lparr>prEnd = Panicked, prHeap = assign exampleHeap 0 (exampleCreated\<lparr>ContainerID := ''abc''\<rparr>),
           prStore = exampleStore,
           prCalls = [CallPullImage ''postgres:16'', CallCreateContainer exampleConfig]\<rparr>"
    using provision_short_identifier [where h = exampleHeap and q = exampleProvision
        and db = exampleCreated and c = shortIdClient and containerID = "''abc''"
        and s = exampleStore]
    by (simp add: p example_facts(4-7))
  moreover have "Status exampleCreated = ''creating''" by (simp add: exampleCreated_def)
  ultimately show ?thesis
    by (simp add: example_facts(1,3-7) deref_assign [OF example_facts(4)])
qed

section \<open>Backup retention\<close>

lemma DeleteBackup_store:
  "backupsBucket (snd (DeleteBackup s k)) = filter (\<lambda>kv. fst kv \<noteq> k) (backupsBucket s)
   \<and> databasesBucket (snd (DeleteBackup s k)) = databasesBucket s
   \<and> storeDataDir (snd (DeleteBackup s k)) = storeDataDir s"
proof (cases "bucket_Get (backupsBucket s) k")
  case None
  then have "k \<notin> fst ` set (backupsBucket s)"
    by (simp add: bucket_Get_def map_of_eq_None_iff)
  then have "filter (\<lambda>kv. fst kv \<noteq> k) (backupsBucket s) = backupsBucket s"
    by (auto simp: filter_id_conv)
  with None show ?thesis by (simp add: DeleteBackup_def)
next
  case (Some v)
  then show ?thesis
    by (simp add: DeleteBackup_def bucket_Delete_def)
qed

lemma deleteOldBackups_store:
  "backupsBucket (fst (deleteOldBackups s old))
     = filter (\<lambda>kv. fst kv \<notin> backupID ` set old) (backupsBucket s)
   \<and> databasesBucket (fst (deleteOldBackups s old)) = databasesBucket s
   \<and> storeDataDir (fst (deleteOldBackups s old)) = storeDataDir s
   \<and> length (snd (deleteOldBackups s old)) = length old"
proof (induction old arbitrary: s)
  case Nil
  then show ?case by simp
next
  case (Cons b old)
  show ?case
    using Cons.IH [of "snd (DeleteBackup s (backupID b))"] DeleteBackup_store [of s "backupID b"]
    by (auto split: prod.splits option.splits simp: conj_commute)
qed

lemma deleteOldBackups_logs:
  "distinct (map backupID old) \<Longrightarrow> backupID ` set old \<subseteq> fst ` set (backupsBucket s)
   \<Longrightarrow> snd (deleteOldBackups s old) = map (\<lambda>b. LogDeleted (backupID b)) old"
proof (induction old arbitrary: s)
  case Nil
  then show ?case by simp
next
  case (Cons b old)
  let ?s = "snd (DeleteBackup s (backupID b))"
  from Cons.prems have present: "bucket_Get (backupsBucket s) (backupID b) \<noteq> None"
    by (auto simp: bucket_Get_def map_of_eq_None_iff)
  then have ok: "fst (DeleteBackup s (backupID b)) = None"
    by (simp add: DeleteBackup_def)
  have "backupID ` set old \<subseteq> fst ` set (backupsBucket ?s)"
  proof
    fix k assume k: "k \<in> backupID ` set old"
    from Cons.prems(1) have "backupID b \<notin> backupID ` set old" by simp
    with k have "k \<noteq> backupID b" by blast
    moreover from k Cons.prems(2) have "k \<in> fst ` set (backupsBucket s)" by auto
    ultimately have "k \<noteq> backupID b" "k \<in> fst ` set (backupsBucket s)" by simp_all
    then show "k \<in> fst ` set (backupsBucket ?s)"
      using DeleteBackup_store [of s "backupID b"] by auto
  qed
  with Cons.IH [of ?s] Cons.prems have "snd (deleteOldBackups ?s old) = map (\<lambda>b. LogDeleted (backupID b)) old"
    by simp
  with ok show ?case
    by (auto split: prod.splits option.splits)
qed

lemma ListBackups_ids:
  assumes wf: "wfBucket backupID (backupsBucket s)"
  shows "distinct (map backupID (ListBackups s databaseID))"
    and "set (ListBackups s databaseID) \<subseteq> snd ` set (backupsBucket s)"
proof -
  let ?P = "\<lambda>kv. databaseID = [] \<or> backupDatabaseID (snd kv) = databaseID"
  from wf have keys: "\<forall>kv \<in> set (backupsBucket s). backupID (snd kv) = fst kv"
    and dist: "distinct (map fst (backupsBucket s))"
    by (auto simp: wfBucket_def list_all_iff)
  have "map backupID (ListBackups s databaseID) = map fst (filter ?P (backupsBucket s))"
    using keys by (auto simp: ListBackups_def)
  then show "distinct (map backupID (ListBackups s databaseID))"
    using dist by (simp add: distinct_map_filter)
  show "set (ListBackups s databaseID) \<subseteq> snd ` set (backupsBucket s)"
    by (auto simp: ListBackups_def)
qed

lemma stored_backup_in:
  assumes wf: "wfBucket backupID (backupsBucket s)"
    and sub: "set old \<subseteq> snd ` set (backupsBucket s)"
    and kv: "kv \<in> set (backupsBucket s)"
  shows "fst kv \<in> backupID ` set old \<longleftrightarrow> snd kv \<in> set old"
proof
  from wf have keys: "\<forall>kv \<in> set (backupsBucket s). backupID (snd kv) = fst kv"
    and dist: "distinct (map fst (backupsBucket s))"
    by (auto simp: wfBucket_def list_all_iff)
  assume "fst kv \<in> backupID ` set old"
  then obtain d where d: "d \<in> set old" "backupID d = fst kv" by auto
  with sub obtain kv' where kv': "kv' \<in> set (backupsBucket s)" "snd kv' = d" by auto
  with keys d have "fst kv' = fst kv" by auto
  with dist kv kv' have "kv' = kv"
    by (cases kv, cases kv') (auto dest: eq_key_imp_eq_value)
  with kv' d show "snd kv \<in> set old" by simp
next
  from wf have keys: "\<forall>kv \<in> set (backupsBucket s). backupID (snd kv) = fst kv"
    by (auto simp: wfBucket_def list_all_iff)
  assume "snd kv \<in> set old"
  with keys kv show "fst kv \<in> backupID ` set old" by force
qed

lemma retention_prune:
  assumes wf: "wfBucket backupID (backupsBucket s)"
    and srt: "sortedBy newerFirst (ListBackups s databaseID) ordered"
    and n: "n < length ordered"
  shows "backupsBucket (fst (deleteOldBackups s (drop n ordered)))
           = filter (\<lambda>kv. snd kv \<notin> set (drop n ordered)) (backupsBucket s)"
    and "set (ListBackups (fst (deleteOldBackups s (drop n ordered))) databaseID) = set (take n ordered)"
    and "length (ListBackups (fst (deleteOldBackups s (drop n ordered))) databaseID) = n"
    and "\<forall>k \<in> set (take n ordered). \<forall>d \<in> set (drop n ordered). backupCreatedAt d \<le> backupCreatedAt k"
    and "snd (deleteOldBackups s (drop n ordered)) = map (\<lambda>b. LogDeleted (backupID b)) (drop n ordered)"
proof -
  let ?bs = "ListBackups s databaseID"
  let ?D = "drop n ordered"
  let ?K = "take n ordered"
  let ?s' = "fst (deleteOldBackups s ?D)"
  let ?P = "\<lambda>kv. databaseID = [] \<or> backupDatabaseID (snd kv) = databaseID"
  from srt have perm: "mset ordered = mset ?bs"
    and ord: "sorted_wrt (\<lambda>a b. \<not> newerFirst b a) ordered"
    by (simp_all add: sortedBy_def)
  from perm have sets: "set ordered = set ?bs"
    by (rule mset_eq_setD)
  note ids = ListBackups_ids [OF wf, of databaseID]
  from perm have "mset (map backupID ordered) = mset (map backupID ?bs)"
    by simp
  with ids(1) have dist_ids: "distinct (map backupID ordered)"
    by (metis mset_eq_imp_distinct_iff)
  then have dist: "distinct ordered"
    by (simp add: distinct_map)
  from perm dist have dist_bs: "distinct ?bs"
    by (metis mset_eq_imp_distinct_iff)
  have Dsub: "set ?D \<subseteq> snd ` set (backupsBucket s)"
    using set_drop_subset [of n ordered] sets ids(2) by blast
  have split: "set ordered = set ?K \<union> set ?D" "set ?K \<inter> set ?D = {}"
    using dist by (metis append_take_drop_id set_append, metis append_take_drop_id distinct_append)
  show bucket: "backupsBucket ?s' = filter (\<lambda>kv. snd kv \<notin> set ?D) (backupsBucket s)"
  proof -
    have "filter (\<lambda>kv. fst kv \<notin> backupID ` set ?D) (backupsBucket s)
        = filter (\<lambda>kv. snd kv \<notin> set ?D) (backupsBucket s)"
      by (rule filter_cong [OF refl]) (simp add: stored_backup_in [OF wf Dsub])
    with deleteOldBackups_store [of s ?D] show ?thesis by simp
  qed
  have list: "ListBackups ?s' databaseID = filter (\<lambda>b. b \<notin> set ?D) ?bs"
    unfolding ListBackups_def bucket
    by (simp add: filter_map comp_def conj_commute)
  then show kept: "set (ListBackups ?s' databaseID) = set ?K"
    using split sets by auto
  have "distinct (ListBackups ?s' databaseID)"
    unfolding list using dist_bs by simp
  then have "length (ListBackups ?s' databaseID) = card (set ?K)"
    using kept by (metis distinct_card)
  also have "\<dots> = length ?K"
    using dist by (simp add: distinct_card)
  finally show "length (ListBackups ?s' databaseID) = n"
    using n by simp
  from ord have "sorted_wrt (\<lambda>a b. \<not> newerFirst b a) (?K @ ?D)"
    by simp
  then show "\<forall>k \<in> set ?K. \<forall>d \<in> set ?D. backupCreatedAt d \<le> backupCreatedAt k"
    unfolding sorted_wrt_append by (auto simp: newerFirst_def After_def not_less)
  have "distinct (map backupID ?D)"
    using dist_ids by (simp add: drop_map [symmetric])
  moreover have "backupID ` set ?D \<subseteq> fst ` set (backupsBucket s)"
  proof
    fix k assume "k \<in> backupID ` set ?D"
    then obtain d where d: "d \<in> set ?D" "k = backupID d" by auto
    with Dsub obtain kv where kv: "kv \<in> set (backupsBucket s)" "snd kv = d" by auto
    with wf have "backupID d = fst kv"
      by (auto simp: wfBucket_def list_all_iff)
    with d kv show "k \<in> fst ` set (backupsBucket s)" by auto
  qed
  ultimately show "snd (deleteOldBackups s ?D) = map (\<lambda>b. LogDeleted (backupID b)) ?D"
    by (rule deleteOldBackups_logs)
qed

lemma mset_placeBy: "mset (placeBy lessFn x ys) = add_mset x (mset ys)"
  by (induction ys) auto

lemma set_placeBy: "set (placeBy lessFn x ys) = insert x (set ys)"
  by (induction ys) auto

lemma sorted_placeBy:
  "sorted_wrt (\<lambda>a b. \<not> newerFirst b a) ys
   \<Longrightarrow> sorted_wrt (\<lambda>a b. \<not> newerFirst b a) (placeBy newerFirst x ys)"
  by (induction ys) (auto simp: set_placeBy newerFirst_def After_def)

lemma insertionSort_sortedBy: "sortedBy newerFirst xs (insertionSort newerFirst xs)"
  unfolding sortedBy_def insertionSort_def
  by (induction xs) (auto simp: mset_placeBy sorted_placeBy)

text \<open>
  C6.  For a stored database with retention count \<open>N > 0\<close> and more than \<open>N\<close> listed
  backups, \<open>applyRetention\<close> deletes exactly the backups after the first \<open>N\<close> of the
  list sorted by creation time, newest first: \<open>N\<close> backups of the database remain, each
  at least as new as every deleted one; no other backup and no database record is
  touched.  With \<open>N \<le> 0\<close>, with at most \<open>N\<close> backups, or when the database is
  not stored, nothing is deleted.  The deletion loop tries every backup it is given and
  logs one line for each: after it, none of them is stored, whether or not some of the
  deletions failed.
\<close>

theorem applyRetention_prunes:
  "(wfStorage s \<and> GetDatabase s databaseID = Inr db
      \<and> sortedBy newerFirst (ListBackups s databaseID) (sortSlice newerFirst (ListBackups s databaseID))
      \<and> 0 < BackupRetentionCount db
      \<and> nat (BackupRetentionCount db) < length (ListBackups s databaseID)
    \<longrightarrow> (let n = nat (BackupRetentionCount db);
             ordered = sortSlice newerFirst (ListBackups s databaseID);
             s' = fst (applyRetention sortSlice s databaseID)
         in backupsBucket s' = filter (\<lambda>kv. snd kv \<notin> set (drop n ordered)) (backupsBucket s)
            \<and> set (ListBackups s' databaseID) = set (take n ordered)
            \<and> length (ListBackups s' databaseID) = n
            \<and> (\<forall>k \<in> set (take n ordered). \<forall>d \<in> set (drop n ordered).
                  backupCreatedAt d \<le> backupCreatedAt k)
            \<and> snd (applyRetention sortSlice s databaseID)
                = map (\<lambda>b. LogDeleted (backupID b)) (drop n ordered)
            \<and> databasesBucket s' = databasesBucket s))
   \<and> (GetDatabase s databaseID = Inr db
        \<and> (BackupRetentionCount db \<le> 0
            \<or> int (length (ListBackups s databaseID)) \<le> BackupRetentionCount db)
      \<longrightarrow> applyRetention sortSlice s databaseID = (s, []))
   \<and> (GetDatabase s databaseID = Inl err \<longrightarrow> applyRetention sortSlice s databaseID = (s, []))
   \<and> backupsBucket (fst (deleteOldBackups s old))
       = filter (\<lambda>kv. fst kv \<notin> backupID ` set old) (backupsBucket s)
   \<and> length (snd (deleteOldBackups s old)) = length old"
proof -
  let ?bs = "ListBackups s databaseID"
  let ?n = "nat (BackupRetentionCount db)"
  let ?ordered = "sortSlice newerFirst ?bs"
  have prune: "(let n = ?n; ordered = ?ordered; s' = fst (applyRetention sortSlice s databaseID)
         in backupsBucket s' = filter (\<lambda>kv. snd kv \<notin> set (drop n ordered)) (backupsBucket s)
            \<and> set (ListBackups s' databaseID) = set (take n ordered)
            \<and> length (ListBackups s' databaseID) = n
            \<and> (\<forall>k \<in> set (take n ordered). \<forall>d \<in> set (drop n ordered).
                  backupCreatedAt d \<le> backupCreatedAt k)
            \<and> snd (applyRetention sortSlice s databaseID)
                = map (\<lambda>b. LogDeleted (backupID b)) (drop n ordered)
            \<and> databasesBucket s' = databasesBucket s)"
    if wf: "wfStorage s" and db: "GetDatabase s databaseID = Inr db"
      and srt: "sortedBy newerFirst ?bs ?ordered"
      and pos: "0 < BackupRetentionCount db" and more: "?n < length ?bs"
  proof -
    from wf have wfb: "wfBucket backupID (backupsBucket s)"
      by (simp add: wfStorage_def)
    from srt have "length ?ordered = length ?bs"
      unfolding sortedBy_def by (metis size_mset)
    with more have n: "?n < length ?ordered" by simp
    from pos more have "\<not> int (length ?bs) \<le> BackupRetentionCount db"
      by linarith
    with db pos have run: "applyRetention sortSlice s databaseID
        = deleteOldBackups s (drop ?n ?ordered)"
      by (simp add: applyRetention_def Let_def)
    show ?thesis
      unfolding Let_def run
      using retention_prune [OF wfb srt n] deleteOldBackups_store [of s "drop ?n ?ordered"]
      by simp
  qed
  have skip: "applyRetention sortSlice s databaseID = (s, [])"
    if "GetDatabase s databaseID = Inr db"
       "BackupRetentionCount db \<le> 0 \<or> int (length ?bs) \<le> BackupRetentionCount db"
    using that by (auto simp: applyRetention_def Let_def)
  have missing: "applyRetention sortSlice s databaseID = (s, [])"
    if "GetDatabase s databaseID = Inl err"
    using that by (simp add: applyRetention_def)
  from prune skip missing deleteOldBackups_store [of s old]
  show ?thesis by blast
qed

text \<open>
  The example of the specification: retention count 3 and five backups; the three newest
  remain and the two oldest are deleted.
\<close>

lemma example_backups:
  "ListBackups exampleStorage ''db-1a2b3c4d''
   = [exampleBackup ''backup-a'' 30, exampleBackup ''backup-b'' 10, exampleBackup ''backup-c'' 50,
      exampleBackup ''backup-d'' 20, exampleBackup ''backup-e'' 40]"
  by (simp add: ListBackups_def exampleStorage_def exampleBackup_def)

lemma example_sorted:
  "insertionSort newerFirst
     [exampleBackup ''backup-a'' 30, exampleBackup ''backup-b'' 10, exampleBackup ''backup-c'' 50,
      exampleBackup ''backup-d'' 20, exampleBackup ''backup-e'' 40]
   = [exampleBackup ''backup-c'' 50, exampleBackup ''backup-e'' 40, exampleBackup ''backup-a'' 30,
      exampleBackup ''backup-d'' 20, exampleBackup ''backup-b'' 10]"
  by (simp add: insertionSort_def newerFirst_def After_def exampleBackup_def)

theorem applyRetention_prunes_witness:
  "wfStorage exampleStorage \<and> GetDatabase exampleStorage ''db-1a2b3c4d'' = Inr exampleInstance
   \<and> sortedBy newerFirst (ListBackups exampleStorage ''db-1a2b3c4d'')
        (insertionSort newerFirst (ListBackups exampleStorage ''db-1a2b3c4d''))
   \<and> 0 < BackupRetentionCount exampleInstance
   \<and> nat (BackupRetentionCount exampleInstance) < length (ListBackups exampleStorage ''db-1a2b3c4d'')
   \<and> set (ListBackups (fst (applyRetention insertionSort exampleStorage ''db-1a2b3c4d''))
            ''db-1a2b3c4d'')
       = {exampleBackup ''backup-c'' 50, exampleBackup ''backup-e'' 40, exampleBackup ''backup-a'' 30}
   \<and> length (ListBackups (fst (applyRetention insertionSort exampleStorage ''db-1a2b3c4d''))
              ''db-1a2b3c4d'') = 3
   \<and> snd (applyRetention insertionSort exampleStorage ''db-1a2b3c4d'')
       = [LogDeleted ''backup-d'', LogDeleted ''backup-b'']
   \<and> GetDatabase emptyStorage ''db-1a2b3c4d'' = Inl ''database not found: db-1a2b3c4d''
   \<and> applyRetention insertionSort emptyStorage ''db-1a2b3c4d'' = (emptyStorage, [])"
proof -
  have n: "BackupRetentionCount exampleInstance = 3"
    by (simp add: exampleInstance_def)
  have b: "backupID (exampleBackup name created) = name" for name created
    by (simp add: exampleBackup_def)
  note hyps = exampleStorage_wf exampleInstance_lookup
    insertionSort_sortedBy [of "ListBackups exampleStorage ''db-1a2b3c4d''"]
  from applyRetention_prunes [where s = exampleStorage and databaseID = "''db-1a2b3c4d''"
      and db = exampleInstance and sortSlice = insertionSort] hyps
  have kept: "set (ListBackups (fst (applyRetention insertionSort exampleStorage ''db-1a2b3c4d''))
            ''db-1a2b3c4d'')
       = {exampleBackup ''backup-c'' 50, exampleBackup ''backup-e'' 40, exampleBackup ''backup-a'' 30}"
    and count: "length (ListBackups (fst (applyRetention insertionSort exampleStorage ''db-1a2b3c4d''))
              ''db-1a2b3c4d'') = 3"
    and logs: "snd (applyRetention insertionSort exampleStorage ''db-1a2b3c4d'')
       = [LogDeleted ''backup-d'', LogDeleted ''backup-b'']"
    by (simp_all add: n Let_def example_backups example_sorted b)
  from applyRetention_prunes [where s = emptyStorage and databaseID = "''db-1a2b3c4d''"
      and err = "''database not found: db-1a2b3c4d''" and sortSlice = insertionSort]
  have missing: "applyRetention insertionSort emptyStorage ''db-1a2b3c4d'' = (emptyStorage, [])"
    by (simp add: emptyStorage_lookup)
  from hyps kept count logs missing show ?thesis
    by (simp add: n example_backups emptyStorage_lookup)
qed

section \<open>Image-name normalisation\<close>

lemma normalizeImageName_cases:
  "normalizeImageName name =
     (if CHR ''/'' \<in> set name \<and> CHR ''.'' \<in> set (firstSegment name) then name
      else if CHR ''/'' \<notin> set name then ''docker.io/library/'' @ name
      else ''docker.io/'' @ name)"
  by (simp add: normalizeImageName_def strings_Contains_char strings_Split_first firstSegment_def)

lemma firstSegment_docker_io: "firstSegment (''docker.io/'' @ rest) = ''docker.io''"
  by (simp add: firstSegment_def)

lemma normalizeImageName_fullyQualified: "fullyQualified (normalizeImageName name)"
proof (cases "CHR ''/'' \<in> set name \<and> CHR ''.'' \<in> set (firstSegment name)")
  case True
  then show ?thesis by (simp add: normalizeImageName_cases fullyQualified_def)
next
  case False
  have "fullyQualified (''docker.io/'' @ rest)" for rest
    unfolding fullyQualified_def firstSegment_docker_io by simp
  from this [of name] this [of "''library/'' @ name"] False show ?thesis
    by (simp add: normalizeImageName_cases)
qed

text \<open>
  C8.  For every image reference, \<open>normalizeImageName\<close> yields a fully qualified
  reference: a name without a slash gets the prefix \<open>docker.io/library/\<close>; a name with a
  slash whose first path segment has no dot gets the prefix \<open>docker.io/\<close>; a name with a
  slash whose first path segment contains a dot is returned unchanged.  The three
  references of the specification normalise as it says.
\<close>

theorem normalizeImageName_spec:
  "(CHR ''/'' \<notin> set name \<longrightarrow> normalizeImageName name = ''docker.io/library/'' @ name)
   \<and> (CHR ''/'' \<in> set name \<and> CHR ''.'' \<notin> set (firstSegment name)
        \<longrightarrow> normalizeImageName name = ''docker.io/'' @ name)
   \<and> (CHR ''/'' \<in> set name \<and> CHR ''.'' \<in> set (firstSegment name)
        \<longrightarrow> normalizeImageName name = name)
   \<and> fullyQualified (normalizeImageName name)
   \<and> normalizeImageName ''postgres:16'' = ''docker.io/library/postgres:16''
   \<and> normalizeImageName ''myuser/myimage:tag'' = ''docker.io/myuser/myimage:tag''
   \<and> normalizeImageName ''registry.example.com/ns/img:tag'' = ''registry.example.com/ns/img:tag''"
proof -
  have ex: "normalizeImageName ''postgres:16'' = ''docker.io/library/postgres:16''"
    "normalizeImageName ''myuser/myimage:tag'' = ''docker.io/myuser/myimage:tag''"
    "normalizeImageName ''registry.example.com/ns/img:tag'' = ''registry.example.com/ns/img:tag''"
    by (simp_all add: normalizeImageName_cases firstSegment_def)
  show ?thesis
    using ex normalizeImageName_fullyQualified [of name]
    by (simp add: normalizeImageName_cases)
qed

theorem normalizeImageName_spec_witness:
  "CHR ''/'' \<notin> set ''redis:7''
   \<and> normalizeImageName ''redis:7'' = ''docker.io/library/redis:7''
   \<and> CHR ''/'' \<in> set ''bitnami/redis'' \<and> CHR ''.'' \<notin> set (firstSegment ''bitnami/redis'')
   \<and> normalizeImageName ''bitnami/redis'' = ''docker.io/bitnami/redis''
   \<and> CHR ''/'' \<in> set ''ghcr.io/a/b'' \<and> CHR ''.'' \<in> set (firstSegment ''ghcr.io/a/b'')
   \<and> normalizeImageName ''ghcr.io/a/b'' = ''ghcr.io/a/b''"
  using normalizeImageName_spec [of "''redis:7''"] normalizeImageName_spec [of "''bitnami/redis''"]
    normalizeImageName_spec [of "''ghcr.io/a/b''"]
  by (simp add: firstSegment_def)

section \<open>UpdateResources\<close>

text \<open>
  C9.  \<open>UpdateResources\<close> on a stored instance returns and persists the record with
  \<open>MemoryLimit\<close> set when \<open>memoryLimit > 0\<close> and \<open>CPULimit\<close> set when \<open>cpuLimit > 0\<close>;
  every other field, every other record, the backups and the data directory are
  unchanged.  It makes no call to the runtime client, whatever the arguments (so
  \<open>UpdateContainerResources\<close> is never called), and its result does not depend on the
  client.  When the identifier is not stored it returns the lookup error and changes
  nothing.
\<close>

theorem UpdateResources_frame:
  "(wfStorage s \<and> GetDatabase s i = Inr db \<longrightarrow>
     (case UpdateResources c s i memoryLimit cpuLimit of (res, s', calls) \<Rightarrow>
        res = Inr (db\<lparr>MemoryLimit := (if memoryLimit > 0 then memoryLimit else MemoryLimit db),
                      CPULimit := (if cpuLimit > 0 then cpuLimit else CPULimit db)\<rparr>)
        \<and> GetDatabase s' i = res
        \<and> (\<forall>k. k \<noteq> i \<longrightarrow> GetDatabase s' k = GetDatabase s k)
        \<and> backupsBucket s' = backupsBucket s
        \<and> storeDataDir s' = storeDataDir s))
   \<and> (GetDatabase s i = Inl err \<longrightarrow> UpdateResources c s i memoryLimit cpuLimit = (Inl err, s, []))
   \<and> snd (snd (UpdateResources c s i memoryLimit cpuLimit)) = []
   \<and> UpdateResources c2 s i memoryLimit cpuLimit = UpdateResources c s i memoryLimit cpuLimit"
proof -
  have frame: "(case UpdateResources c s i memoryLimit cpuLimit of (res, s', calls) \<Rightarrow>
        res = Inr (db\<lparr>MemoryLimit := (if memoryLimit > 0 then memoryLimit else MemoryLimit db),
                      CPULimit := (if cpuLimit > 0 then cpuLimit else CPULimit db)\<rparr>)
        \<and> GetDatabase s' i = res
        \<and> (\<forall>k. k \<noteq> i \<longrightarrow> GetDatabase s' k = GetDatabase s k)
        \<and> backupsBucket s' = backupsBucket s
        \<and> storeDataDir s' = storeDataDir s)"
    if wf: "wfStorage s" and stored: "GetDatabase s i = Inr db"
  proof -
    from stored have b: "bucket_Get (databasesBucket s) i = Some db"
      by (simp add: GetDatabase_Inr_iff)
    with wf have i: "ID db = i"
      by (auto simp: wfStorage_def dest: wfBucket_key)
    show ?thesis
      using stored b i
      by (auto simp: UpdateResources_def Let_def UpdateDatabase_def GetDatabase_def bucket_Get_Put
          split: prod.splits)
  qed
  have calls: "snd (snd (UpdateResources c s i memoryLimit cpuLimit)) = []"
    by (auto simp: UpdateResources_def Let_def split: sum.splits prod.splits option.splits)
  have indep: "UpdateResources c2 s i memoryLimit cpuLimit = UpdateResources c s i memoryLimit cpuLimit"
    by (simp add: UpdateResources_def)
  have missing: "UpdateResources c s i memoryLimit cpuLimit = (Inl err, s, [])"
    if "GetDatabase s i = Inl err"
    using that by (simp add: UpdateResources_def)
  from frame calls indep missing show ?thesis by simp
qed

theorem UpdateResources_frame_witness:
  "wfStorage exampleStorage \<and> GetDatabase exampleStorage ''db-1a2b3c4d'' = Inr exampleInstance
   \<and> fst (UpdateResources failingClient exampleStorage ''db-1a2b3c4d'' 2048 2)
       = Inr (exampleInstance\<lparr>MemoryLimit := 2048, CPULimit := 2\<rparr>)
   \<and> fst (UpdateResources failingClient exampleStorage ''db-1a2b3c4d'' 0 0)
       = Inr (exampleInstance\<lparr>MemoryLimit := MemoryLimit exampleInstance,
                              CPULimit := CPULimit exampleInstance\<rparr>)
   \<and> snd (snd (UpdateResources failingClient exampleStorage ''db-1a2b3c4d'' 2048 2)) = []
   \<and> GetDatabase emptyStorage ''db-1a2b3c4d'' = Inl ''database not found: db-1a2b3c4d''
   \<and> UpdateResources failingClient emptyStorage ''db-1a2b3c4d'' 2048 2
       = (Inl ''database not found: db-1a2b3c4d'', emptyStorage, [])"
  using UpdateResources_frame [where s = exampleStorage and i = "''db-1a2b3c4d''"
      and db = exampleInstance and c = failingClient and memoryLimit = 2048 and cpuLimit = 2
      and ?c2.0 = failingClient]
    UpdateResources_frame [where s = exampleStorage and i = "''db-1a2b3c4d''"
      and db = exampleInstance and c = failingClient and memoryLimit = 0 and cpuLimit = 0
      and ?c2.0 = failingClient]
    UpdateResources_frame [where s = emptyStorage and i = "''db-1a2b3c4d''"
      and err = "''database not found: db-1a2b3c4d''" and c = failingClient
      and memoryLimit = 2048 and cpuLimit = 2 and ?c2.0 = failingClient]
  by (auto simp: exampleStorage_wf exampleInstance_lookup emptyStorage_lookup split: prod.splits)

section \<open>Floating point and \<open>parseBytes\<close>\<close>

lemma pow2_powi: "pow2 e = 2 powi e"
  by (simp add: pow2_def power_int_def inverse_eq_divide power_one_over)

lemma pow2_pos: "0 < pow2 e"
  by (simp add: pow2_powi)

lemma pow2_add: "pow2 (a + b) = pow2 a * pow2 b"
  by (simp add: pow2_powi power_int_add)

lemma pow2_less_iff: "pow2 a < pow2 b \<longleftrightarrow> a < b"
proof
  assume l: "pow2 a < pow2 b"
  show "a < b"
  proof (rule ccontr)
    assume "\<not> a < b"
    then have "b \<le> a" by simp
    then have "pow2 b \<le> pow2 a" unfolding pow2_powi by (rule power_int_increasing) simp
    with l show False by simp
  qed
next
  assume "a < b"
  then show "pow2 a < pow2 b" unfolding pow2_powi by (rule power_int_strict_increasing) simp
qed

lemma pow2_mono_iff: "pow2 a \<le> pow2 b \<longleftrightarrow> a \<le> b"
  using pow2_less_iff [of b a] by (simp add: not_less [symmetric] del: not_less)

lemma pow2_nat: "pow2 (int k) = 2 ^ k"
  by (simp add: pow2_def)

lemma bitLength_bounds: "0 < n \<Longrightarrow> 2 ^ (bitLength n - 1) \<le> n \<and> n < 2 ^ bitLength n"
proof (induction n rule: bitLength.induct)
  case (1 n)
  show ?case
  proof (cases "n div 2 = 0")
    case True
    with 1(2) have "n = 1" by (simp add: div_eq_0_iff) 
    then show ?thesis by (simp add: bitLength.simps [of "Suc 0"] bitLength.simps [of 0])
  next
    case False
    with 1 have ih: "2 ^ (bitLength (n div 2) - 1) \<le> n div 2" "n div 2 < 2 ^ bitLength (n div 2)"
      by auto
    have pos: "0 < bitLength (n div 2)" using False by (simp add: bitLength.simps [of "n div 2"])
    have bl: "bitLength n = Suc (bitLength (n div 2))" using 1(2) by (simp add: bitLength.simps [of n])
    have "2 * 2 ^ (bitLength (n div 2) - 1) \<le> n" using ih(1) by linarith
    moreover have "2 * 2 ^ (bitLength (n div 2) - 1) = (2::nat) ^ bitLength (n div 2)"
      using pos by (cases "bitLength (n div 2)") auto
    moreover have "n < 2 * 2 ^ bitLength (n div 2)" using ih(2) by linarith
    ultimately show ?thesis by (simp add: bl)
  qed
qed

lemma binaryExponent_le:
  assumes "0 < x"
  shows "pow2 (binaryExponent x) \<le> x"
proof -
  obtain a b where q: "quotient_of x = (a, b)" by (cases "quotient_of x")
  have b: "0 < b" using q by (rule quotient_of_denom_pos)
  have x: "x = of_int a / of_int b" using q by (rule quotient_of_div)
  have a: "0 < a" using assms b x by (simp add: zero_less_divide_iff)
  define e where "e = int (bitLength (nat a)) - int (bitLength (nat b))"
  have be: "binaryExponent x = (if pow2 e \<le> x then e else e - 1)"
    by (simp add: binaryExponent_def q e_def Let_def)
  show ?thesis
  proof (cases "pow2 e \<le> x")
    case True
    then show ?thesis by (simp add: be)
  next
    case False
    have la: "2 ^ (bitLength (nat a) - 1) \<le> nat a" using bitLength_bounds [of "nat a"] a by simp
    have lb: "nat b < 2 ^ bitLength (nat b)" using bitLength_bounds [of "nat b"] b by simp
    have pa: "0 < bitLength (nat a)" using a by (simp add: bitLength.simps [of "nat a"])
    have "(2::rat) ^ (bitLength (nat a) - 1) \<le> of_nat (nat a)"
      using la by (metis of_nat_le_iff of_nat_numeral of_nat_power)
    then have ra: "pow2 (int (bitLength (nat a)) - 1) \<le> of_int a"
      using a pa by (simp add: pow2_nat [symmetric] of_nat_diff)
    have "of_nat (nat b) < (2::rat) ^ bitLength (nat b)"
      using lb by (metis of_nat_less_iff of_nat_numeral of_nat_power)
    then have rb: "of_int b < pow2 (int (bitLength (nat b)))"
      using b by (simp add: pow2_nat)
    have "pow2 (e - 1) * of_int b \<le> pow2 (e - 1) * pow2 (int (bitLength (nat b)))"
      using rb pow2_pos [of "e - 1"] by (simp add: less_imp_le)
    also have "\<dots> = pow2 (int (bitLength (nat a)) - 1)"
      by (simp add: pow2_add [symmetric] e_def)
    also have "\<dots> \<le> of_int a" by (rule ra)
    finally have "pow2 (e - 1) \<le> of_int a / of_int b"
      using b by (simp add: pos_le_divide_eq)
    then have "pow2 (e - 1) \<le> x" by (simp only: x)
    then show ?thesis using False by (simp add: be)
  qed
qed

lemma roundHalfEven_int: "roundHalfEven (of_int z) = z"
  by (simp add: roundHalfEven_def)

lemma roundFloat64_exact:
  assumes a: "0 < a" "a < 2 ^ 53" and e: "- 1074 \<le> e" "e \<le> 971"
  shows "roundFloat64 (of_nat a * pow2 e) = Some (of_nat a * pow2 e)"
proof -
  define x where "x = of_nat a * pow2 e"
  have xpos: "0 < x" using a pow2_pos [of e] by (simp add: x_def)
  have "of_nat a < (2::rat) ^ 53" using a(2) by (metis of_nat_less_iff of_nat_numeral of_nat_power)
  then have "x < pow2 53 * pow2 e" using pow2_pos [of e] by (simp add: x_def pow2_def)
  then have xlt: "x < pow2 (53 + e)" by (simp add: pow2_add)
  have "pow2 (binaryExponent x) < pow2 (53 + e)"
    using binaryExponent_le [OF xpos] xlt by simp
  then have be: "binaryExponent x - 52 \<le> e" by (simp add: pow2_less_iff)
  define q where "q = max (binaryExponent x - 52) (- 1074)"
  have qe: "q \<le> e" using be e by (simp add: q_def)
  have "pow2 e = pow2 (int (nat (e - q)) + q)" using qe by simp
  then have "pow2 e = 2 ^ nat (e - q) * pow2 q" by (simp only: pow2_add pow2_nat)
  then have xq: "x / pow2 q = of_int (int a * 2 ^ nat (e - q))"
    using pow2_pos [of q] by (simp add: x_def)
  have r: "of_int (roundHalfEven (x / pow2 q)) * pow2 q = x"
    unfolding xq roundHalfEven_int using xq pow2_pos [of q] by (simp add: field_simps)
  have "x < pow2 1024" using xlt e pow2_mono_iff [of "53 + e" 1024] by simp
  then show ?thesis
    using xpos r unfolding x_def [symmetric]
    by (simp add: roundFloat64_def Let_def q_def [symmetric] del: of_int_mult of_int_power)
qed


lemma binaryExponent_less:
  assumes "0 < x"
  shows "x < pow2 (binaryExponent x + 1)"
proof -
  obtain a b where q: "quotient_of x = (a, b)" by (cases "quotient_of x")
  have b: "0 < b" using q by (rule quotient_of_denom_pos)
  have x: "x = of_int a / of_int b" using q by (rule quotient_of_div)
  have a: "0 < a" using assms b x by (simp add: zero_less_divide_iff)
  define e where "e = int (bitLength (nat a)) - int (bitLength (nat b))"
  have be: "binaryExponent x = (if pow2 e \<le> x then e else e - 1)"
    by (simp add: binaryExponent_def q e_def Let_def)
  show ?thesis
  proof (cases "pow2 e \<le> x")
    case False
    then show ?thesis by (simp add: be)
  next
    case True
    have la: "nat a < 2 ^ bitLength (nat a)" using bitLength_bounds [of "nat a"] a by simp
    have lb: "2 ^ (bitLength (nat b) - 1) \<le> nat b" using bitLength_bounds [of "nat b"] b by simp
    have pb: "0 < bitLength (nat b)" using b by (simp add: bitLength.simps [of "nat b"])
    have "of_nat (nat a) < (2::rat) ^ bitLength (nat a)"
      using la by (metis of_nat_less_iff of_nat_numeral of_nat_power)
    then have ra: "of_int a < pow2 (int (bitLength (nat a)))"
      using a by (simp add: pow2_nat)
    have "(2::rat) ^ (bitLength (nat b) - 1) \<le> of_nat (nat b)"
      using lb by (metis of_nat_le_iff of_nat_numeral of_nat_power)
    then have rb: "pow2 (int (bitLength (nat b)) - 1) \<le> of_int b"
      using b pb by (simp add: pow2_nat [symmetric] of_nat_diff)
    have "of_int a < pow2 (int (bitLength (nat a)))" by (rule ra)
    also have "\<dots> = pow2 (e + 1) * pow2 (int (bitLength (nat b)) - 1)"
      by (simp add: pow2_add [symmetric] e_def)
    also have "\<dots> \<le> pow2 (e + 1) * of_int b"
      using rb pow2_pos [of "e + 1"] by simp
    finally have "of_int a / of_int b < pow2 (e + 1)"
      using b by (simp add: pos_divide_less_eq)
    then have "x < pow2 (e + 1)" by (simp only: x)
    then show ?thesis using True by (simp add: be)
  qed
qed

lemma roundHalfEven_bounds: "\<lfloor>x\<rfloor> \<le> roundHalfEven x \<and> roundHalfEven x \<le> \<lfloor>x\<rfloor> + 1"
  by (simp add: roundHalfEven_def Let_def)

lemma roundFloat64_representable:
  assumes x: "0 \<le> x" and r: "roundFloat64 x = Some v"
  shows "\<exists>a e. a < 2 ^ 53 \<and> - 1074 \<le> e \<and> v = of_nat a * pow2 e"
proof (cases "x = 0")
  case True
  with r have "v = of_nat 0 * pow2 0" by (simp add: roundFloat64_def)
  then show ?thesis by (intro exI [of _ 0] exI [of _ "0::int"]) simp
next
  case False
  with x have xpos: "0 < x" by simp
  define q where "q = max (binaryExponent x - 52) (- 1074)"
  define k where "k = roundHalfEven (x / pow2 q)"
  have v: "v = of_int k * pow2 q"
    using r xpos by (simp add: roundFloat64_def Let_def q_def [symmetric] k_def [symmetric] split: if_splits)
  have "x < pow2 (binaryExponent x + 1)" using xpos by (rule binaryExponent_less)
  also have "\<dots> \<le> pow2 (53 + q)" by (simp add: pow2_mono_iff q_def)
  finally have "x < pow2 (int 53) * pow2 q" by (simp add: pow2_add)
  then have "x < 2 ^ 53 * pow2 q" by (simp only: pow2_nat)
  then have lt: "x / pow2 q < 2 ^ 53" using pow2_pos [of q] by (simp add: pos_divide_less_eq)
  have ge: "0 \<le> x / pow2 q" using xpos pow2_pos [of q] by simp
  have "\<lfloor>x / pow2 q\<rfloor> < (2::int) ^ 53" using lt by (subst floor_less_iff) simp
  then have kle: "k \<le> 2 ^ 53"
    using roundHalfEven_bounds [of "x / pow2 q"] unfolding k_def by linarith
  have "0 \<le> \<lfloor>x / pow2 q\<rfloor>" using ge by (subst zero_le_floor)
  then have kge: "0 \<le> k"
    using roundHalfEven_bounds [of "x / pow2 q"] unfolding k_def by linarith
  have qge: "- 1074 \<le> q" by (simp add: q_def)
  show ?thesis
  proof (cases "k = 2 ^ 53")
    case True
    have "pow2 (q + 1) = pow2 q * pow2 (int 1)" by (simp only: pow2_add of_nat_1)
    then have "pow2 (q + 1) = pow2 q * 2" by (simp only: pow2_nat power_one_right)
    then have "v = of_nat (2 ^ 52) * pow2 (q + 1)" by (simp add: v True)
    moreover have "(2::nat) ^ 52 < 2 ^ 53" by simp
    moreover have "- 1074 \<le> q + 1" using qge by simp
    ultimately show ?thesis by blast
  next
    case False
    with kle have "k < 2 ^ 53" by simp
    then have "nat k < 2 ^ 53" using kge by (simp add: nat_less_iff)
    moreover have "v = of_nat (nat k) * pow2 q" using kge by (simp add: v)
    ultimately show ?thesis using qge by blast
  qed
qed

lemma roundFloat64_nonneg:
  assumes "0 \<le> x" "roundFloat64 x = Some v"
  shows "0 \<le> v"
proof -
  obtain a e where "v = of_nat a * pow2 e" using roundFloat64_representable [OF assms] by blast
  then show ?thesis using pow2_pos [of e] by simp
qed

lemma float64_mul_pow2:
  assumes x: "0 \<le> x" and r: "roundFloat64 x = Some v" and lt: "v * 2 ^ j < 2 ^ 63"
  shows "float64_mul v (2 ^ j) = Some (v * 2 ^ j)"
proof -
  obtain a e where a: "a < 2 ^ 53" and e: "- 1074 \<le> e" and v: "v = of_nat a * pow2 e"
    using roundFloat64_representable [OF x r] by blast
  show ?thesis
  proof (cases "a = 0")
    case True
    then show ?thesis by (simp add: v float64_mul_def roundFloat64_def)
  next
    case False
    have vj: "v * 2 ^ j = of_nat a * pow2 (e + int j)" by (simp add: v pow2_add pow2_nat)
    have "1 * pow2 (e + int j) \<le> of_nat a * pow2 (e + int j)"
      using False pow2_pos [of "e + int j"] by (intro mult_right_mono) auto
    then have "pow2 (e + int j) < pow2 63" using lt by (simp add: vj pow2_def)
    then have "e + int j < 63" by (simp add: pow2_less_iff)
    then have "roundFloat64 (of_nat a * pow2 (e + int j)) = Some (of_nat a * pow2 (e + int j))"
      using False a e by (intro roundFloat64_exact) auto
    then show ?thesis by (simp add: float64_mul_def vj)
  qed
qed


lemma binaryExponent_unique:
  assumes "pow2 e \<le> x" "x < pow2 (e + 1)"
  shows "binaryExponent x = e"
proof -
  have xpos: "0 < x" using assms(1) pow2_pos [of e] by simp
  have "pow2 (binaryExponent x) < pow2 (e + 1)"
    using binaryExponent_le [OF xpos] assms(2) by simp
  moreover have "pow2 e < pow2 (binaryExponent x + 1)"
    using binaryExponent_less [OF xpos] assms(1) by simp
  ultimately show ?thesis by (simp add: pow2_less_iff)
qed

lemma digitsValue_nonneg_rat: "0 \<le> (of_nat (digitsValue ds) :: rat)"
  by simp

lemma decimalValue_nonneg: "decimalValue s = Some q \<Longrightarrow> 0 \<le> q"
  by (auto simp: decimalValue_def Let_def split: list.splits if_splits)

lemma strconv_ParseFloat_Some:
  assumes "strconv_ParseFloat s = Some v"
  shows "\<exists>q. 0 \<le> q \<and> roundFloat64 q = Some v"
  using assms decimalValue_nonneg [of s]
  by (auto simp: strconv_ParseFloat_def split: option.splits)

lemma unitMultiplier_pow2: "\<exists>j. unitMultiplier u = 2 ^ j"
proof -
  have "unitMultiplier u = 2 ^ 0 \<or> unitMultiplier u = 2 ^ 10 \<or> unitMultiplier u = 2 ^ 20
        \<or> unitMultiplier u = 2 ^ 30 \<or> unitMultiplier u = 2 ^ 40"
    by (simp add: unitMultiplier_def)
  then show ?thesis by blast
qed

lemma unitMultiplier_spec:
  "unitMultiplier u = (case specMultiplier u of Some m \<Rightarrow> m | None \<Rightarrow> 1)"
  by (simp add: unitMultiplier_def specMultiplier_def)

lemma matchNumberUnit_dashes: "matchNumberUnit ''--'' = None"
  by (simp add: matchNumberUnit_def isNumberChar_def isDigit_def)

lemma matchNumberUnit_empty: "matchNumberUnit [] = None"
  by (simp add: matchNumberUnit_def)

lemma parseBytes_no_match:
  "matchNumberUnit (strings_TrimSpace s) = None \<Longrightarrow> parseBytes oor s = 0"
  by (simp add: parseBytes_def Let_def)

lemma parseBytes_matched:
  assumes "matchNumberUnit (strings_TrimSpace s) = Some (number, unit)"
  shows "parseBytes oor s =
         (case strconv_ParseFloat number of
            None \<Rightarrow> 0
          | Some v \<Rightarrow> int64_of_float64 oor (float64_mul v (unitMultiplier (strings_ToLower unit))))"
proof -
  have "strings_TrimSpace s \<noteq> []" "strings_TrimSpace s \<noteq> ''--''"
    using assms matchNumberUnit_dashes matchNumberUnit_empty by auto
  then show ?thesis using assms by (simp add: parseBytes_def Let_def)
qed

lemma parseBytes_product:
  assumes m: "matchNumberUnit (strings_TrimSpace s) = Some (number, unit)"
    and v: "strconv_ParseFloat number = Some v"
    and lt: "v * unitMultiplier (strings_ToLower unit) < 2 ^ 63"
  shows "parseBytes oor s = \<lfloor>v * unitMultiplier (strings_ToLower unit)\<rfloor>"
proof -
  obtain q where q: "0 \<le> q" "roundFloat64 q = Some v"
    using strconv_ParseFloat_Some [OF v] by blast
  obtain j where j: "unitMultiplier (strings_ToLower unit) = 2 ^ j"
    using unitMultiplier_pow2 by blast
  define p where "p = v * 2 ^ j"
  have mul: "float64_mul v (2 ^ j) = Some p"
    using lt unfolding j p_def by (rule float64_mul_pow2 [OF q])
  have "0 \<le> v" using q by (rule roundFloat64_nonneg)
  then have p0: "0 \<le> p" by (simp add: p_def)
  have p63: "p < 2 ^ 63" using lt by (simp add: j p_def)
  have "\<lfloor>p\<rfloor> < (2::int) ^ 63" using p63 by (subst floor_less_iff) simp
  moreover have "0 \<le> \<lfloor>p\<rfloor>" using p0 by (subst zero_le_floor)
  ultimately have "int64_of_float64 oor (Some p) = \<lfloor>p\<rfloor>"
    using p0 by (simp add: int64_of_float64_def float64_trunc_def)
  then show ?thesis
    using mul by (simp add: parseBytes_matched [OF m] v j p_def)
qed

lemma parseBytes_out_of_range:
  assumes m: "matchNumberUnit (strings_TrimSpace s) = Some (number, unit)"
    and v: "strconv_ParseFloat number = Some v"
    and p: "float64_mul v (unitMultiplier (strings_ToLower unit)) = Some p"
    and ge: "2 ^ 63 \<le> p"
  shows "parseBytes oor s = oor"
proof -
  have "(2::int) ^ 63 \<le> \<lfloor>p\<rfloor>" using ge by (subst le_floor_iff) simp
  moreover have "0 \<le> p" using ge by (rule order_trans [rotated]) simp
  ultimately show ?thesis
    by (simp add: parseBytes_matched [OF m] v p int64_of_float64_def float64_trunc_def)
qed

lemma roundFloat64_nat:
  assumes "n < 2 ^ 53"
  shows "roundFloat64 (of_nat n) = Some (of_nat n)"
proof (cases "n = 0")
  case True
  then show ?thesis by (simp add: roundFloat64_def)
next
  case False
  then have "roundFloat64 (of_nat n * pow2 0) = Some (of_nat n * pow2 0)"
    using assms by (intro roundFloat64_exact) auto
  then show ?thesis by (simp add: pow2_def)
qed

lemma takeWhile_none: "list_all (\<lambda>x. \<not> P x) xs \<Longrightarrow> takeWhile P xs = []"
  by (cases xs) auto

lemma dropWhile_none: "list_all (\<lambda>x. \<not> P x) xs \<Longrightarrow> dropWhile P xs = xs"
  by (cases xs) auto

lemma takeWhile_all: "list_all P xs \<Longrightarrow> list_all (\<lambda>x. \<not> P x) ys \<Longrightarrow> takeWhile P (xs @ ys) = xs"
  by (induction xs) (auto simp: takeWhile_none)

lemma dropWhile_all: "list_all P xs \<Longrightarrow> list_all (\<lambda>x. \<not> P x) ys \<Longrightarrow> dropWhile P (xs @ ys) = ys"
  by (induction xs) (auto simp: dropWhile_none)

lemma dropWhile_head: "list_all P xs \<Longrightarrow> ys \<noteq> [] \<Longrightarrow> \<not> P (hd ys) \<Longrightarrow> dropWhile P (xs @ ys) = ys"
  by (induction xs) (auto simp: neq_Nil_conv)

lemma takeWhile_head: "list_all P xs \<Longrightarrow> ys \<noteq> [] \<Longrightarrow> \<not> P (hd ys) \<Longrightarrow> takeWhile P (xs @ ys) = xs"
  by (induction xs) (auto simp: neq_Nil_conv)

lemma class_disjoint:
  "isDigit c \<Longrightarrow> isNumberChar c"
  "isRegexpSpace c \<Longrightarrow> \<not> isNumberChar c"
  "isLetter c \<Longrightarrow> \<not> isNumberChar c"
  "isLetter c \<Longrightarrow> \<not> isRegexpSpace c"
  "isNumberChar c \<Longrightarrow> \<not> asciiSpace c"
  "isLetter c \<Longrightarrow> \<not> asciiSpace c"
  "isDigit c \<Longrightarrow> c \<noteq> CHR ''.''"
  by (auto simp: isDigit_def isNumberChar_def isRegexpSpace_def isLetter_def isUpper_def
      isLower_def asciiSpace_def less_eq_char_def)

lemma matchNumberUnit_shape:
  assumes n: "list_all isNumberChar n" "n \<noteq> []"
    and ws: "list_all isRegexpSpace ws"
    and u: "list_all isLetter u" "u \<noteq> []"
  shows "matchNumberUnit (n @ ws @ u) = Some (n, u)"
proof -
  have rest: "list_all (\<lambda>c. \<not> isNumberChar c) (ws @ u)"
    using ws u(1) by (auto simp: list_all_iff class_disjoint)
  have t: "takeWhile isNumberChar (n @ ws @ u) = n"
    using n(1) rest by (rule takeWhile_all)
  have d: "dropWhile isNumberChar (n @ ws @ u) = ws @ u"
    using n(1) rest by (rule dropWhile_all)
  have "\<not> isRegexpSpace (hd u)" using u by (cases u) (auto simp: class_disjoint)
  then have d2: "dropWhile isRegexpSpace (ws @ u) = u"
    using ws u(2) by (intro dropWhile_head)
  show ?thesis using n(2) u by (simp add: matchNumberUnit_def t d d2)
qed

lemma matchNumberUnit_Some:
  assumes "matchNumberUnit t = Some (n, u)"
  shows "\<exists>ws. t = n @ ws @ u \<and> list_all isNumberChar n \<and> n \<noteq> []
           \<and> list_all isRegexpSpace ws \<and> list_all isLetter u \<and> u \<noteq> []"
proof -
  define ws where "ws = takeWhile isRegexpSpace (dropWhile isNumberChar t)"
  have n: "n = takeWhile isNumberChar t" and u: "u = dropWhile isRegexpSpace (dropWhile isNumberChar t)"
    and ne: "n \<noteq> []" "u \<noteq> []" and l: "list_all isLetter u"
    using assms by (auto simp: matchNumberUnit_def Let_def split: if_splits)
  have "t = takeWhile isNumberChar t @ dropWhile isNumberChar t" by simp
  also have "dropWhile isNumberChar t = ws @ u" by (simp add: ws_def u)
  finally have "t = n @ ws @ u" by (simp add: n)
  moreover have "list_all isNumberChar n" by (auto simp: n list_all_iff dest: set_takeWhileD)
  moreover have "list_all isRegexpSpace ws" by (auto simp: ws_def list_all_iff dest: set_takeWhileD)
  ultimately show ?thesis using ne l by blast
qed

lemma decimalValue_shape:
  assumes "list_all isDigit ip" "list_all isDigit fp" "ip \<noteq> [] \<or> fp \<noteq> []"
    and "point = ''.'' \<or> point = [] \<and> fp = []"
  shows "decimalValue (ip @ point @ fp) = Some (specValue ip fp)"
proof (cases "point = ''.''")
  case True
  have t: "takeWhile isDigit (ip @ CHR ''.'' # fp) = ip"
    using assms(1) by (intro takeWhile_head) (auto simp: isDigit_def)
  have d: "dropWhile isDigit (ip @ CHR ''.'' # fp) = CHR ''.'' # fp"
    using assms(1) by (intro dropWhile_head) (auto simp: isDigit_def)
  show ?thesis using assms(2,3) by (simp add: True decimalValue_def t d specValue_def)
next
  case False
  with assms(4) have p: "point = []" "fp = []" by auto
  with assms(3) have "ip \<noteq> []" by simp
  moreover have td: "takeWhile isDigit ip = ip" "dropWhile isDigit ip = []"
    using assms(1) by (auto simp: list_all_iff)
  ultimately show ?thesis by (simp add: p decimalValue_def specValue_def td)
qed

lemma decimalValue_Some:
  assumes "decimalValue n = Some q"
  shows "\<exists>ip point fp. n = ip @ point @ fp \<and> list_all isDigit ip \<and> list_all isDigit fp
           \<and> (ip \<noteq> [] \<or> fp \<noteq> []) \<and> (point = ''.'' \<or> point = [] \<and> fp = [])
           \<and> q = specValue ip fp"
proof -
  define ip where "ip = takeWhile isDigit n"
  define rest where "rest = dropWhile isDigit n"
  have n: "n = ip @ rest" by (simp add: ip_def rest_def)
  have ipd: "list_all isDigit ip" by (auto simp: ip_def list_all_iff dest: set_takeWhileD)
  show ?thesis
  proof (cases rest)
    case Nil
    then have "ip \<noteq> []" "q = specValue ip []"
      using assms by (auto simp: decimalValue_def Let_def ip_def [symmetric] rest_def [symmetric]
          specValue_def split: if_splits)
    then show ?thesis using n Nil ipd
      by (intro exI [of _ ip] exI [of _ "[]"]) simp
  next
    case (Cons c fp)
    then have "c = CHR ''.''" "list_all isDigit fp" "ip \<noteq> [] \<or> fp \<noteq> []" "q = specValue ip fp"
      using assms by (auto simp: decimalValue_def Let_def ip_def [symmetric] rest_def [symmetric]
          specValue_def split: if_splits)
    then show ?thesis using n Cons ipd
      by (intro exI [of _ ip] exI [of _ "''.''"] exI [of _ fp]) simp
  qed
qed


lemma spaceWidth_ascii: "asciiSpace c \<Longrightarrow> spaceWidth (c # cs) = 1"
  by (simp add: spaceWidth_def)

lemma unicodeSpaces_bytes:
  "u \<in> set unicodeSpaces \<Longrightarrow>
   u \<noteq> [] \<and> 128 \<le> (of_char (hd u) :: nat) \<and> 128 \<le> (of_char (last u) :: nat)"
  unfolding unicodeSpaces_def by (elim set_ConsD [elim_format] disjE; simp)

lemma hasPrefix_hd: "strings_HasPrefix (c # cs) u \<Longrightarrow> u \<noteq> [] \<Longrightarrow> hd u = c"
  by (cases u) (simp_all add: strings_HasPrefix_def)

lemma ascii_chars:
  "isNumberChar c \<Longrightarrow> (of_char c :: nat) < 128"
  "isLetter c \<Longrightarrow> (of_char c :: nat) < 128"
  by (auto simp: isNumberChar_def isDigit_def isLetter_def isUpper_def isLower_def less_eq_char_def)

lemma no_unicodeSpace_prefix:
  "(of_char c :: nat) < 128 \<Longrightarrow> filter (\<lambda>u. strings_HasPrefix (c # cs) u) unicodeSpaces = []"
proof -
  assume c: "(of_char c :: nat) < 128"
  have "\<not> strings_HasPrefix (c # cs) u" if "u \<in> set unicodeSpaces" for u
  proof
    assume "strings_HasPrefix (c # cs) u"
    then have "hd u = c" using unicodeSpaces_bytes [OF that] by (intro hasPrefix_hd) simp_all
    then show False using unicodeSpaces_bytes [OF that] c by simp
  qed
  then show ?thesis by (simp add: filter_empty_conv)
qed

lemma no_unicodeSpace_suffix:
  "(of_char c :: nat) < 128 \<Longrightarrow> filter (\<lambda>u. strings_HasPrefix (c # cs) (rev u)) unicodeSpaces = []"
proof -
  assume c: "(of_char c :: nat) < 128"
  have "\<not> strings_HasPrefix (c # cs) (rev u)" if "u \<in> set unicodeSpaces" for u
  proof
    assume "strings_HasPrefix (c # cs) (rev u)"
    then have "hd (rev u) = c" using unicodeSpaces_bytes [OF that] by (intro hasPrefix_hd) simp_all
    then have "last u = c" using unicodeSpaces_bytes [OF that] by (simp add: hd_rev)
    then show False using unicodeSpaces_bytes [OF that] c by simp
  qed
  then show ?thesis by (simp add: filter_empty_conv)
qed

lemma spaceWidth_number: "isNumberChar c \<Longrightarrow> spaceWidth (c # cs) = 0"
  by (simp add: spaceWidth_def class_disjoint no_unicodeSpace_prefix ascii_chars)

lemma spaceWidthRight_ascii: "asciiSpace c \<Longrightarrow> spaceWidthRight (cs @ [c]) = 1"
  by (simp add: spaceWidthRight_def)

lemma spaceWidthRight_letter: "isLetter c \<Longrightarrow> spaceWidthRight (cs @ [c]) = 0"
  by (simp add: spaceWidthRight_def class_disjoint no_unicodeSpace_suffix ascii_chars)

lemma trimLeft_spaces:
  assumes "list_all asciiSpace pre" "spaceWidth t = 0"
  shows "trimLeft (pre @ t) = t"
  using assms(1)
proof (induction pre)
  case Nil
  show ?case using assms(2) by (simp add: trimLeft.simps [of t])
next
  case (Cons c pre)
  then show ?case
    by (simp add: trimLeft.simps [of "c # pre @ t"] spaceWidth_ascii)
qed

lemma trimRight_spaces:
  assumes "list_all asciiSpace post" "spaceWidthRight t = 0"
  shows "trimRight (t @ post) = t"
  using assms(1)
proof (induction post rule: rev_induct)
  case Nil
  show ?case using assms(2) by (simp add: trimRight.simps [of t])
next
  case (snoc c post)
  have w: "spaceWidthRight (t @ post @ [c]) = 1"
    using snoc.prems spaceWidthRight_ascii [of c "t @ post"] by simp
  have "trimRight (t @ post @ [c])
        = trimRight (take (length (t @ post @ [c]) - spaceWidthRight (t @ post @ [c])) (t @ post @ [c]))"
    by (subst trimRight.simps) (simp add: w)
  also have "\<dots> = trimRight (t @ post)" by (simp add: w)
  finally show ?case using snoc by simp
qed

lemma strings_TrimSpace_core:
  assumes "list_all asciiSpace pre" "list_all asciiSpace post"
    and "isNumberChar c" "isLetter l"
  shows "strings_TrimSpace (pre @ (c # mid @ [l]) @ post) = c # mid @ [l]"
proof -
  have "trimLeft (pre @ ((c # mid @ [l]) @ post)) = (c # mid @ [l]) @ post"
    using assms(1) by (rule trimLeft_spaces) (simp add: spaceWidth_number assms(3))
  moreover have "trimRight ((c # mid @ [l]) @ post) = c # mid @ [l]"
    using assms(2) spaceWidthRight_letter [OF assms(4), of "c # mid"] by (intro trimRight_spaces) simp_all
  ultimately show ?thesis by (simp add: strings_TrimSpace_def)
qed

lemma strings_TrimSpace_grammar:
  assumes "list_all asciiSpace pre" "list_all asciiSpace post"
    and g: "specGrammar ip point fp ws unit"
  shows "strings_TrimSpace (pre @ ip @ point @ fp @ ws @ unit @ post) = ip @ point @ fp @ ws @ unit"
proof -
  have n: "ip @ point @ fp \<noteq> []" "list_all isNumberChar (ip @ point @ fp)"
    using g by (auto simp: specGrammar_def list_all_iff class_disjoint isNumberChar_def)
  then obtain c cs where c: "ip @ point @ fp = c # cs" "isNumberChar c"
    by (cases "ip @ point @ fp") auto
  have "unit \<noteq> []" "list_all isLetter unit" using g by (auto simp: specGrammar_def)
  then obtain us l where l: "unit = us @ [l]" "isLetter l"
    by (cases unit rule: rev_cases) auto
  have "(ip @ point @ fp) @ ws @ unit = (c # cs) @ ws @ (us @ [l])" by (simp only: c(1) l(1))
  then have e: "ip @ point @ fp @ ws @ unit = c # (cs @ ws @ us) @ [l]" by simp
  have "strings_TrimSpace (pre @ (ip @ point @ fp @ ws @ unit) @ post) = ip @ point @ fp @ ws @ unit"
    unfolding e using assms(1,2) c(2) l(2) by (rule strings_TrimSpace_core)
  then show ?thesis by simp
qed

lemma roundHalfEven_ge_int: "of_int z \<le> x \<Longrightarrow> z \<le> roundHalfEven x"
proof -
  assume "of_int z \<le> x"
  then have "z \<le> \<lfloor>x\<rfloor>" by (simp add: le_floor_iff)
  then show ?thesis using roundHalfEven_bounds [of x] by linarith
qed

lemma roundFloat64_lower:
  assumes e: "- 1022 \<le> e" and x: "pow2 e \<le> x"
  shows "(roundFloat64 x = None \<or> (\<exists>p. roundFloat64 x = Some p \<and> pow2 e \<le> p))"
proof -
  have xpos: "0 < x" using x pow2_pos [of e] by simp
  define b where "b = binaryExponent x"
  have "pow2 e < pow2 (b + 1)" using x binaryExponent_less [OF xpos] by (simp add: b_def)
  then have eb: "e \<le> b" by (simp add: pow2_less_iff)
  define q where "q = max (b - 52) (- 1074)"
  have q: "q = b - 52" using eb e by (simp add: q_def)
  define k where "k = roundHalfEven (x / pow2 q)"
  have "pow2 b = pow2 (int 52) * pow2 q" by (simp add: q pow2_add [symmetric])
  then have pb: "pow2 b = 2 ^ 52 * pow2 q" by (simp only: pow2_nat)
  have "pow2 b \<le> x" using binaryExponent_le [OF xpos] by (simp add: b_def)
  then have "2 ^ 52 \<le> x / pow2 q" using pow2_pos [of q] by (simp add: pb pos_le_divide_eq)
  then have "of_int (2 ^ 52) \<le> x / pow2 q" by simp
  then have "2 ^ 52 \<le> k" unfolding k_def by (rule roundHalfEven_ge_int)
  then have "(2::rat) ^ 52 \<le> of_int k" by (metis of_int_le_iff of_int_numeral of_int_power)
  then have "2 ^ 52 * pow2 q \<le> of_int k * pow2 q" using pow2_pos [of q] by simp
  then have r: "pow2 b \<le> of_int k * pow2 q" by (simp only: pb)
  have "pow2 e \<le> pow2 b" using eb by (simp add: pow2_mono_iff)
  with r have re: "pow2 e \<le> of_int k * pow2 q" by simp
  have "roundFloat64 x = (if pow2 1024 \<le> of_int k * pow2 q then None else Some (of_int k * pow2 q))"
    using xpos by (simp add: roundFloat64_def Let_def b_def [symmetric] q_def [symmetric] k_def [symmetric])
  then show ?thesis using re by simp
qed

lemma int64_of_float64_out_of_range:
  assumes "0 \<le> x" "2 ^ 63 \<le> x"
  shows "int64_of_float64 oor (roundFloat64 x) = oor"
proof -
  have "pow2 (int 63) \<le> x" using assms(2) by (simp only: pow2_nat)
  then have "pow2 63 \<le> x" by simp
  then consider "roundFloat64 x = None" | p where "roundFloat64 x = Some p" "pow2 63 \<le> p"
    using roundFloat64_lower [of 63 x] by auto
  then show ?thesis
  proof cases
    case 1
    then show ?thesis by (simp add: int64_of_float64_def)
  next
    case 2
    have "pow2 (int 63) \<le> p" using 2(2) by simp
    then have p: "2 ^ 63 \<le> p" by (simp only: pow2_nat)
    then have "(2::int) ^ 63 \<le> \<lfloor>p\<rfloor>" by (subst le_floor_iff) simp
    moreover have "0 \<le> p" using p by (rule order_trans [rotated]) simp
    ultimately show ?thesis by (simp add: 2(1) int64_of_float64_def float64_trunc_def)
  qed
qed

lemma roundFloat64_overflow:
  assumes "2 ^ 1024 \<le> x"
  shows "roundFloat64 x = None"
proof -
  have "pow2 (int 1024) \<le> x" using assms by (simp only: pow2_nat)
  then have x: "pow2 1024 \<le> x" by simp
  have xpos: "0 < x" using x pow2_pos [of 1024] by simp
  show ?thesis
  proof (rule ccontr)
    assume "roundFloat64 x \<noteq> None"
    then obtain p where p: "roundFloat64 x = Some p" "pow2 1024 \<le> p"
      using roundFloat64_lower [of 1024 x] x by auto
    define q where "q = max (binaryExponent x - 52) (- 1074)"
    have "roundFloat64 x = (if pow2 1024 \<le> of_int (roundHalfEven (x / pow2 q)) * pow2 q then None
                            else Some (of_int (roundHalfEven (x / pow2 q)) * pow2 q))"
      using xpos by (simp add: roundFloat64_def Let_def q_def [symmetric])
    with p show False by (auto split: if_splits)
  qed
qed

lemma parseBytes_value:
  assumes m: "matchNumberUnit (strings_TrimSpace s) = Some (number, unit)"
    and v: "strconv_ParseFloat number = Some v"
  shows "parseBytes oor s =
         (if v * unitMultiplier (strings_ToLower unit) < 2 ^ 63
          then \<lfloor>v * unitMultiplier (strings_ToLower unit)\<rfloor> else oor)"
proof (cases "v * unitMultiplier (strings_ToLower unit) < 2 ^ 63")
  case True
  then show ?thesis using parseBytes_product [OF m v True] by simp
next
  case False
  obtain q where q: "0 \<le> q" "roundFloat64 q = Some v"
    using strconv_ParseFloat_Some [OF v] by blast
  have v0: "0 \<le> v" using q by (rule roundFloat64_nonneg)
  obtain j where j: "unitMultiplier (strings_ToLower unit) = 2 ^ j"
    using unitMultiplier_pow2 by blast
  have "0 \<le> v * 2 ^ j" using v0 by simp
  moreover have "2 ^ 63 \<le> v * 2 ^ j" using False by (simp add: j)
  ultimately have "int64_of_float64 oor (roundFloat64 (v * 2 ^ j)) = oor"
    by (rule int64_of_float64_out_of_range)
  then show ?thesis
    using False by (simp add: parseBytes_matched [OF m] v j float64_mul_def)
qed

lemma specGrammar_number:
  assumes "specGrammar ip point fp ws unit"
  shows "list_all isNumberChar (ip @ point @ fp)" "ip @ point @ fp \<noteq> []"
  using assms by (auto simp: specGrammar_def list_all_iff class_disjoint isNumberChar_def)

lemma parseBytes_grammar:
  assumes pre: "list_all asciiSpace pre" and post: "list_all asciiSpace post"
    and g: "specGrammar ip point fp ws unit"
  shows "parseBytes oor (pre @ ip @ point @ fp @ ws @ unit @ post) =
         (case roundFloat64 (specValue ip fp) of
            None \<Rightarrow> 0
          | Some v \<Rightarrow>
              if v * unitMultiplier (strings_ToLower unit) < 2 ^ 63
              then \<lfloor>v * unitMultiplier (strings_ToLower unit)\<rfloor> else oor)"
proof -
  let ?s = "pre @ ip @ point @ fp @ ws @ unit @ post"
  have t: "strings_TrimSpace ?s = (ip @ point @ fp) @ ws @ unit"
    using strings_TrimSpace_grammar [OF pre post g] by simp
  have m: "matchNumberUnit (strings_TrimSpace ?s) = Some (ip @ point @ fp, unit)"
    unfolding t using specGrammar_number [OF g] g
    by (intro matchNumberUnit_shape) (simp_all add: specGrammar_def)
  have d: "decimalValue (ip @ point @ fp) = Some (specValue ip fp)"
    using g by (intro decimalValue_shape) (simp_all add: specGrammar_def)
  show ?thesis
  proof (cases "roundFloat64 (specValue ip fp)")
    case None
    then have "strconv_ParseFloat (ip @ point @ fp) = None" by (simp add: strconv_ParseFloat_def d)
    then show ?thesis using None by (simp add: parseBytes_matched [OF m])
  next
    case (Some v)
    then have "strconv_ParseFloat (ip @ point @ fp) = Some v" by (simp add: strconv_ParseFloat_def d)
    from parseBytes_value [OF m this] show ?thesis by (simp add: Some)
  qed
qed

lemma parseBytes_not_grammar:
  assumes "\<not> (\<exists>ip point fp ws unit. specGrammar ip point fp ws unit
              \<and> strings_TrimSpace s = ip @ point @ fp @ ws @ unit)"
  shows "parseBytes oor s = 0"
proof (cases "matchNumberUnit (strings_TrimSpace s)")
  case None
  then show ?thesis by (rule parseBytes_no_match)
next
  case (Some a)
  obtain n u where a: "a = (n, u)" by (cases a)
  have m: "matchNumberUnit (strings_TrimSpace s) = Some (n, u)" using Some a by simp
  obtain ws where ws: "strings_TrimSpace s = n @ ws @ u" "list_all isRegexpSpace ws"
    "list_all isLetter u" "u \<noteq> []"
    using matchNumberUnit_Some [OF m] by blast
  show ?thesis
  proof (cases "decimalValue n")
    case None
    then show ?thesis by (simp add: parseBytes_matched [OF m] strconv_ParseFloat_def)
  next
    case (Some q)
    then obtain ip point fp where n: "n = ip @ point @ fp" "list_all isDigit ip"
      "list_all isDigit fp" "ip \<noteq> [] \<or> fp \<noteq> []" "point = ''.'' \<or> point = [] \<and> fp = []"
      using decimalValue_Some [of n q] by blast
    have "specGrammar ip point fp ws u" using n ws by (simp add: specGrammar_def)
    moreover have "strings_TrimSpace s = ip @ point @ fp @ ws @ u" using ws(1) n(1) by simp
    ultimately show ?thesis using assms by blast
  qed
qed

lemma trim_examples:
  "strings_TrimSpace ''1.5GiB'' = ''1.5GiB''"
  "strings_TrimSpace ''0B'' = ''0B''"
  "strings_TrimSpace ''garbage'' = ''garbage''"
  "strings_TrimSpace ''5xyz'' = ''5xyz''"
  "strings_TrimSpace ''1.2.3kB'' = ''1.2.3kB''"
  "strings_TrimSpace ''8388608TiB'' = ''8388608TiB''"
  "strings_TrimSpace '' 512 MiB  '' = ''512 MiB''"
  "strings_TrimSpace ''--'' = ''--''"
  by code_simp+

lemma match_examples:
  "matchNumberUnit ''1.5GiB'' = Some (''1.5'', ''GiB'')"
  "matchNumberUnit ''0B'' = Some (''0'', ''B'')"
  "matchNumberUnit ''garbage'' = None"
  "matchNumberUnit ''5xyz'' = Some (''5'', ''xyz'')"
  "matchNumberUnit ''1.2.3kB'' = Some (''1.2.3'', ''kB'')"
  "matchNumberUnit ''8388608TiB'' = Some (''8388608'', ''TiB'')"
  "matchNumberUnit ''512 MiB'' = Some (''512'', ''MiB'')"
  by code_simp+

lemma unit_examples:
  "specMultiplier (strings_ToLower ''GiB'') = Some (1024 ^ 3)"
  "specMultiplier (strings_ToLower ''B'') = Some 1"
  "specMultiplier (strings_ToLower ''xyz'') = None"
  "specMultiplier (strings_ToLower ''TiB'') = Some (1024 ^ 4)"
  "specMultiplier (strings_ToLower ''MiB'') = Some (1024 ^ 2)"
  by code_simp+

lemma decimal_examples:
  "decimalValue ''1.5'' = Some (3 / 2)"
  "decimalValue ''0'' = Some 0"
  "decimalValue ''5'' = Some 5"
  "decimalValue ''1.2.3'' = None"
  "decimalValue ''8388608'' = Some 8388608"
  "decimalValue ''512'' = Some 512"
  by (simp_all add: decimalValue_def digitsValue_def isDigit_def)

lemma parse_examples:
  "strconv_ParseFloat ''1.5'' = Some (3 / 2)"
  "strconv_ParseFloat ''0'' = Some 0"
  "strconv_ParseFloat ''5'' = Some 5"
  "strconv_ParseFloat ''1.2.3'' = None"
  "strconv_ParseFloat ''8388608'' = Some 8388608"
  "strconv_ParseFloat ''512'' = Some 512"
proof -
  have "roundFloat64 (of_nat 3 * pow2 (- 1)) = Some (of_nat 3 * pow2 (- 1))"
    by (rule roundFloat64_exact) simp_all
  then show "strconv_ParseFloat ''1.5'' = Some (3 / 2)"
    by (simp add: strconv_ParseFloat_def decimal_examples pow2_def)
  show "strconv_ParseFloat ''0'' = Some 0"
    using roundFloat64_nat [of 0] by (simp add: strconv_ParseFloat_def decimal_examples)
  show "strconv_ParseFloat ''5'' = Some 5"
    using roundFloat64_nat [of 5] by (simp add: strconv_ParseFloat_def decimal_examples)
  show "strconv_ParseFloat ''1.2.3'' = None"
    by (simp add: strconv_ParseFloat_def decimal_examples)
  show "strconv_ParseFloat ''8388608'' = Some 8388608"
    using roundFloat64_nat [of 8388608] by (simp add: strconv_ParseFloat_def decimal_examples)
  show "strconv_ParseFloat ''512'' = Some 512"
    using roundFloat64_nat [of 512] by (simp add: strconv_ParseFloat_def decimal_examples)
qed

lemma float64_mul_2_63: "float64_mul 8388608 1099511627776 = Some 9223372036854775808"
proof -
  have "roundFloat64 (of_nat (2 ^ 52) * pow2 11) = Some (of_nat (2 ^ 52) * pow2 11)"
    by (rule roundFloat64_exact) simp_all
  then show ?thesis by (simp add: float64_mul_def pow2_def)
qed

text \<open>
  The claim C7 as stated fails on a number with a unit that is not in the table:
  \<open>multiplier\<close> keeps its initial value 1, so \<open>parseBytes("5xyz")\<close> is 5 and not 0.  It
  also fails where the product does not fit an \<open>int64\<close>: \<open>8388608TiB\<close> is \<open>2^63\<close> bytes,
  and the conversion gives \<open>-2^63\<close> on amd64.
\<close>

theorem parseBytes_unit_counterexample:
  "matchNumberUnit (strings_TrimSpace ''5xyz'') = Some (''5'', ''xyz'')
   \<and> specMultiplier (strings_ToLower ''xyz'') = None
   \<and> parseBytes amd64OutOfRange ''5xyz'' = 5
   \<and> matchNumberUnit (strings_TrimSpace ''8388608TiB'') = Some (''8388608'', ''TiB'')
   \<and> specMultiplier (strings_ToLower ''TiB'') = Some (1024 ^ 4)
   \<and> parseBytes amd64OutOfRange ''8388608TiB'' = - (2 ^ 63)"
proof -
  have a: "matchNumberUnit (strings_TrimSpace ''5xyz'') = Some (''5'', ''xyz'')"
    by (simp only: trim_examples match_examples)
  have "parseBytes amd64OutOfRange ''5xyz'' = \<lfloor>5 * unitMultiplier (strings_ToLower ''xyz'')\<rfloor>"
    using a parse_examples(3) by (rule parseBytes_product) (simp add: unitMultiplier_spec unit_examples)
  then have b: "parseBytes amd64OutOfRange ''5xyz'' = 5"
    by (simp add: unitMultiplier_spec unit_examples)
  have c: "matchNumberUnit (strings_TrimSpace ''8388608TiB'') = Some (''8388608'', ''TiB'')"
    by (simp only: trim_examples match_examples)
  have "parseBytes amd64OutOfRange ''8388608TiB'' = amd64OutOfRange"
    using c parse_examples(5)
    by (rule parseBytes_out_of_range [where p = "2 ^ 63"])
      (simp_all add: unitMultiplier_spec unit_examples float64_mul_2_63)
  then have d: "parseBytes amd64OutOfRange ''8388608TiB'' = - (2 ^ 63)"
    by (simp add: amd64OutOfRange_def)
  show ?thesis using a b c d by (simp add: unit_examples)
qed

text \<open>
  C7, amended.  \<open>parseBytes\<close> is a total function of its input.  For an input that is,
  between optional ASCII white space, a decimal number (digits with an optional decimal
  point), optional white space and a unit of letters, let \<open>v\<close> be the \<open>float64\<close> nearest
  to the number.  With a unit of the table (\<open>b\<close>, \<open>kb/kib\<close>, \<open>mb/mib\<close>, \<open>gb/gib\<close>,
  \<open>tb/tib\<close>, in any case) of multiplier \<open>m\<close> the result is the integer part of \<open>v * m\<close>
  when that is below \<open>2^63\<close>, and the platform's result of an out-of-range conversion
  otherwise.  With any other unit the multiplier is 1: the result is the integer part of
  \<open>v\<close> when that is below \<open>2^63\<close>, and the out-of-range result otherwise.  When the
  number is too large for a \<open>float64\<close> the result is 0.  An input that, trimmed of white
  space, is not of this form yields 0.  In particular \<open>parseBytes("1.5GiB") =
  1610612736\<close>, \<open>parseBytes("0B") = 0\<close> and \<open>parseBytes("garbage") = 0\<close>.
\<close>

theorem parseBytes_spec:
  "(list_all asciiSpace pre \<and> list_all asciiSpace post \<and> specGrammar ip point fp ws unit
      \<and> roundFloat64 (specValue ip fp) = Some v
      \<and> specMultiplier (strings_ToLower unit) = Some m
    \<longrightarrow> parseBytes oor (pre @ ip @ point @ fp @ ws @ unit @ post)
        = (if v * m < 2 ^ 63 then \<lfloor>v * m\<rfloor> else oor))
   \<and> (list_all asciiSpace pre \<and> list_all asciiSpace post \<and> specGrammar ip point fp ws unit
      \<and> roundFloat64 (specValue ip fp) = Some v
      \<and> specMultiplier (strings_ToLower unit) = None
    \<longrightarrow> parseBytes oor (pre @ ip @ point @ fp @ ws @ unit @ post)
        = (if v < 2 ^ 63 then \<lfloor>v\<rfloor> else oor))
   \<and> (list_all asciiSpace pre \<and> list_all asciiSpace post \<and> specGrammar ip point fp ws unit
      \<and> roundFloat64 (specValue ip fp) = None
    \<longrightarrow> parseBytes oor (pre @ ip @ point @ fp @ ws @ unit @ post) = 0)
   \<and> (\<not> (\<exists>ip point fp ws unit. specGrammar ip point fp ws unit
              \<and> strings_TrimSpace s = ip @ point @ fp @ ws @ unit)
    \<longrightarrow> parseBytes oor s = 0)
   \<and> parseBytes oor ''1.5GiB'' = 1610612736
   \<and> parseBytes oor ''0B'' = 0
   \<and> parseBytes oor ''garbage'' = 0"
proof -
  have known: "list_all asciiSpace pre \<and> list_all asciiSpace post \<and> specGrammar ip point fp ws unit
      \<and> roundFloat64 (specValue ip fp) = Some v
      \<and> specMultiplier (strings_ToLower unit) = Some m
    \<longrightarrow> parseBytes oor (pre @ ip @ point @ fp @ ws @ unit @ post)
        = (if v * m < 2 ^ 63 then \<lfloor>v * m\<rfloor> else oor)"
    by (simp add: parseBytes_grammar unitMultiplier_spec)
  have unknown: "list_all asciiSpace pre \<and> list_all asciiSpace post \<and> specGrammar ip point fp ws unit
      \<and> roundFloat64 (specValue ip fp) = Some v
      \<and> specMultiplier (strings_ToLower unit) = None
    \<longrightarrow> parseBytes oor (pre @ ip @ point @ fp @ ws @ unit @ post)
        = (if v < 2 ^ 63 then \<lfloor>v\<rfloor> else oor)"
    by (simp add: parseBytes_grammar unitMultiplier_spec)
  have overflow: "list_all asciiSpace pre \<and> list_all asciiSpace post \<and> specGrammar ip point fp ws unit
      \<and> roundFloat64 (specValue ip fp) = None
    \<longrightarrow> parseBytes oor (pre @ ip @ point @ fp @ ws @ unit @ post) = 0"
    by (simp add: parseBytes_grammar)
  have other: "\<not> (\<exists>ip point fp ws unit. specGrammar ip point fp ws unit
              \<and> strings_TrimSpace s = ip @ point @ fp @ ws @ unit)
    \<longrightarrow> parseBytes oor s = 0"
    using parseBytes_not_grammar [of s oor] by blast
  have "parseBytes oor ''1.5GiB'' = \<lfloor>3 / 2 * unitMultiplier (strings_ToLower ''GiB'')\<rfloor>"
    by (rule parseBytes_product [where number = "''1.5''"])
      (simp_all add: trim_examples match_examples parse_examples unitMultiplier_spec unit_examples)
  then have gib: "parseBytes oor ''1.5GiB'' = 1610612736"
    by (simp add: unitMultiplier_spec unit_examples)
  have "parseBytes oor ''0B'' = \<lfloor>0 * unitMultiplier (strings_ToLower ''B'')\<rfloor>"
    by (rule parseBytes_product [where number = "''0''"])
      (simp_all add: trim_examples match_examples parse_examples)
  then have zero: "parseBytes oor ''0B'' = 0" by simp
  have garbage: "parseBytes oor ''garbage'' = 0"
    by (rule parseBytes_no_match) (simp only: trim_examples match_examples)
  show ?thesis using known unknown overflow other gib zero garbage by blast
qed

text \<open>
  Examples of every case: \<open>" 1.5 GiB "\<close>, a product of \<open>2^63\<close>, an unknown unit, a
  number above the largest \<open>float64\<close>, and an input that is not of the grammar.
\<close>

lemma digits_replicate:
  "foldl (\<lambda>acc c. 10 * acc + (of_char c - 48)) (a::nat) (replicate n (CHR ''0'')) = a * 10 ^ n"
  by (induction n arbitrary: a) simp_all

lemma hugeNumber_facts:
  "list_all isDigit hugeNumber" "hugeNumber \<noteq> []"
  "roundFloat64 (specValue hugeNumber []) = None"
proof -
  show "list_all isDigit hugeNumber" by (simp add: hugeNumber_def list_all_iff isDigit_def)
  show "hugeNumber \<noteq> []" by (simp add: hugeNumber_def)
  have "digitsValue hugeNumber = 10 ^ 400"
    by (simp add: hugeNumber_def digitsValue_def digits_replicate)
  then have "specValue hugeNumber [] = 10 ^ 400" by (simp add: specValue_def)
  moreover have "(2::rat) ^ 1024 \<le> 10 ^ 400" by simp
  ultimately show "roundFloat64 (specValue hugeNumber []) = None"
    by (simp only: roundFloat64_overflow)
qed

lemma grammar_examples:
  "list_all asciiSpace '' ''" "list_all asciiSpace []"
  "specGrammar ''1'' ''.'' ''5'' '' '' ''GiB''"
  "specGrammar ''8388608'' [] [] [] ''TiB''"
  "specGrammar ''5'' [] [] [] ''xyz''"
  "specGrammar hugeNumber [] [] [] ''b''"
  by (simp_all add: specGrammar_def hugeNumber_facts asciiSpace_def isDigit_def isRegexpSpace_def
      isLetter_def isUpper_def isLower_def)

lemma value_examples:
  "roundFloat64 (specValue ''1'' ''5'') = Some (3 / 2)"
  "roundFloat64 (specValue ''8388608'' []) = Some 8388608"
  "roundFloat64 (specValue ''5'' []) = Some 5"
proof -
  have "roundFloat64 (of_nat 3 * pow2 (- 1)) = Some (of_nat 3 * pow2 (- 1))"
    by (rule roundFloat64_exact) simp_all
  then show "roundFloat64 (specValue ''1'' ''5'') = Some (3 / 2)"
    by (simp add: specValue_def digitsValue_def pow2_def)
  show "roundFloat64 (specValue ''8388608'' []) = Some 8388608"
    using roundFloat64_nat [of 8388608] by (simp add: specValue_def digitsValue_def)
  show "roundFloat64 (specValue ''5'' []) = Some 5"
    using roundFloat64_nat [of 5] by (simp add: specValue_def digitsValue_def)
qed

lemma garbage_no_grammar:
  "\<not> (\<exists>ip point fp ws unit. specGrammar ip point fp ws unit
         \<and> strings_TrimSpace ''garbage'' = ip @ point @ fp @ ws @ unit)"
proof
  assume "\<exists>ip point fp ws unit. specGrammar ip point fp ws unit
         \<and> strings_TrimSpace ''garbage'' = ip @ point @ fp @ ws @ unit"
  then obtain ip point fp ws unit where g: "specGrammar ip point fp ws unit"
    and t: "''garbage'' = (ip @ point @ fp) @ ws @ unit"
    by (auto simp: trim_examples)
  have "matchNumberUnit ((ip @ point @ fp) @ ws @ unit) = Some (ip @ point @ fp, unit)"
    using specGrammar_number [OF g] g by (intro matchNumberUnit_shape) (simp_all add: specGrammar_def)
  then show False unfolding t [symmetric] by (simp add: match_examples)
qed

theorem parseBytes_spec_witness:
  "list_all asciiSpace '' '' \<and> specGrammar ''1'' ''.'' ''5'' '' '' ''GiB''
   \<and> roundFloat64 (specValue ''1'' ''5'') = Some (3 / 2)
   \<and> specMultiplier (strings_ToLower ''GiB'') = Some (1024 ^ 3)
   \<and> parseBytes amd64OutOfRange '' 1.5 GiB '' = 1610612736
   \<and> specGrammar ''8388608'' [] [] [] ''TiB''
   \<and> roundFloat64 (specValue ''8388608'' []) = Some 8388608
   \<and> specMultiplier (strings_ToLower ''TiB'') = Some (1024 ^ 4)
   \<and> parseBytes amd64OutOfRange ''8388608TiB'' = amd64OutOfRange
   \<and> specGrammar ''5'' [] [] [] ''xyz''
   \<and> roundFloat64 (specValue ''5'' []) = Some 5
   \<and> specMultiplier (strings_ToLower ''xyz'') = None
   \<and> parseBytes amd64OutOfRange ''5xyz'' = 5
   \<and> specGrammar hugeNumber [] [] [] ''b''
   \<and> roundFloat64 (specValue hugeNumber []) = None
   \<and> parseBytes amd64OutOfRange (hugeNumber @ ''b'') = 0
   \<and> \<not> (\<exists>ip point fp ws unit. specGrammar ip point fp ws unit
            \<and> strings_TrimSpace ''garbage'' = ip @ point @ fp @ ws @ unit)
   \<and> parseBytes amd64OutOfRange ''garbage'' = 0"
  using
    parseBytes_spec [where pre = "'' ''" and ip = "''1''" and point = "''.''" and fp = "''5''"
      and ws = "'' ''" and unit = "''GiB''" and post = "'' ''" and v = "3 / 2" and m = "1024 ^ 3"
      and oor = amd64OutOfRange]
    parseBytes_spec [where pre = "[]" and ip = "''8388608''" and point = "[]" and fp = "[]"
      and ws = "[]" and unit = "''TiB''" and post = "[]" and v = 8388608 and m = "1024 ^ 4"
      and oor = amd64OutOfRange]
    parseBytes_spec [where pre = "[]" and ip = "''5''" and point = "[]" and fp = "[]"
      and ws = "[]" and unit = "''xyz''" and post = "[]" and v = 5 and oor = amd64OutOfRange]
    parseBytes_spec [where pre = "[]" and ip = hugeNumber and point = "[]" and fp = "[]"
      and ws = "[]" and unit = "''b''" and post = "[]" and oor = amd64OutOfRange
      and s = "''garbage''"]
  by (simp add: grammar_examples value_examples unit_examples hugeNumber_facts garbage_no_grammar
      asciiSpace_def)

section \<open>\<open>CreateContainer\<close> of the two backends\<close>

lemma exposedPorts_foldl:
  "foldl (\<lambda>ports (containerPort, hostPort). insert containerPort ports) A xs = A \<union> fst ` set xs"
  by (induction xs arbitrary: A) auto

lemma portBindings_foldl_dom:
  "dom (foldl (\<lambda>bindings (containerPort, hostPort). bindings(containerPort \<mapsto> f hostPort)) M xs)
   = dom M \<union> fst ` set xs"
  by (induction xs arbitrary: M) auto

lemma portBindings_foldl_distinct:
  fixes xs :: "('a \<times> 'b) list" and f :: "'b \<Rightarrow> 'c"
  assumes "distinct (map fst xs)"
  shows "foldl (\<lambda>bindings (containerPort, hostPort). bindings(containerPort \<mapsto> f hostPort)) Map.empty xs
         = (\<lambda>p. map_option f (map_of xs p))"
proof -
  define g :: "('a \<rightharpoonup> 'c) \<Rightarrow> 'a \<times> 'b \<Rightarrow> ('a \<rightharpoonup> 'c)"
    where "g = (\<lambda>bindings (containerPort, hostPort). bindings(containerPort \<mapsto> f hostPort))"
  have step: "g M (cp, hp) = M(cp \<mapsto> f hp)" for M cp hp by (simp add: g_def)
  have "foldl g Map.empty xs = (\<lambda>p. map_option f (map_of xs p))"
    using assms
  proof (induction xs rule: rev_induct)
    case Nil
    then show ?case by simp
  next
    case (snoc x xs)
    obtain cp hp where x: "x = (cp, hp)" by (cases x)
    have "cp \<notin> fst ` set xs" using snoc.prems by (simp add: x)
    then have none: "map_of xs cp = None" by (simp add: map_of_eq_None_iff)
    have ih: "foldl g Map.empty xs = (\<lambda>p. map_option f (map_of xs p))"
      using snoc.prems by (intro snoc.IH) simp
    have "foldl g Map.empty (xs @ [x]) = (foldl g Map.empty xs)(cp \<mapsto> f hp)"
      by (simp add: x step)
    also have "\<dots> = (\<lambda>p. map_option f (map_of (xs @ [x]) p))"
      by (rule ext) (simp add: ih x none map_add_def split: option.splits)
    finally show ?case .
  qed
  then show ?thesis by (simp only: g_def)
qed

lemma flags_present:
  assumes "x \<in> set xs"
  shows "\<exists>pre post. concat (map f xs) = pre @ f x @ post"
proof -
  obtain ys zs where "xs = ys @ x # zs" using assms by (auto dest: split_list)
  then have "concat (map f xs) = concat (map f ys) @ f x @ concat (map f zs)" by simp
  then show ?thesis by blast
qed

lemma rangeOf_entry: "rangeOf m xs \<Longrightarrow> m k = Some v \<Longrightarrow> (k, v) \<in> set xs"
  by (auto simp: rangeOf_def dest: map_of_SomeD)

lemma rangeOf_keys: "rangeOf m xs \<Longrightarrow> fst ` set xs = dom m"
  by (auto simp: rangeOf_def dom_map_of_conv_image_fst intro: rev_image_eqI)

lemma cli_port_flags:
  assumes "(containerPort, hostPort) \<in> set (rangePortBindings ro (cfgPortBindings cfg))"
  shows "\<exists>pre post. cli_createArgs ro c cfg = pre @ [''-p'', hostPort @ '':'' @ containerPort] @ post"
proof -
  obtain pre post where
    "concat (map (\<lambda>(containerPort, hostPort). [''-p'', hostPort @ '':'' @ containerPort])
       (rangePortBindings ro (cfgPortBindings cfg))) = pre @ [''-p'', hostPort @ '':'' @ containerPort] @ post"
    using flags_present [OF assms, of "\<lambda>(containerPort, hostPort). [''-p'', hostPort @ '':'' @ containerPort]"]
    by auto
  then have "cli_createArgs ro c cfg =
     ([''create'', ''--name'', cfgName cfg] @ [''--network'', cliNetwork c]
        @ concat (map (\<lambda>env. [''-e'', env]) (cfgEnv cfg)) @ pre)
     @ [''-p'', hostPort @ '':'' @ containerPort]
     @ (post @ concat (map (\<lambda>(hostPath, containerPath). [''-v'', hostPath @ '':'' @ containerPath])
         (rangeVolumes ro (cfgVolumes cfg)))
     @ (if cfgMemoryLimit cfg > 0 then [''--memory'', fmt_d (cfgMemoryLimit cfg)] else [])
     @ (if cfgCPULimit cfg > 0 then [''--cpus'', fmt_2f (cfgCPULimit cfg)] else [])
     @ concat (map (\<lambda>(k, v). [''--label'', k @ ''='' @ v]) (rangeLabels ro (cfgLabels cfg)))
     @ [''--restart'', ''unless-stopped'']
     @ [cfgImage cfg]
     @ (if length (cfgCmd cfg) > 0 then cfgCmd cfg else []))"
    by (simp add: cli_createArgs_def)
  then show ?thesis by blast
qed

text \<open>
  C10.  Two configurations that differ only in \<open>ExposePort\<close> and \<open>Network\<close> (the second
  is the first with these two fields replaced) give the same create invocation in both
  backends, whatever the order in which the runtime visits the maps: the CLI backend
  runs the binary with the same argument vector, the daemon-based backend sends the same
  request, and \<open>CreateContainer\<close> returns the same.  The orders that are possible for the
  one configuration are those possible for the other, so the two have the same possible
  invocations.  \<open>CreateContainer\<close> makes exactly one invocation, with the argument
  vector or the request built from the configuration, and returns its result (the
  daemon-based backend wraps the error).  Both attach the network of the client: the
  argument vector starts with \<open>create --name <name> --network <client network>\<close> and the
  request has the client's network as its network mode.  Both bind every configured port
  to the host: each entry of \<open>PortBindings\<close> is a \<open>-p hostPort:containerPort\<close> pair of
  the argument vector, and the request exposes exactly the configured container ports
  and binds each to its host port on \<open>0.0.0.0\<close>.
\<close>

theorem CreateContainer_ignores_ExposePort_Network:
  "cli_CreateContainer runCommand ro c (cfg\<lparr>cfgNetwork := n, cfgExposePort := e\<rparr>)
     = cli_CreateContainer runCommand ro c cfg
   \<and> docker_CreateContainer ContainerCreate oor ro d (cfg\<lparr>cfgNetwork := n, cfgExposePort := e\<rparr>)
     = docker_CreateContainer ContainerCreate oor ro d cfg
   \<and> validOrder ro (cfg\<lparr>cfgNetwork := n, cfgExposePort := e\<rparr>) = validOrder ro cfg
   \<and> snd (cli_CreateContainer runCommand ro c cfg) = [(cliBinary c, cli_createArgs ro c cfg)]
   \<and> fst (cli_CreateContainer runCommand ro c cfg)
     = runCommand (cliBinary c) (cli_createArgs ro c cfg)
   \<and> take 5 (cli_createArgs ro c cfg)
     = [''create'', ''--name'', cfgName cfg, ''--network'', cliNetwork c]
   \<and> (validOrder ro cfg \<and> cfgPortBindings cfg containerPort = Some hostPort
      \<longrightarrow> (\<exists>pre post. cli_createArgs ro c cfg
                = pre @ [''-p'', hostPort @ '':'' @ containerPort] @ post))
   \<and> snd (docker_CreateContainer ContainerCreate oor ro d cfg) = [docker_createRequest oor ro d cfg]
   \<and> fst (docker_CreateContainer ContainerCreate oor ro d cfg)
     = (case ContainerCreate (docker_createRequest oor ro d cfg) of
          Inl err \<Rightarrow> Inl (''failed to create container: '' @ err)
        | Inr respID \<Rightarrow> Inr respID)
   \<and> hostNetworkMode (docker_createRequest oor ro d cfg) = dockerNetwork d
   \<and> (validOrder ro cfg
      \<longrightarrow> configExposedPorts (docker_createRequest oor ro d cfg) = dom (cfgPortBindings cfg)
          \<and> hostPortBindings (docker_createRequest oor ro d cfg)
            = (\<lambda>p. map_option (\<lambda>hostPort. [\<lparr>HostIP = ''0.0.0.0'', HostPort = hostPort\<rparr>])
                     (cfgPortBindings cfg p)))"
proof -
  let ?cfg' = "cfg\<lparr>cfgNetwork := n, cfgExposePort := e\<rparr>"
  have args: "cli_createArgs ro c ?cfg' = cli_createArgs ro c cfg"
    by (simp add: cli_createArgs_def)
  have req: "docker_createRequest oor ro d ?cfg' = docker_createRequest oor ro d cfg"
    by (simp add: docker_createRequest_def)
  have a: "cli_CreateContainer runCommand ro c ?cfg' = cli_CreateContainer runCommand ro c cfg"
    by (simp add: cli_CreateContainer_def args)
  have b: "docker_CreateContainer ContainerCreate oor ro d ?cfg'
     = docker_CreateContainer ContainerCreate oor ro d cfg"
    by (simp add: docker_CreateContainer_def req)
  have v: "validOrder ro ?cfg' = validOrder ro cfg"
    by (simp add: validOrder_def)
  have i: "snd (cli_CreateContainer runCommand ro c cfg) = [(cliBinary c, cli_createArgs ro c cfg)]"
    by (simp add: cli_CreateContainer_def Let_def split: sum.splits)
  have r: "fst (cli_CreateContainer runCommand ro c cfg)
     = runCommand (cliBinary c) (cli_createArgs ro c cfg)"
    by (simp add: cli_CreateContainer_def Let_def split: sum.splits)
  have t: "take 5 (cli_createArgs ro c cfg)
     = [''create'', ''--name'', cfgName cfg, ''--network'', cliNetwork c]"
    by (simp add: cli_createArgs_def)
  have p: "validOrder ro cfg \<and> cfgPortBindings cfg containerPort = Some hostPort
      \<longrightarrow> (\<exists>pre post. cli_createArgs ro c cfg
                = pre @ [''-p'', hostPort @ '':'' @ containerPort] @ post)"
    using cli_port_flags [of containerPort hostPort ro cfg c]
      rangeOf_entry [of "cfgPortBindings cfg" "rangePortBindings ro (cfgPortBindings cfg)"
        containerPort hostPort]
    by (auto simp: validOrder_def)
  have di: "snd (docker_CreateContainer ContainerCreate oor ro d cfg)
     = [docker_createRequest oor ro d cfg]"
    by (simp add: docker_CreateContainer_def Let_def split: sum.splits)
  have dr: "fst (docker_CreateContainer ContainerCreate oor ro d cfg)
     = (case ContainerCreate (docker_createRequest oor ro d cfg) of
          Inl err \<Rightarrow> Inl (''failed to create container: '' @ err)
        | Inr respID \<Rightarrow> Inr respID)"
    by (simp add: docker_CreateContainer_def Let_def split: sum.splits)
  have nw: "hostNetworkMode (docker_createRequest oor ro d cfg) = dockerNetwork d"
    by (simp add: docker_createRequest_def)
  have pb: "validOrder ro cfg
      \<longrightarrow> configExposedPorts (docker_createRequest oor ro d cfg) = dom (cfgPortBindings cfg)
          \<and> hostPortBindings (docker_createRequest oor ro d cfg)
            = (\<lambda>p. map_option (\<lambda>hostPort. [\<lparr>HostIP = ''0.0.0.0'', HostPort = hostPort\<rparr>])
                     (cfgPortBindings cfg p))"
  proof
    assume "validOrder ro cfg"
    then have ro: "rangeOf (cfgPortBindings cfg) (rangePortBindings ro (cfgPortBindings cfg))"
      by (simp add: validOrder_def)
    then have d: "distinct (map fst (rangePortBindings ro (cfgPortBindings cfg)))"
      and m: "map_of (rangePortBindings ro (cfgPortBindings cfg)) = cfgPortBindings cfg"
      by (simp_all add: rangeOf_def)
    show "configExposedPorts (docker_createRequest oor ro d cfg) = dom (cfgPortBindings cfg)
          \<and> hostPortBindings (docker_createRequest oor ro d cfg)
            = (\<lambda>p. map_option (\<lambda>hostPort. [\<lparr>HostIP = ''0.0.0.0'', HostPort = hostPort\<rparr>])
                     (cfgPortBindings cfg p))"
      using rangeOf_keys [OF ro]
      by (simp add: docker_createRequest_def exposedPorts_foldl portBindings_foldl_distinct [OF d] m)
  qed
  show ?thesis
    using a b v i r t p di dr nw pb by blast
qed

text \<open>
  The configuration of the example instance.  The two orders are both possible for it and
  give different argument vectors (the labels are swapped); under each of them, replacing
  the two fields changes nothing.
\<close>

lemma digitChar_values:
  "digitChar 0 = CHR ''0''" "digitChar 1 = CHR ''1''" "digitChar 2 = CHR ''2''"
  "digitChar 3 = CHR ''3''" "digitChar 4 = CHR ''4''" "digitChar 5 = CHR ''5''"
  "digitChar 6 = CHR ''6''" "digitChar 7 = CHR ''7''" "digitChar 8 = CHR ''8''"
  "digitChar 9 = CHR ''9''" "digitChar (Suc 0) = CHR ''1''"
  by code_simp+

lemma example_maps:
  "cfgPortBindings exampleConfig = [''5432/tcp'' \<mapsto> ''5433'']"
  "cfgVolumes exampleConfig = [''dbnest-vol-db-9f8e7d6c'' \<mapsto> ''/var/lib/postgresql/data'']"
  "cfgLabels exampleConfig = [''dbnest.managed'' \<mapsto> ''true'', ''dbnest.id'' \<mapsto> ''db-9f8e7d6c'']"
  by (simp_all add: exampleConfig_def containerConfigFor_def exampleCreated_def fmt_d_def
      digitsOf.simps digitChar_values)

lemma example_orders:
  "validOrder exampleOrder exampleConfig" "validOrder otherOrder exampleConfig"
  by (auto simp: validOrder_def rangeOf_def example_maps exampleOrder_def otherOrder_def)

lemma example_args:
  "cli_createArgs exampleOrder exampleCli exampleConfig =
     [''create'', ''--name'', ''dbnest-db-9f8e7d6c'', ''--network'', ''dbnest'',
      ''-e'', ''POSTGRES_USER=admin'', ''-e'', ''POSTGRES_PASSWORD=1b4e28ba-2fa1-11'',
      ''-e'', ''POSTGRES_DB=orders'', ''-p'', ''5433:5432/tcp'',
      ''-v'', ''dbnest-vol-db-9f8e7d6c:/var/lib/postgresql/data'',
      ''--memory'', ''536870912'', ''--cpus'', ''1.00'',
      ''--label'', ''dbnest.managed=true'', ''--label'', ''dbnest.id=db-9f8e7d6c'',
      ''--restart'', ''unless-stopped'', ''postgres:16'']"
  "cli_createArgs otherOrder exampleCli exampleConfig =
     [''create'', ''--name'', ''dbnest-db-9f8e7d6c'', ''--network'', ''dbnest'',
      ''-e'', ''POSTGRES_USER=admin'', ''-e'', ''POSTGRES_PASSWORD=1b4e28ba-2fa1-11'',
      ''-e'', ''POSTGRES_DB=orders'', ''-p'', ''5433:5432/tcp'',
      ''-v'', ''dbnest-vol-db-9f8e7d6c:/var/lib/postgresql/data'',
      ''--memory'', ''536870912'', ''--cpus'', ''1.00'',
      ''--label'', ''dbnest.id=db-9f8e7d6c'', ''--label'', ''dbnest.managed=true'',
      ''--restart'', ''unless-stopped'', ''postgres:16'']"
  by (simp_all add: cli_createArgs_def exampleCli_def exampleOrder_def otherOrder_def
      exampleConfig_def containerConfigFor_def
      exampleCreated_def fmt_d_def fmt_2f_def roundHalfEven_def digitsOf.simps digitChar_values)

lemma example_request:
  "docker_createRequest amd64OutOfRange exampleOrder exampleDocker exampleConfig =
     \<lparr>configImage = ''postgres:16'', configCmd = [],
      configEnv = [''POSTGRES_USER=admin'', ''POSTGRES_PASSWORD=1b4e28ba-2fa1-11'',
                   ''POSTGRES_DB=orders''],
      configExposedPorts = {''5432/tcp''},
      configLabels = [''dbnest.managed'' \<mapsto> ''true'', ''dbnest.id'' \<mapsto> ''db-9f8e7d6c''],
      hostPortBindings = [''5432/tcp'' \<mapsto> [\<lparr>HostIP = ''0.0.0.0'', HostPort = ''5433''\<rparr>]],
      hostMounts = [\<lparr>mountType = TypeVolume, mountSource = ''dbnest-vol-db-9f8e7d6c'',
                     mountTarget = ''/var/lib/postgresql/data''\<rparr>],
      hostNetworkMode = ''dbnest'', hostRestartPolicy = ''unless-stopped'',
      hostMemory = 536870912, hostNanoCPUs = 1000000000,
      containerName = ''dbnest-db-9f8e7d6c''\<rparr>"
proof -
  have "float64_mul 1 1000000000 = Some 1000000000"
    using roundFloat64_nat [of 1000000000] by (simp add: float64_mul_def)
  then show ?thesis
    by (simp add: docker_createRequest_def exampleDocker_def exampleOrder_def example_maps)
       (simp add: exampleConfig_def containerConfigFor_def exampleCreated_def
        int64_of_float64_def float64_trunc_def strings_HasPrefix_def)
qed

lemma example_orders_differ:
  "cli_createArgs otherOrder exampleCli exampleConfig
   \<noteq> cli_createArgs exampleOrder exampleCli exampleConfig"
  by (simp add: example_args)

theorem CreateContainer_ignores_ExposePort_Network_witness:
  "validOrder exampleOrder exampleConfig
   \<and> cfgPortBindings exampleConfig ''5432/tcp'' = Some ''5433''
   \<and> (\<exists>pre post. cli_createArgs exampleOrder exampleCli exampleConfig
         = pre @ [''-p'', ''5433:5432/tcp''] @ post)
   \<and> configExposedPorts (docker_createRequest amd64OutOfRange exampleOrder exampleDocker exampleConfig)
       = {''5432/tcp''}
   \<and> hostPortBindings (docker_createRequest amd64OutOfRange exampleOrder exampleDocker exampleConfig)
         ''5432/tcp''
       = Some [\<lparr>HostIP = ''0.0.0.0'', HostPort = ''5433''\<rparr>]
   \<and> cli_CreateContainer (\<lambda>binary args. Inr ''f00dfeed0123456789ab'') exampleOrder exampleCli
         (exampleConfig\<lparr>cfgNetwork := ''isolated'', cfgExposePort := False\<rparr>)
       = (Inr ''f00dfeed0123456789ab'',
          [(''docker'', cli_createArgs exampleOrder exampleCli exampleConfig)])
   \<and> docker_CreateContainer (\<lambda>request. Inl ''no such image'') amd64OutOfRange exampleOrder exampleDocker
         (exampleConfig\<lparr>cfgNetwork := ''isolated'', cfgExposePort := False\<rparr>)
       = (Inl ''failed to create container: no such image'',
          [docker_createRequest amd64OutOfRange exampleOrder exampleDocker exampleConfig])
   \<and> take 5 (cli_createArgs exampleOrder exampleCli exampleConfig)
       = [''create'', ''--name'', ''dbnest-db-9f8e7d6c'', ''--network'', ''dbnest'']
   \<and> hostNetworkMode (docker_createRequest amd64OutOfRange exampleOrder exampleDocker exampleConfig)
       = ''dbnest''"
proof -
  have name: "cfgName exampleConfig = ''dbnest-db-9f8e7d6c''"
    by (simp add: exampleConfig_def containerConfigFor_def exampleCreated_def)
  note inst = CreateContainer_ignores_ExposePort_Network [where c = exampleCli and cfg = exampleConfig
        and d = exampleDocker and ro = exampleOrder
        and oor = amd64OutOfRange and n = "''isolated''" and e = False
        and containerPort = "''5432/tcp''" and hostPort = "''5433''"
        and runCommand = "\<lambda>binary args. Inr ''f00dfeed0123456789ab''"
        and ContainerCreate = "\<lambda>request. Inl ''no such image''"]
  have cli: "cli_CreateContainer (\<lambda>binary args. Inr ''f00dfeed0123456789ab'') exampleOrder exampleCli
         (exampleConfig\<lparr>cfgNetwork := ''isolated'', cfgExposePort := False\<rparr>)
       = (Inr ''f00dfeed0123456789ab'',
          [(''docker'', cli_createArgs exampleOrder exampleCli exampleConfig)])"
    using inst by (simp add: prod_eq_iff exampleCli_def)
  have docker: "docker_CreateContainer (\<lambda>request. Inl ''no such image'') amd64OutOfRange exampleOrder
         exampleDocker (exampleConfig\<lparr>cfgNetwork := ''isolated'', cfgExposePort := False\<rparr>)
       = (Inl ''failed to create container: no such image'',
          [docker_createRequest amd64OutOfRange exampleOrder exampleDocker exampleConfig])"
    using inst by (simp add: prod_eq_iff)
  show ?thesis
    using inst cli docker
    by (simp add: example_orders example_maps name exampleCli_def exampleDocker_def)
qed


end
